(* ===== verification/Prelude.thy ===== *)
theory Prelude
  imports Main "HOL-Library.Word" "HOL-Library.Finite_Map" "HOL-Library.Multiset"
begin

text \<open>
  The vocabulary every component shares: the machine integers of the Rust code, the
  operations of its standard library that the sources use (\<open>checked_add\<close>, \<open>to_be_bytes\<close>,
  \<open>as_bytes\<close>, the \<open>?\<close> operator, \<open>for\<close> loops with an early return, \<open>HashMap::entry\<close>), and
  the generic facts about them. Nothing here is specific to the blockchain.
\<close>

section \<open>Machine integers\<close>

type_synonym byte = "8 word"
type_synonym u32 = "32 word"
type_synonym u64 = "64 word"
type_synonym u128 = "128 word"

named_theorems result_simps \<open>how a computation can have returned a given value\<close>
named_theorems checked_simps \<open>checked machine arithmetic read in the natural numbers\<close>

definition checked_add :: "'a::len word \<Rightarrow> 'a word \<Rightarrow> 'a word option" where
  "checked_add a b = (if unat a + unat b < 2 ^ LENGTH('a) then Some (a + b) else None)"

definition checked_sub :: "'a::len word \<Rightarrow> 'a word \<Rightarrow> 'a word option" where
  "checked_sub a b = (if b \<le> a then Some (a - b) else None)"

lemma unat_add_fits:
  fixes a b :: "'a::len word"
  assumes "unat a + unat b < 2 ^ LENGTH('a)"
  shows "unat (a + b) = unat a + unat b"
  using assms by (simp add: unat_word_ariths)

lemma checked_add_Some [checked_simps]:
  fixes a b c :: "'a::len word"
  shows "checked_add a b = Some c \<longleftrightarrow>
    unat a + unat b < 2 ^ LENGTH('a) \<and> c = a + b \<and> unat c = unat a + unat b"
  by (auto simp: checked_add_def unat_add_fits)

lemma unat_checked_add: "checked_add a b = Some c \<Longrightarrow> unat c = unat a + unat b"
  by (auto simp: checked_add_def unat_add_fits split: if_splits)

lemma checked_add_fits:
  fixes a b c :: "'a::len word"
  shows "checked_add a b = Some c \<Longrightarrow> unat a + unat b < 2 ^ LENGTH('a)"
  by (simp add: checked_add_def split: if_splits)

lemma checked_add_None [checked_simps]:
  fixes a b :: "'a::len word"
  shows "checked_add a b = None \<longleftrightarrow> 2 ^ LENGTH('a) \<le> unat a + unat b"
  by (auto simp: checked_add_def)

lemma checked_sub_Some [checked_simps]:
  fixes a b c :: "'a::len word"
  shows "checked_sub a b = Some c \<longleftrightarrow> b \<le> a \<and> c = a - b \<and> unat c = unat a - unat b"
  by (auto simp: checked_sub_def unat_sub)

lemma checked_sub_None [checked_simps]:
  fixes a b :: "'a::len word"
  shows "checked_sub a b = None \<longleftrightarrow> a < b"
  by (auto simp: checked_sub_def)

lemma checked_add_zero_right [simp]: "checked_add a (0::'a::len word) = Some a"
proof -
  have "unat a < 2 ^ LENGTH('a)"
    by (rule unsigned_less)
  then show ?thesis
    by (simp add: checked_add_def)
qed

lemma checked_add_zero_left [simp]: "checked_add (0::'a::len word) a = Some a"
proof -
  have "unat a < 2 ^ LENGTH('a)"
    by (rule unsigned_less)
  then show ?thesis
    by (simp add: checked_add_def)
qed

lemma unat_word_of_nat64:
  assumes "n < 2 ^ 64"
  shows "unat (word_of_nat n :: u64) = n"
proof -
  have "n < 2 ^ LENGTH(64)"
    using assms by simp
  then show ?thesis
    by (simp only: unsigned_of_nat take_bit_nat_eq_self of_nat_id)
qed

lemma word_of_nat64_inject:
  "\<lbrakk>m < 2 ^ 64; n < 2 ^ 64\<rbrakk> \<Longrightarrow> (word_of_nat m :: u64) = word_of_nat n \<longleftrightarrow> m = n"
  by (metis unat_word_of_nat64)

section \<open>Results: the \<open>Result\<close> type and the \<open>?\<close> operator\<close>

text \<open>
  \<open>Result<T, E>\<close> is the sum type, \<open>Inl\<close> the error. \<open>and_then m f\<close> is \<open>let x = m?; f x\<close>,
  \<open>ok_or\<close> turns an \<open>Option\<close> into a \<open>Result\<close>, and \<open>try_fold f s xs\<close> is the loop
  \<open>for x in xs { s = f(s, x)?; }\<close>.
\<close>

definition and_then :: "'e + 'a \<Rightarrow> ('a \<Rightarrow> 'e + 'b) \<Rightarrow> 'e + 'b" where
  "and_then m f = (case m of Inl e \<Rightarrow> Inl e | Inr a \<Rightarrow> f a)"

definition ok_or :: "'a option \<Rightarrow> 'e \<Rightarrow> 'e + 'a" where
  "ok_or m e = (case m of None \<Rightarrow> Inl e | Some a \<Rightarrow> Inr a)"

definition is_ok :: "'e + 'a \<Rightarrow> bool" where
  "is_ok m = (case m of Inl _ \<Rightarrow> False | Inr _ \<Rightarrow> True)"

fun try_fold :: "('s \<Rightarrow> 'x \<Rightarrow> 'e + 's) \<Rightarrow> 's \<Rightarrow> 'x list \<Rightarrow> 'e + 's" where
  "try_fold f s [] = Inr s"
| "try_fold f s (x # xs) = and_then (f s x) (\<lambda>s'. try_fold f s' xs)"

lemma and_then_simps [simp]:
  "and_then (Inl e) f = Inl e" "and_then (Inr a) f = f a"
  by (simp_all add: and_then_def)

lemma ok_or_simps [simp]: "ok_or None e = Inl e" "ok_or (Some a) e = Inr a"
  by (simp_all add: ok_or_def)

lemma is_ok_simps [simp]: "\<not> is_ok (Inl e)" "is_ok (Inr a)"
  by (simp_all add: is_ok_def)

lemma is_ok_iff: "is_ok m \<longleftrightarrow> (\<exists>a. m = Inr a)"
  by (cases m) simp_all

lemma and_then_Inr [result_simps]:
  "and_then m f = Inr b \<longleftrightarrow> (\<exists>a. m = Inr a \<and> f a = Inr b)"
  by (cases m) simp_all

lemma and_then_assoc: "and_then (and_then m f) g = and_then m (\<lambda>x. and_then (f x) g)"
  by (cases m) simp_all

lemma ok_or_Inr [result_simps]: "ok_or m e = Inr a \<longleftrightarrow> m = Some a"
  by (cases m) simp_all

lemma if_Inl_Inr [result_simps]: "(if c then Inl e else m) = Inr a \<longleftrightarrow> \<not> c \<and> m = Inr a"
  by simp

lemma unless_Inl_Inr [result_simps]: "(if c then m else Inl e) = Inr a \<longleftrightarrow> c \<and> m = Inr a"
  by simp

lemma is_ok_and_then [simp]: "is_ok (and_then m f) \<longleftrightarrow> (\<exists>a. m = Inr a \<and> is_ok (f a))"
  by (cases m) simp_all

lemma try_fold_append:
  "try_fold f s (xs @ ys) = and_then (try_fold f s xs) (\<lambda>s'. try_fold f s' ys)"
  by (induction xs arbitrary: s) (simp_all add: and_then_assoc)

lemma try_fold_invariant:
  assumes "try_fold f s xs = Inr s'" and "P s"
    and "\<And>s x s'. P s \<Longrightarrow> x \<in> set xs \<Longrightarrow> f s x = Inr s' \<Longrightarrow> P s'"
  shows "P s'"
  using assms
proof (induction xs arbitrary: s)
  case Nil
  then show ?case by simp
next
  case (Cons x xs)
  from Cons.prems(1) obtain t where t: "f s x = Inr t" "try_fold f t xs = Inr s'"
    by (auto simp: and_then_Inr)
  have step: "P t'" if "P s" "y \<in> set (x # xs)" "f s y = Inr t'" for s y t'
    using that by (rule Cons.prems(3))
  have "P t"
    by (rule step[OF Cons.prems(2) _ t(1)]) simp
  then show ?case
    by (rule Cons.IH[OF t(2)]) (blast intro: step list.set_intros(2))
qed

lemma try_fold_unit:
  "try_fold (\<lambda>_. f) () xs = Inr () \<longleftrightarrow> (\<forall>x\<in>set xs. f x = Inr ())"
proof (induction xs)
  case Nil
  show ?case by simp
next
  case (Cons x xs)
  then show ?case by (cases "f x") simp_all
qed

section \<open>Hash maps\<close>

text \<open>
  A \<open>HashMap\<close> is a finite map. \<open>entry_or k d m\<close> is the value \<open>m.entry(k).or_insert(d)\<close>
  refers to. \<open>fm_sum f m\<close> adds a quantity over all entries; its one law says what an update
  of a single key does to the sum.
\<close>

definition entry_or :: "'k \<Rightarrow> 'v \<Rightarrow> ('k, 'v) fmap \<Rightarrow> 'v" where
  "entry_or k d m = (case fmlookup m k of None \<Rightarrow> d | Some v \<Rightarrow> v)"

definition fm_sum :: "('v \<Rightarrow> nat) \<Rightarrow> ('k, 'v) fmap \<Rightarrow> nat" where
  "fm_sum f m = (\<Sum>k\<in>fset (fmdom m). f (the (fmlookup m k)))"

lemma fm_sum_empty [simp]: "fm_sum f fmempty = 0"
  by (simp add: fm_sum_def)

lemma fm_sum_remove:
  assumes "fmlookup m k = Some v"
  shows "fm_sum f m = f v + (\<Sum>j\<in>fset (fmdom m) - {k}. f (the (fmlookup m j)))"
proof -
  have "k \<in> fset (fmdom m)"
    using assms by (simp add: fmdomI)
  then show ?thesis
    unfolding fm_sum_def by (subst sum.remove[of _ k]) (simp_all add: assms)
qed

lemma fm_sum_upd:
  "fm_sum f (fmupd k v m) + (case fmlookup m k of None \<Rightarrow> 0 | Some w \<Rightarrow> f w) = fm_sum f m + f v"
proof -
  let ?rest = "\<Sum>j\<in>fset (fmdom m) - {k}. f (the (fmlookup m j))"
  have "fm_sum f (fmupd k v m) =
      f v + (\<Sum>j\<in>fset (fmdom (fmupd k v m)) - {k}. f (the (fmlookup (fmupd k v m) j)))"
    by (rule fm_sum_remove) simp
  also have "fset (fmdom (fmupd k v m)) - {k} = fset (fmdom m) - {k}"
    by auto
  also have "(\<Sum>j\<in>fset (fmdom m) - {k}. f (the (fmlookup (fmupd k v m) j))) = ?rest"
    by (rule sum.cong) auto
  finally have upd: "fm_sum f (fmupd k v m) = f v + ?rest" .
  show ?thesis
  proof (cases "fmlookup m k")
    case None
    then have "fset (fmdom m) - {k} = fset (fmdom m)"
      by (auto dest: fmdom_notI)
    with upd None show ?thesis
      by (simp add: fm_sum_def)
  next
    case (Some w)
    with upd fm_sum_remove[OF Some, of f] show ?thesis
      by simp
  qed
qed

lemma fm_sum_upd_eq:
  "fm_sum f (fmupd k v m) =
     fm_sum f m + f v - (case fmlookup m k of None \<Rightarrow> 0 | Some w \<Rightarrow> f w)"
  using fm_sum_upd[of f k v m] by linarith

lemma fm_sum_member: "fmlookup m k = Some v \<Longrightarrow> f v \<le> fm_sum f m"
  using fm_sum_remove[of m k v f] by simp

section \<open>Bytes\<close>

text \<open>
  A Rust \<open>String\<close> is its sequence of UTF-8 bytes; a \<open>char\<close> of HOL is one byte, so \<open>length\<close>
  is \<open>String::len\<close>. \<open>to_be_bytes\<close> lists the bytes of an integer, most significant first.
\<close>

definition byte_of :: "char \<Rightarrow> byte" where
  "byte_of c = word_of_nat (of_char c)"

definition as_bytes :: "string \<Rightarrow> byte list" where
  "as_bytes s = map byte_of s"

definition to_be_bytes :: "'a::len word \<Rightarrow> byte list" where
  "to_be_bytes w = map (\<lambda>i. ucast (drop_bit (8 * i) w)) (rev [0..<LENGTH('a) div 8])"

lemma byte_of_inj: "byte_of c = byte_of d \<longleftrightarrow> c = d"
proof
  assume "byte_of c = byte_of d"
  then have "unat (byte_of c) = unat (byte_of d)"
    by simp
  moreover have "unat (byte_of x) = (of_char x :: nat)" for x
    by (simp add: byte_of_def unat_of_nat take_bit_eq_mod)
  ultimately have "(of_char c :: nat) = of_char d"
    by simp
  then show "c = d"
    by simp
qed simp

lemma as_bytes_eq [simp]: "as_bytes s = as_bytes t \<longleftrightarrow> s = t"
  unfolding as_bytes_def
  by (rule inj_map_eq_map) (simp add: inj_def byte_of_inj)

lemma length_as_bytes [simp]: "length (as_bytes s) = length s"
  by (simp add: as_bytes_def)

lemma length_to_be_bytes [simp]: "length (to_be_bytes (w :: 'a::len word)) = LENGTH('a) div 8"
  by (simp add: to_be_bytes_def)

lemma to_be_bytes_inj:
  fixes v w :: "'a::len word"
  assumes "8 dvd LENGTH('a)" and "to_be_bytes v = to_be_bytes w"
  shows "v = w"
proof (rule bit_word_eqI)
  fix n
  assume n: "n < LENGTH('a)"
  let ?i = "n div 8"
  have i: "?i < LENGTH('a) div 8"
    using assms(1) n by (auto elim!: dvdE)
  have "\<forall>i\<in>set (rev [0..<LENGTH('a) div 8]).
      (ucast (drop_bit (8 * i) v) :: byte) = ucast (drop_bit (8 * i) w)"
    using assms(2) unfolding to_be_bytes_def map_eq_conv .
  then have "(ucast (drop_bit (8 * ?i) v) :: byte) = ucast (drop_bit (8 * ?i) w)"
    using i by simp
  then have "bit (ucast (drop_bit (8 * ?i) v) :: byte) (n mod 8)
      = bit (ucast (drop_bit (8 * ?i) w) :: byte) (n mod 8)"
    by simp
  then show "bit v n = bit w n"
    by (simp add: bit_ucast_iff bit_drop_bit_eq)
qed

lemma last_separator_unique:
  assumes "c \<notin> set ds" and "c \<notin> set es" and "xs @ c # ds = ys @ c # es"
  shows "xs = ys \<and> ds = es"
  using assms
proof (induction xs arbitrary: ys)
  case Nil
  then show ?case by (cases ys) auto
next
  case (Cons x xs)
  then show ?case by (cases ys) auto
qed

text \<open>
  Codes whose words can be read back from the front of a byte sequence: two messages that
  start with the code of an admissible value and are equal start with the same value.
  Concatenating such codes is injective, which is what a hashed or signed message needs.
\<close>

locale prefix_code =
  fixes enc :: "'a \<Rightarrow> byte list"
    and adm :: "'a \<Rightarrow> bool"
  assumes unique: "\<lbrakk>adm x; adm y; enc x @ r = enc y @ s\<rbrakk> \<Longrightarrow> x = y \<and> r = s"
begin

lemma decode_front:
  "\<lbrakk>adm x; adm y\<rbrakk> \<Longrightarrow> enc x @ r = enc y @ s \<longleftrightarrow> x = y \<and> r = s"
  using unique by blast

lemma injective: "\<lbrakk>adm x; adm y\<rbrakk> \<Longrightarrow> enc x = enc y \<longleftrightarrow> x = y"
  using unique[of x y "[]" "[]"] by auto

lemma decode_sequence:
  "\<lbrakk>\<forall>x\<in>set xs. adm x; \<forall>y\<in>set ys. adm y; length xs = length ys;
    concat (map enc xs) @ r = concat (map enc ys) @ s\<rbrakk> \<Longrightarrow> xs = ys \<and> r = s"
proof (induction xs arbitrary: ys)
  case Nil
  then show ?case by simp
next
  case (Cons x xs)
  then obtain y ys' where ys: "ys = y # ys'"
    by (cases ys) auto
  have adm: "adm x" "adm y"
    using Cons.prems(1,2) ys by simp_all
  have "enc x @ (concat (map enc xs) @ r) = enc y @ (concat (map enc ys') @ s)"
    using Cons.prems(4) ys by simp
  then have "x = y" and rest: "concat (map enc xs) @ r = concat (map enc ys') @ s"
    using unique[OF adm] by blast+
  moreover have "xs = ys' \<and> r = s"
    using Cons.IH[of ys'] Cons.prems ys rest by simp
  ultimately show ?case
    using ys by simp
qed

end

text \<open>A fixed-width integer is such a code.\<close>

lemma prefix_code_word:
  assumes "8 dvd LENGTH('a::len)"
  shows "prefix_code (to_be_bytes :: 'a word \<Rightarrow> byte list) (\<lambda>_. True)"
proof
  fix x y :: "'a word" and r s
  assume "to_be_bytes x @ r = to_be_bytes y @ s"
  then have "to_be_bytes x = to_be_bytes y \<and> r = s"
    by (simp add: append_eq_append_conv)
  then show "x = y \<and> r = s"
    using to_be_bytes_inj[OF assms] by blast
qed

interpretation be32: prefix_code "to_be_bytes :: u32 \<Rightarrow> byte list" "\<lambda>_. True"
  by (rule prefix_code_word) simp

interpretation be64: prefix_code "to_be_bytes :: u64 \<Rightarrow> byte list" "\<lambda>_. True"
  by (rule prefix_code_word) simp

interpretation be128: prefix_code "to_be_bytes :: u128 \<Rightarrow> byte list" "\<lambda>_. True"
  by (rule prefix_code_word) simp

end
