(* ===== verification/Errors.thy ===== *)
theory Errors
  imports Prelude
begin

text \<open>
  The values of \<open>Err\<close>. The sources return error texts (\<open>Result<_, String>\<close>); here each text
  is a constructor, and the numbers or names that \<open>format!\<close> puts into a text are its
  arguments. The texts are grouped by the module that makes them; \<open>error\<close> joins the groups,
  so that \<open>?\<close> passes an error on unchanged, as in the sources. \<open>Panic\<close> stands for a panic
  (\<open>expect\<close> on a value that is not there, a range out of a slice, a remainder by zero), which is
  not an error text: it unwinds out of the operation before anything is committed.
\<close>

datatype state_error =
    Account_not_found
  | Balance_overflow
  | Treasury_overflow
  | Burn_overflow
  | Coinbase_overflow
  | Sender_account_not_found
  | Transaction_overflow
  | Insufficient_balance
  | Invalid_nonce
  | Receiver_balance_overflow

datatype economy_error =
    Liquidity_reserve_overflow
  | Maximum_supply_exceeded

datatype consensus_error =
    Validator_not_found
  | Insufficient_stake

datatype mempool_error =
    Nonce_overflow
  | Transaction_cost_overflow
  | Mempool_total_cost_overflow

datatype wallet_error =
    Private_key_hex_invalid
  | Private_key_length_invalid

text \<open>Field formats, checked by \<open>Blockchain\<close> and again by \<open>Node\<close> with the same texts.\<close>

datatype format_error =
    Transaction_id_format
  | Coinbase_system_fields
  | Coinbase_recipient_format
  | Coinbase_signature_format
  | Transaction_address_format
  | Transaction_public_key_format
  | Transaction_signature_missing
  | Transaction_signature_format
  | Block_transaction_limit
  | Block_hash_format
  | Genesis_block_format
  | No_normal_transaction
  | Block_previous_hash_format
  | Block_validator_address_format
  | Block_validator_public_key_format
  | Block_validator_signature_missing
  | Block_validator_signature_format

datatype chain_error =
    Transaction_id_used string
  | Clock_before_epoch
  | Timestamp_bound_overflow
  | Timestamp_too_far_ahead
  | Mempool_is_empty
  | Blockchain_is_empty
  | New_block_timestamp_not_greater
  | Block_timestamp_not_greater
  | No_valid_transactions
  | Transaction_fee_invalid string
  | Validator_fee_overflow
  | Liquidity_fee_overflow
  | Treasury_fee_overflow
  | Burn_fee_overflow
  | Previous_hash_mismatch
  | Block_hash_invalid
  | Block_index_invalid

datatype transaction_check_error =
    Coinbase_not_for_mempool
  | System_sender
  | Reward_marker_not_zero
  | Transaction_id_invalid
  | Signature_missing
  | Public_key_invalid
  | Sender_address_mismatch
  | Signature_not_found
  | Signature_invalid
  | Amount_is_zero
  | Fee_is_invalid u64 u64
  | Total_amount_overflow
  | Insufficient_balance_for_transaction
  | Nonce_is_invalid u64 u64
  | Reserved_total_overflow
  | Insufficient_available_balance
  | Mempool_limit_or_duplicate

datatype block_check_error =
    Validator_not_selected
  | Selected_validator_different
  | Validator_public_key_invalid
  | Validator_address_mismatch
  | Validator_not_registered
  | Validator_signature_missing
  | Validator_signature_invalid
  | Transaction_list_empty
  | Inner_transaction_id_invalid
  | Second_coinbase
  | Coinbase_not_last
  | Coinbase_sender_not_system
  | Coinbase_public_key_invalid
  | Coinbase_signature_invalid
  | Coinbase_recipient_not_validator
  | Coinbase_fee_not_zero
  | Coinbase_nonce_not_zero
  | Coinbase_marker_not_index
  | Coinbase_amount_invalid
  | Coinbase_not_found

datatype sync_error =
    Incoming_chain_empty
  | Incoming_chain_shorter
  | Equal_length_chain_invalid
  | Equal_length_fork
  | Local_genesis_missing
  | Incoming_genesis_missing
  | Local_chain_empty
  | Genesis_index_invalid
  | Genesis_previous_hash_invalid
  | Genesis_hash_invalid
  | Genesis_mismatch
  | Candidate_genesis_missing
  | Candidate_genesis_mismatch
  | Candidate_chain_shorter
  | Candidate_chain_empty
  | Candidate_equal_length_fork
  | Remote_chain_length_differs
  | Chunk_block_limit
  | Chunk_total_zero
  | Chunk_start_exceeds_total
  | Chunk_index_overflow
  | Chunk_exceeds_total
  | Chunk_total_changed
  | Chunk_order_invalid
  | Chunk_block_index u64 u64
  | Chunk_unexpectedly_empty
  | Sync_buffer_length_invalid

datatype storage_error =
    Empty_chain_not_saved
  | Data_directory_not_created
  | Chain_not_serialized
  | Temp_file_not_created
  | Chain_not_written
  | Chain_not_synchronized
  | Chain_not_moved
  | Chain_file_not_opened
  | Chain_file_not_read
  | Chain_file_empty
  | Chain_file_invalid_json
  | Stored_chain_empty
  | Chain_file_not_deleted
  | Synchronized_chain_not_saved storage_error
  | Produced_chain_not_saved storage_error

datatype bootstrap_error =
    Fee_divisor_zero
  | Fee_percent_overflow
  | Fee_percent_invalid
  | Allocation_overflow
  | Allocation_not_supply
  | Genesis_validator_not_added
  | Allocation_duplicated

datatype transport_error =
    Connection_failed
  | Message_not_serialized
  | Empty_message_not_sent
  | Message_limit_exceeded
  | Length_exceeds_u32
  | Header_send_timed_out
  | Header_not_sent
  | Message_send_timed_out
  | Message_not_sent
  | Flush_timed_out
  | Message_not_flushed
  | Connection_closed
  | Header_read_timed_out
  | Header_not_read
  | Empty_message_rejected
  | Message_read_timed_out
  | Message_not_read
  | Message_json_invalid
  | Challenge_not_created
  | Ack_validation_failed
  | Peer_handshake_invalid

datatype runtime_error =
    Identity_not_in_consensus
  | Production_disabled_during_sync
  | Observer_cannot_produce
  | Local_blockchain_empty
  | Status_without_genesis
  | Remote_genesis_mismatch
  | Remote_total_changed
  | Remote_chain_empty
  | Remote_equal_length_fork
  | Remote_total_decreased
  | Remote_anchor_moved_backwards
  | Remote_anchor_missing
  | Unexpected_sync_message
  | Remote_start_differs
  | Remote_total_invalid
  | Remote_chunk_limit
  | Remote_chunk_overflow
  | Remote_chunk_length_inconsistent
  | Remote_block_order
  | Candidate_fell_behind
  | Local_tip_changed
  | Canonical_genesis_missing
  | Full_chain_without_genesis
  | Full_chain_genesis_invalid
  | Account_request_address_invalid
  | Unexpected_account_response
  | Unexpected_chunk_response
  | Unexpected_transaction_ack
  | Chunk_start_exceeds_chain
  | No_validator_selected
  | Block_timestamp_overflow
  | One_shot_listen_address

datatype submission_error =
    Recipient_address_invalid
  | Submitted_amount_zero
  | Submitted_cost_overflow
  | Submitted_cost_exceeds_balance
  | Signature_not_created
  | Key_address_not_derived
  | Own_verification_failed
  | Chain_file_not_found
  | Stored_chain_without_genesis
  | Canonical_chain_without_genesis
  | Stored_genesis_hash_invalid
  | Stored_genesis_not_canonical
  | Active_keystore_not_found
  | User_wallet_not_found
  | Account_address_invalid
  | Account_response_invalid
  | Account_response_unexpected
  | Ack_not_matching
  | Rejected_by_node string
  | Ack_invalid

text \<open>The encrypted key files share their error texts, up to the name of the file.\<close>

datatype keystore = Validator_keystore | Validator_candidate_keystore | User_wallet | Stored_wallets_file

datatype keystore_error =
    Keystore_exists
  | Keystore_access_unknown
  | Password_too_short
  | Kdf_parameters_invalid
  | Kdf_failed
  | Encryption_key_invalid
  | Key_not_encrypted
  | Payload_not_created
  | Envelope_not_created
  | Envelope_invalid
  | Version_not_supported
  | Encryption_not_supported
  | Salt_format_invalid
  | Salt_length_invalid
  | Nonce_format_invalid
  | Nonce_length_invalid
  | Ciphertext_format_invalid
  | Decryption_key_invalid
  | Password_or_file_wrong
  | Keystore_not_opened
  | Keystore_size_invalid
  | Keystore_metadata_not_read
  | Keystore_not_read
  | Keystore_empty
  | Keystore_directory_not_created
  | Keystore_temp_not_created
  | Keystore_not_written
  | Keystore_not_synchronized
  | Keystore_not_published
  | Payload_invalid
  | Identity_mismatch
  | Keystore_address_mismatch
  | Key_not_in_validator_set
  | Candidate_not_found

datatype panic =
    Liquidity_share_exceeds_u64
  | Treasury_share_exceeds_u64
  | Shares_exceed_fee
  | Slice_out_of_range
  | Remainder_by_zero

datatype error =
    State_error state_error
  | Economy_error economy_error
  | Consensus_error consensus_error
  | Mempool_error mempool_error
  | Wallet_error wallet_error
  | Format_error format_error
  | Chain_error chain_error
  | Transaction_check transaction_check_error
  | Block_check block_check_error
  | Sync_error sync_error
  | Storage_error storage_error
  | Bootstrap_error bootstrap_error
  | Transport_error transport_error
  | Runtime_error runtime_error
  | Submission_error submission_error
  | Keystore_error keystore keystore_error
  | Panic panic

type_synonym 'a result = "error + 'a"

section \<open>Operators that panic\<close>

text \<open>\<open>xs[start..end]\<close>\<close>

definition slice_range :: "'a list \<Rightarrow> nat \<Rightarrow> nat \<Rightarrow> 'a list result" where
  "slice_range xs start end_index =
     (if start > end_index \<or> end_index > length xs then Inl (Panic Slice_out_of_range)
      else Inr (take (end_index - start) (drop start xs)))"

text \<open>\<open>a % b\<close>\<close>

definition remainder :: "u64 \<Rightarrow> u64 \<Rightarrow> u64 result" where
  "remainder a b = (if b = 0 then Inl (Panic Remainder_by_zero) else Inr (a mod b))"

lemma slice_range_fits [simp]:
  "\<lbrakk>start \<le> end_index; end_index \<le> length xs\<rbrakk> \<Longrightarrow>
     slice_range xs start end_index = Inr (take (end_index - start) (drop start xs))"
  by (simp add: slice_range_def)

lemma remainder_nonzero [simp]: "b \<noteq> 0 \<Longrightarrow> remainder a b = Inr (a mod b)"
  by (simp add: remainder_def)

end
