(* ===== verification/Protocol.thy ===== *)
theory Protocol
  imports Errors
begin

text \<open>
  The constants of \<open>src/protocol.rs\<close> that consensus and the network depend on, and its
  format check \<open>is_fixed_hex\<close>. Sizes of collections (\<open>usize\<close>) are natural numbers, amounts
  and times (\<open>u64\<close>) 64-bit words.
\<close>

definition MAX_FUTURE_DRIFT_SECONDS :: u64 where "MAX_FUTURE_DRIFT_SECONDS = 120"
definition MAX_MEMPOOL_TRANSACTIONS :: nat where "MAX_MEMPOOL_TRANSACTIONS = 10000"
definition MAX_NETWORK_PEERS :: nat where "MAX_NETWORK_PEERS = 128"
definition MAX_NETWORK_MESSAGE_HISTORY :: nat where "MAX_NETWORK_MESSAGE_HISTORY = 10000"
definition MAX_NETWORK_INBOX_MESSAGES :: nat where "MAX_NETWORK_INBOX_MESSAGES = 10000"
definition MAX_PEER_ADDRESS_LENGTH :: nat where "MAX_PEER_ADDRESS_LENGTH = 256"
definition NETWORK_ID :: string where "NETWORK_ID = ''kybernetes-mainnet-v2''"
definition NETWORK_PROTOCOL_VERSION :: u32 where "NETWORK_PROTOCOL_VERSION = 2"
definition MAX_HANDSHAKE_AGE_SECONDS :: u64 where "MAX_HANDSHAKE_AGE_SECONDS = 120"
definition MAX_NETWORK_MESSAGE_BYTES :: nat where "MAX_NETWORK_MESSAGE_BYTES = 8 * 1024 * 1024"
definition MAX_SYNC_BLOCKS_PER_MESSAGE :: nat where "MAX_SYNC_BLOCKS_PER_MESSAGE = 256"

definition MAX_NORMAL_TRANSACTIONS_PER_BLOCK :: nat where
  "MAX_NORMAL_TRANSACTIONS_PER_BLOCK = 1000"

definition MAX_TOTAL_TRANSACTIONS_PER_BLOCK :: nat where
  "MAX_TOTAL_TRANSACTIONS_PER_BLOCK = MAX_NORMAL_TRANSACTIONS_PER_BLOCK + 1"

definition HASH_HEX_LENGTH :: nat where "HASH_HEX_LENGTH = 64"
definition ADDRESS_HEX_LENGTH :: nat where "ADDRESS_HEX_LENGTH = 64"
definition PUBLIC_KEY_HEX_LENGTH :: nat where "PUBLIC_KEY_HEX_LENGTH = 64"
definition SIGNATURE_HEX_LENGTH :: nat where "SIGNATURE_HEX_LENGTH = 128"

definition SYSTEM_ADDRESS :: string where "SYSTEM_ADDRESS = ''SYSTEM''"
definition SYSTEM_PUBLIC_KEY :: string where "SYSTEM_PUBLIC_KEY = ''SYSTEM''"
definition SYSTEM_REWARD_SIGNATURE :: string where "SYSTEM_REWARD_SIGNATURE = ''SYSTEM_REWARD''"

definition GENESIS_PREVIOUS_HASH :: string where "GENESIS_PREVIOUS_HASH = ''0''"
definition GENESIS_VALIDATOR :: string where "GENESIS_VALIDATOR = ''GENESIS''"
definition GENESIS_TIMESTAMP :: u64 where "GENESIS_TIMESTAMP = 1754690000"
definition GENESIS_SUPPLY_MICRO_KBN :: u64 where "GENESIS_SUPPLY_MICRO_KBN = 1000000000"

definition GENESIS_VALIDATOR_A_ADDRESS :: string where
  "GENESIS_VALIDATOR_A_ADDRESS =
     ''66e0a6e68b5d5f2f01c42d4f5bcc32ff475917d29a84891a564281d06dac0194''"

definition GENESIS_VALIDATOR_A_STAKE :: u64 where "GENESIS_VALIDATOR_A_STAKE = 700"

definition GENESIS_VALIDATOR_A_ALLOCATION_MICRO_KBN :: u64 where
  "GENESIS_VALIDATOR_A_ALLOCATION_MICRO_KBN = GENESIS_SUPPLY_MICRO_KBN"

definition GENESIS_VALIDATOR_B_ADDRESS :: string where
  "GENESIS_VALIDATOR_B_ADDRESS =
     ''fe36b693330e3e48ae0ed1a78f92e38a99eb228bc3d3ab617ac70d75b28f5e78''"

definition GENESIS_VALIDATOR_B_STAKE :: u64 where "GENESIS_VALIDATOR_B_STAKE = 300"

definition GENESIS_VALIDATOR_B_ALLOCATION_MICRO_KBN :: u64 where
  "GENESIS_VALIDATOR_B_ALLOCATION_MICRO_KBN = 0"

definition MAX_SUPPLY_MICRO_KBN :: u64 where "MAX_SUPPLY_MICRO_KBN = 100000000 * 1000000"
definition BLOCK_REWARD_MICRO_KBN :: u64 where "BLOCK_REWARD_MICRO_KBN = 10 * 1000000"
definition MIN_TRANSACTION_FEE_MICRO_KBN :: u64 where "MIN_TRANSACTION_FEE_MICRO_KBN = 10"
definition TRANSACTION_FEE_DIVISOR :: u64 where "TRANSACTION_FEE_DIVISOR = 100000"
definition VALIDATOR_FEE_PERCENT :: u64 where "VALIDATOR_FEE_PERCENT = 15"
definition LIQUIDITY_RESERVE_FEE_PERCENT :: u64 where "LIQUIDITY_RESERVE_FEE_PERCENT = 80"
definition TREASURY_FEE_PERCENT :: u64 where "TREASURY_FEE_PERCENT = 5"
definition BURN_FEE_PERCENT :: u64 where "BURN_FEE_PERCENT = 0"

text \<open>The lengths of hexadecimal fields and the special names, for the format lemmas.\<close>

lemmas hex_lengths =
  HASH_HEX_LENGTH_def ADDRESS_HEX_LENGTH_def PUBLIC_KEY_HEX_LENGTH_def SIGNATURE_HEX_LENGTH_def

lemmas special_names =
  SYSTEM_ADDRESS_def SYSTEM_PUBLIC_KEY_def SYSTEM_REWARD_SIGNATURE_def
  GENESIS_PREVIOUS_HASH_def GENESIS_VALIDATOR_def

section \<open>\<open>is_fixed_hex\<close>\<close>

definition is_ascii_hexdigit :: "byte \<Rightarrow> bool" where
  "is_ascii_hexdigit b \<longleftrightarrow>
     48 \<le> b \<and> b \<le> 57 \<or> 97 \<le> b \<and> b \<le> 102 \<or> 65 \<le> b \<and> b \<le> 70"

definition is_fixed_hex :: "string \<Rightarrow> nat \<Rightarrow> bool" where
  "is_fixed_hex value expected_length \<longleftrightarrow>
     length value = expected_length \<and> list_all is_ascii_hexdigit (as_bytes value)"

lemma is_fixed_hex_length: "is_fixed_hex s n \<Longrightarrow> length s = n"
  by (simp add: is_fixed_hex_def)

lemma system_address_not_hex [simp]: "\<not> is_fixed_hex SYSTEM_ADDRESS ADDRESS_HEX_LENGTH"
  by (simp add: is_fixed_hex_def special_names hex_lengths)

lemma genesis_previous_hash_not_hex [simp]:
  "\<not> is_fixed_hex GENESIS_PREVIOUS_HASH HASH_HEX_LENGTH"
  by (simp add: is_fixed_hex_def special_names hex_lengths)

end
