(* ===== verification/Crypto.thy ===== *)
theory Crypto
  imports Protocol
begin

text \<open>
  The third-party code the sources call for hashing, hexadecimal text and signatures
  (crates \<open>sha2\<close>, \<open>hex\<close>, \<open>ed25519-dalek\<close>). None of it is in the repository, so it is a
  parameter of the model: a record of functions that every definition using it takes as
  its first argument. The predicates below state the documented behaviour that some
  theorems rely on; \<open>toy_crypto\<close> is a concrete instance that satisfies all of them.
\<close>

record crypto =
  sha256 :: "byte list \<Rightarrow> byte list"            \<comment> \<open>\<open>Sha256::new\<close>, \<open>update\<close>, \<open>finalize\<close>\<close>
  fmt_lower_hex :: "byte list \<Rightarrow> string"       \<comment> \<open>\<open>format!("{:x}", digest)\<close>\<close>
  hex_encode :: "byte list \<Rightarrow> string"          \<comment> \<open>\<open>hex::encode\<close>\<close>
  hex_decode :: "string \<Rightarrow> byte list option"   \<comment> \<open>\<open>hex::decode\<close>\<close>
  ed_public :: "byte list \<Rightarrow> byte list"        \<comment> \<open>\<open>SigningKey::verifying_key\<close>\<close>
  ed_key_valid :: "byte list \<Rightarrow> bool"          \<comment> \<open>\<open>VerifyingKey::from_bytes\<close> is \<open>Ok\<close>\<close>
  ed_sign :: "byte list \<Rightarrow> byte list \<Rightarrow> byte list"            \<comment> \<open>\<open>SigningKey::sign\<close>\<close>
  ed_verify :: "byte list \<Rightarrow> byte list \<Rightarrow> byte list \<Rightarrow> bool"  \<comment> \<open>\<open>VerifyingKey::verify\<close>\<close>

definition lower_hex_digit :: "char \<Rightarrow> bool" where
  "lower_hex_digit c \<longleftrightarrow> c \<in> set ''0123456789abcdef''"

definition lower_hex_of :: "(byte list \<Rightarrow> string) \<Rightarrow> bool" where
  "lower_hex_of enc \<longleftrightarrow>
     (\<forall>bs. length (enc bs) = 2 * length bs \<and> list_all lower_hex_digit (enc bs))"

definition sha256_spec :: "crypto \<Rightarrow> bool" where
  "sha256_spec cr \<longleftrightarrow> (\<forall>m. length (sha256 cr m) = 32) \<and>
     lower_hex_of (fmt_lower_hex cr) \<and>
     (\<forall>d e. fmt_lower_hex cr d = fmt_lower_hex cr e \<longrightarrow> d = e)"

definition hex_spec :: "crypto \<Rightarrow> bool" where
  "hex_spec cr \<longleftrightarrow> lower_hex_of (hex_encode cr) \<and> (\<forall>bs. hex_decode cr (hex_encode cr bs) = Some bs)"

definition ed25519_spec :: "crypto \<Rightarrow> bool" where
  "ed25519_spec cr \<longleftrightarrow>
     (\<forall>sk. length sk = 32 \<longrightarrow> length (ed_public cr sk) = 32 \<and> ed_key_valid cr (ed_public cr sk)) \<and>
     (\<forall>sk m. length sk = 32 \<longrightarrow>
        length (ed_sign cr sk m) = 64 \<and> ed_verify cr (ed_public cr sk) m (ed_sign cr sk m))"

definition crypto_spec :: "crypto \<Rightarrow> bool" where
  "crypto_spec cr \<longleftrightarrow> sha256_spec cr \<and> hex_spec cr \<and> ed25519_spec cr"

lemma ascii_hexdigit_lower: "lower_hex_digit c \<Longrightarrow> is_ascii_hexdigit (byte_of c)"
  by (auto simp: lower_hex_digit_def is_ascii_hexdigit_def byte_of_def)

lemma lower_hex_of_fixed:
  assumes "lower_hex_of enc" and "n = 2 * length bs"
  shows "is_fixed_hex (enc bs) n"
  using assms by (auto simp: lower_hex_of_def is_fixed_hex_def as_bytes_def list_all_iff ascii_hexdigit_lower)

text \<open>Two different inputs with one digest.\<close>

definition sha256_collision :: "crypto \<Rightarrow> byte list \<Rightarrow> byte list \<Rightarrow> bool" where
  "sha256_collision cr m m' \<longleftrightarrow> m \<noteq> m' \<and> sha256 cr m = sha256 cr m'"

section \<open>A concrete instance\<close>

text \<open>
  Far from secure, but with the documented shape: a digest is 31 zero bytes and a checksum,
  a public key is its secret key, a signature is 63 zero bytes and a checksum of key and
  message. Hexadecimal text is the real thing.
\<close>

definition hex_char :: "byte \<Rightarrow> char" where
  "hex_char n = ''0123456789abcdef'' ! unat n"

definition toy_hex_encode :: "byte list \<Rightarrow> string" where
  "toy_hex_encode bs = concat (map (\<lambda>b. [hex_char (b div 16), hex_char (b mod 16)]) bs)"

definition hex_value :: "char \<Rightarrow> byte option" where
  "hex_value c = map_of (zip ''0123456789abcdef'' (map word_of_nat [0..<16])) c"

fun toy_hex_decode :: "string \<Rightarrow> byte list option" where
  "toy_hex_decode [] = Some []"
| "toy_hex_decode [c] = None"
| "toy_hex_decode (c # d # s) =
     (case (hex_value c, hex_value d, toy_hex_decode s) of
        (Some x, Some y, Some bs) \<Rightarrow> Some ((16 * x + y) # bs)
      | _ \<Rightarrow> None)"

definition checksum :: "byte list \<Rightarrow> byte" where
  "checksum bs = foldr (\<lambda>b s. b + 3 * s) bs 0"

definition toy_crypto :: crypto where
  "toy_crypto = \<lparr>
     sha256 = (\<lambda>m. replicate 31 0 @ [checksum m]),
     fmt_lower_hex = toy_hex_encode,
     hex_encode = toy_hex_encode,
     hex_decode = toy_hex_decode,
     ed_public = (\<lambda>sk. sk),
     ed_key_valid = (\<lambda>pk. length pk = 32),
     ed_sign = (\<lambda>sk m. replicate 63 0 @ [checksum (sk @ m)]),
     ed_verify = (\<lambda>pk m s. s = replicate 63 0 @ [checksum (pk @ m)])\<rparr>"

lemma hex_nibble_table:
  "list_all (\<lambda>n. lower_hex_digit (hex_char (word_of_nat n)) \<and>
     hex_value (hex_char (word_of_nat n)) = Some (word_of_nat n)) [0..<16]"
  by code_simp

lemma hex_nibble:
  assumes "unat (b :: byte) < 16"
  shows "lower_hex_digit (hex_char b) \<and> hex_value (hex_char b) = Some b"
proof -
  have "unat b \<in> set [0..<16]"
    using assms by simp
  with hex_nibble_table have "lower_hex_digit (hex_char (word_of_nat (unat b))) \<and>
      hex_value (hex_char (word_of_nat (unat b))) = Some (word_of_nat (unat b))"
    unfolding list_all_iff by (rule bspec)
  then show ?thesis
    by simp
qed

lemma byte_nibbles: "unat ((b :: byte) div 16) < 16" "unat (b mod 16) < 16"
  "16 * (b div 16) + b mod 16 = b"
proof -
  have "unat b < 256"
    by (rule order_less_le_trans[OF unsigned_less]) simp
  then show "unat (b div 16) < 16" and "unat (b mod 16) < 16"
    by (simp_all add: unat_div unat_mod less_mult_imp_div_less)
  show "16 * (b div 16) + b mod 16 = b"
    by (metis mult.commute word_mod_div_equality add.commute)
qed

lemma toy_hex_roundtrip: "toy_hex_decode (toy_hex_encode bs) = Some bs"
  by (induction bs) (simp_all add: toy_hex_encode_def hex_nibble byte_nibbles)

lemma toy_hex_lower: "lower_hex_of toy_hex_encode"
  unfolding lower_hex_of_def
proof
  fix bs
  show "length (toy_hex_encode bs) = 2 * length bs \<and> list_all lower_hex_digit (toy_hex_encode bs)"
    by (induction bs) (simp_all add: toy_hex_encode_def hex_nibble byte_nibbles)
qed

lemma toy_hex_inj: "toy_hex_encode a = toy_hex_encode b \<Longrightarrow> a = b"
  by (metis option.inject toy_hex_roundtrip)

lemma toy_sha256_spec: "sha256_spec toy_crypto"
  unfolding sha256_spec_def toy_crypto_def crypto.select_convs
  by (intro conjI allI impI toy_hex_lower toy_hex_inj) simp

lemma toy_hex_spec: "hex_spec toy_crypto"
  unfolding hex_spec_def toy_crypto_def crypto.select_convs
  by (intro conjI allI toy_hex_lower toy_hex_roundtrip)

lemma toy_ed25519_spec: "ed25519_spec toy_crypto"
  unfolding ed25519_spec_def toy_crypto_def crypto.select_convs by simp

lemma toy_crypto_ok: "crypto_spec toy_crypto"
  unfolding crypto_spec_def by (intro conjI toy_sha256_spec toy_hex_spec toy_ed25519_spec)

end
