(* ===== verification/Wallet.thy ===== *)
theory Wallet
  imports Crypto
begin

text \<open>
  \<open>src/wallet/mod.rs\<close>: key pairs, addresses, signatures and the two signed texts of the
  peer handshake. An ed25519 key is the sequence of its 32 bytes. The lemmas show that what a
  wallet signs verifies, that its address is the one derived from its public key, and that
  the handshake texts determine the fields that are signed.
\<close>

section \<open>Wallets\<close>

record wallet =
  w_signing_key :: "byte list"
  w_verifying_key :: "byte list"
  w_address :: string

definition address_from_public_key_bytes :: "crypto \<Rightarrow> byte list \<Rightarrow> string" where
  "address_from_public_key_bytes cr public_key_bytes = hex_encode cr (sha256 cr public_key_bytes)"

definition from_signing_key :: "crypto \<Rightarrow> byte list \<Rightarrow> wallet" where
  "from_signing_key cr signing_key =
     (let verifying_key = ed_public cr signing_key;
          address = address_from_public_key_bytes cr verifying_key
      in \<lparr>w_signing_key = signing_key, w_verifying_key = verifying_key, w_address = address\<rparr>)"

lemma from_signing_key_sel [simp]:
  "w_signing_key (from_signing_key cr sk) = sk"
  "w_verifying_key (from_signing_key cr sk) = ed_public cr sk"
  "w_address (from_signing_key cr sk) = address_from_public_key_bytes cr (ed_public cr sk)"
  by (simp_all add: from_signing_key_def Let_def)

text \<open>\<open>Wallet::new\<close>; \<open>generated\<close> is the key the operating system's random source yields.\<close>

definition wallet_new :: "crypto \<Rightarrow> byte list \<Rightarrow> wallet" where
  "wallet_new cr generated = from_signing_key cr generated"

definition from_private_key_hex :: "crypto \<Rightarrow> string \<Rightarrow> wallet result" where
  "from_private_key_hex cr private_key_hex =
     (case hex_decode cr private_key_hex of
        None \<Rightarrow> Inl (Wallet_error Private_key_hex_invalid)
      | Some private_key_bytes \<Rightarrow>
          if length private_key_bytes \<noteq> 32
          then Inl (Wallet_error Private_key_length_invalid)
          else Inr (from_signing_key cr private_key_bytes))"

definition private_key_hex :: "crypto \<Rightarrow> wallet \<Rightarrow> string" where
  "private_key_hex cr w = hex_encode cr (w_signing_key w)"

definition node_id :: "wallet \<Rightarrow> string" where
  "node_id w = w_address w"

definition public_key_hex :: "crypto \<Rightarrow> wallet \<Rightarrow> string" where
  "public_key_hex cr w = hex_encode cr (w_verifying_key w)"

definition wallet_sign :: "crypto \<Rightarrow> wallet \<Rightarrow> byte list \<Rightarrow> string" where
  "wallet_sign cr w msg = hex_encode cr (ed_sign cr (w_signing_key w) msg)"

definition address_from_public_key :: "crypto \<Rightarrow> string \<Rightarrow> string option" where
  "address_from_public_key cr public_key =
     (case hex_decode cr public_key of
        None \<Rightarrow> None
      | Some public_key_bytes \<Rightarrow>
          if length public_key_bytes \<noteq> 32 then None
          else if \<not> ed_key_valid cr public_key_bytes then None
          else Some (address_from_public_key_bytes cr public_key_bytes))"

definition wallet_verify :: "crypto \<Rightarrow> string \<Rightarrow> byte list \<Rightarrow> string \<Rightarrow> bool" where
  "wallet_verify cr public_key msg signature =
     (case hex_decode cr public_key of
        None \<Rightarrow> False
      | Some public_key_bytes \<Rightarrow>
     (case hex_decode cr signature of
        None \<Rightarrow> False
      | Some signature_bytes \<Rightarrow>
          if length public_key_bytes \<noteq> 32 then False
          else if length signature_bytes \<noteq> 64 then False
          else if \<not> ed_key_valid cr public_key_bytes then False
          else ed_verify cr public_key_bytes msg signature_bytes))"

section \<open>Handshake texts\<close>

text \<open>The \<open>Display\<close> form of an unsigned integer and of a truth value.\<close>

definition digit_char :: "nat \<Rightarrow> char" where
  "digit_char n = ''0123456789'' ! n"

fun decimal :: "nat \<Rightarrow> string" where
  "decimal n = (if n < 10 then [digit_char n] else decimal (n div 10) @ [digit_char (n mod 10)])"

declare decimal.simps [simp del]

definition display_bool :: "bool \<Rightarrow> string" where
  "display_bool b = (if b then ''true'' else ''false'')"

definition newline :: char where
  "newline = CHR 0x0A"

definition node_handshake_message ::
  "string \<Rightarrow> string \<Rightarrow> string \<Rightarrow> string \<Rightarrow> u32 \<Rightarrow> u64 \<Rightarrow> string \<Rightarrow> byte list" where
  "node_handshake_message nid public_key listen_address network_id protocol_version timestamp challenge =
     as_bytes (
       ''AION_P2P_HANDSHAKE_V1'' @ [newline] @
       ''node_id='' @ nid @ [newline] @
       ''public_key='' @ public_key @ [newline] @
       ''listen_address='' @ listen_address @ [newline] @
       ''network_id='' @ network_id @ [newline] @
       ''protocol_version='' @ decimal (unat protocol_version) @ [newline] @
       ''timestamp='' @ decimal (unat timestamp) @ [newline] @
       ''challenge='' @ challenge)"

definition sign_node_handshake ::
  "crypto \<Rightarrow> wallet \<Rightarrow> string \<Rightarrow> string \<Rightarrow> u32 \<Rightarrow> u64 \<Rightarrow> string \<Rightarrow> string" where
  "sign_node_handshake cr w listen_address network_id protocol_version timestamp challenge =
     wallet_sign cr w
       (node_handshake_message (node_id w) (public_key_hex cr w) listen_address network_id
          protocol_version timestamp challenge)"

definition verify_node_handshake ::
  "crypto \<Rightarrow> string \<Rightarrow> string \<Rightarrow> string \<Rightarrow> string \<Rightarrow> u32 \<Rightarrow> u64 \<Rightarrow> string \<Rightarrow> string \<Rightarrow> bool" where
  "verify_node_handshake cr nid public_key listen_address network_id protocol_version timestamp
       challenge signature =
     (case address_from_public_key cr public_key of
        None \<Rightarrow> False
      | Some derived_node_id \<Rightarrow>
          if derived_node_id \<noteq> nid then False
          else wallet_verify cr public_key
                 (node_handshake_message nid public_key listen_address network_id
                    protocol_version timestamp challenge)
                 signature)"

definition node_handshake_ack_message ::
  "string \<Rightarrow> string \<Rightarrow> string \<Rightarrow> u32 \<Rightarrow> u64 \<Rightarrow> string \<Rightarrow> bool \<Rightarrow> byte list" where
  "node_handshake_ack_message nid public_key network_id protocol_version timestamp challenge accepted =
     as_bytes (
       ''AION_P2P_HANDSHAKE_ACK_V1'' @ [newline] @
       ''node_id='' @ nid @ [newline] @
       ''public_key='' @ public_key @ [newline] @
       ''network_id='' @ network_id @ [newline] @
       ''protocol_version='' @ decimal (unat protocol_version) @ [newline] @
       ''timestamp='' @ decimal (unat timestamp) @ [newline] @
       ''challenge='' @ challenge @ [newline] @
       ''accepted='' @ display_bool accepted)"

definition sign_node_handshake_ack ::
  "crypto \<Rightarrow> wallet \<Rightarrow> string \<Rightarrow> u32 \<Rightarrow> u64 \<Rightarrow> string \<Rightarrow> bool \<Rightarrow> string" where
  "sign_node_handshake_ack cr w network_id protocol_version timestamp challenge accepted =
     wallet_sign cr w
       (node_handshake_ack_message (node_id w) (public_key_hex cr w) network_id
          protocol_version timestamp challenge accepted)"

definition verify_node_handshake_ack ::
  "crypto \<Rightarrow> string \<Rightarrow> string \<Rightarrow> string \<Rightarrow> u32 \<Rightarrow> u64 \<Rightarrow> string \<Rightarrow> bool \<Rightarrow> string \<Rightarrow> bool" where
  "verify_node_handshake_ack cr nid public_key network_id protocol_version timestamp challenge
       accepted signature =
     (case address_from_public_key cr public_key of
        None \<Rightarrow> False
      | Some derived_node_id \<Rightarrow>
          if derived_node_id \<noteq> nid then False
          else wallet_verify cr public_key
                 (node_handshake_ack_message nid public_key network_id
                    protocol_version timestamp challenge accepted)
                 signature)"

section \<open>Wallets made by the code\<close>

text \<open>
  The fields of \<open>Wallet\<close> are private and \<open>from_signing_key\<close> is the only constructor, so
  every wallet of a running program satisfies \<open>wallet_wf\<close>.
\<close>

definition wallet_wf :: "crypto \<Rightarrow> wallet \<Rightarrow> bool" where
  "wallet_wf cr w \<longleftrightarrow> length (w_signing_key w) = 32 \<and> w = from_signing_key cr (w_signing_key w)"

lemma wallet_new_wf: "length seed = 32 \<Longrightarrow> wallet_wf cr (wallet_new cr seed)"
  by (simp add: wallet_wf_def wallet_new_def)

lemma from_private_key_hex_wf: "from_private_key_hex cr s = Inr w \<Longrightarrow> wallet_wf cr w"
  by (auto simp: from_private_key_hex_def wallet_wf_def
      split: option.splits if_splits)

lemma wallet_wf_fields:
  assumes "wallet_wf cr w"
  shows "w_verifying_key w = ed_public cr (w_signing_key w)"
    and "w_address w = address_from_public_key_bytes cr (w_verifying_key w)"
proof -
  have w: "w = from_signing_key cr (w_signing_key w)"
    using assms by (simp add: wallet_wf_def)
  show "w_verifying_key w = ed_public cr (w_signing_key w)"
    by (subst w) (simp only: from_signing_key_sel)
  show "w_address w = address_from_public_key_bytes cr (w_verifying_key w)"
    by (subst (1 2) w) (simp only: from_signing_key_sel)
qed

lemma private_key_roundtrip:
  assumes "hex_spec cr" and "wallet_wf cr w"
  shows "from_private_key_hex cr (private_key_hex cr w) = Inr w"
  using assms by (auto simp: hex_spec_def wallet_wf_def from_private_key_hex_def private_key_hex_def)

lemma wallet_address_derived:
  assumes "crypto_spec cr" and "wallet_wf cr w"
  shows "address_from_public_key cr (public_key_hex cr w) = Some (w_address w)"
proof -
  have "hex_decode cr (public_key_hex cr w) = Some (w_verifying_key w)"
    using assms(1) by (simp add: crypto_spec_def hex_spec_def public_key_hex_def)
  moreover have "length (w_verifying_key w) = 32 \<and> ed_key_valid cr (w_verifying_key w)"
    using assms wallet_wf_fields(1)[OF assms(2)]
    by (simp add: crypto_spec_def ed25519_spec_def wallet_wf_def)
  ultimately show ?thesis
    using wallet_wf_fields(2)[OF assms(2)] by (simp add: address_from_public_key_def)
qed

lemma wallet_signature_verifies:
  assumes "crypto_spec cr" and "wallet_wf cr w"
  shows "wallet_verify cr (public_key_hex cr w) msg (wallet_sign cr w msg)"
proof -
  have keys: "hex_decode cr (public_key_hex cr w) = Some (ed_public cr (w_signing_key w))"
    and sig: "hex_decode cr (wallet_sign cr w msg) = Some (ed_sign cr (w_signing_key w) msg)"
    using assms(1) wallet_wf_fields(1)[OF assms(2)]
    by (simp_all add: crypto_spec_def hex_spec_def public_key_hex_def wallet_sign_def)
  have "length (w_signing_key w) = 32"
    using assms(2) by (simp add: wallet_wf_def)
  then show ?thesis
    using assms(1) by (simp add: wallet_verify_def keys sig crypto_spec_def ed25519_spec_def)
qed

lemma wallet_texts_fixed_hex:
  assumes "crypto_spec cr" and "wallet_wf cr w"
  shows "is_fixed_hex (w_address w) ADDRESS_HEX_LENGTH"
    and "is_fixed_hex (public_key_hex cr w) PUBLIC_KEY_HEX_LENGTH"
    and "is_fixed_hex (wallet_sign cr w msg) SIGNATURE_HEX_LENGTH"
proof -
  have enc: "lower_hex_of (hex_encode cr)" and sha: "length (sha256 cr m) = 32" for m
    using assms(1) by (simp_all add: crypto_spec_def sha256_spec_def hex_spec_def)
  have "length (w_signing_key w) = 32"
    using assms(2) by (simp add: wallet_wf_def)
  then have "length (w_verifying_key w) = 32" "length (ed_sign cr (w_signing_key w) msg) = 64"
    using assms(1) wallet_wf_fields(1)[OF assms(2)] by (simp_all add: crypto_spec_def ed25519_spec_def)
  then show "is_fixed_hex (w_address w) ADDRESS_HEX_LENGTH"
    and "is_fixed_hex (public_key_hex cr w) PUBLIC_KEY_HEX_LENGTH"
    and "is_fixed_hex (wallet_sign cr w msg) SIGNATURE_HEX_LENGTH"
    using enc sha wallet_wf_fields(2)[OF assms(2)]
    by (simp_all add: lower_hex_of_fixed address_from_public_key_bytes_def public_key_hex_def
        wallet_sign_def hex_lengths)
qed

text \<open>Every address that the code derives from a public key is lower-case hexadecimal.\<close>

lemma derived_address_lower_case:
  assumes "sha256_spec cr" and "hex_spec cr" and "address_from_public_key cr pk = Some a"
  shows "length a = 64" and "list_all lower_hex_digit a"
proof -
  obtain bs where "a = hex_encode cr (sha256 cr bs)"
    using assms(3) by (auto simp: address_from_public_key_def address_from_public_key_bytes_def
        split: option.splits if_splits)
  then show "length a = 64" and "list_all lower_hex_digit a"
    using assms(1,2) by (simp_all add: sha256_spec_def hex_spec_def lower_hex_of_def)
qed

section \<open>What a handshake text determines\<close>

text \<open>
  A handshake text is built from free-form fields. Once the fixed-length fields have their
  lengths and the network name and version are the expected ones, which the receiver checks,
  equal texts have equal fields: a signature over the text binds all of them, the listen
  address included, whatever characters it holds.
\<close>

definition digit_value :: "char \<Rightarrow> nat" where
  "digit_value c = of_char c - 48"

lemma digit_value_digit_char: "list_all (\<lambda>n. digit_value (digit_char n) = n) [0..<10]"
  by code_simp

lemma decimal_read: "foldl (\<lambda>a c. 10 * a + digit_value c) 0 (decimal n) = n"
proof (induction n rule: decimal.induct)
  case (1 n)
  have digit: "digit_value (digit_char d) = d" if "d < 10" for d
    using digit_value_digit_char that by (simp add: list_all_iff)
  show ?case
  proof (cases "n < 10")
    case True
    then show ?thesis
      by (subst decimal.simps) (simp add: digit)
  next
    case False
    then have "foldl (\<lambda>a c. 10 * a + digit_value c) 0 (decimal (n div 10)) = n div 10"
      by (rule "1.IH")
    with False show ?thesis
      by (subst decimal.simps) (simp add: digit)
  qed
qed

lemma decimal_inj: "decimal m = decimal n \<longleftrightarrow> m = n"
  by (metis decimal_read)

lemma decimal_digits: "set (decimal n) \<subseteq> set ''0123456789''"
proof (induction n rule: decimal.induct)
  case (1 n)
  have digit: "digit_char d \<in> set ''0123456789''" if "d < 10" for d
    unfolding digit_char_def by (rule nth_mem) (use that in simp)
  show ?case
  proof (cases "n < 10")
    case True
    then have "decimal n = [digit_char n]"
      by (subst decimal.simps) simp
    then show ?thesis
      using digit[OF True] by simp
  next
    case False
    then have "set (decimal (n div 10)) \<subseteq> set ''0123456789''"
      by (rule "1.IH")
    moreover have "decimal n = decimal (n div 10) @ [digit_char (n mod 10)]"
      using False by (subst decimal.simps) simp
    ultimately show ?thesis
      using digit[of "n mod 10"] by auto
  qed
qed

lemma equals_sign_not_in_decimal: "CHR ''='' \<notin> set (decimal n)"
  using decimal_digits[of n] by auto

lemma handshake_tail_unique:
  assumes "la @ (sep @ [CHR ''='']) @ decimal m @ tl1 = la' @ (sep @ [CHR ''='']) @ decimal n @ tl2"
    and "length tl1 = length tl2"
  shows "la = la' \<and> m = n \<and> tl1 = tl2"
proof -
  have "(la @ sep @ [CHR ''=''] @ decimal m) @ tl1 = (la' @ sep @ [CHR ''=''] @ decimal n) @ tl2"
    using assms(1) by simp
  then have front: "la @ sep @ [CHR ''=''] @ decimal m = la' @ sep @ [CHR ''=''] @ decimal n"
    and tails: "tl1 = tl2"
    using assms(2) append_eq_append_conv by blast+
  from front have "(la @ sep) @ CHR ''='' # decimal m = (la' @ sep) @ CHR ''='' # decimal n"
    by simp
  then have "la @ sep = la' @ sep \<and> decimal m = decimal n"
    by (rule last_separator_unique[OF equals_sign_not_in_decimal equals_sign_not_in_decimal])
  then show ?thesis
    using tails by (simp add: decimal_inj)
qed

lemma node_handshake_message_unique:
  assumes eq: "node_handshake_message i p l net ver t ch = node_handshake_message i' p' l' net ver t' ch'"
    and lens: "length i = length i'" "length p = length p'" "length ch = length ch'"
  shows "i = i' \<and> p = p' \<and> l = l' \<and> t = t' \<and> ch = ch'"
proof -
  let ?sep = "[newline] @ ''network_id='' @ net @ [newline] @ ''protocol_version='' @
    decimal (unat ver) @ [newline] @ ''timestamp''"
  let ?tail = "\<lambda>c. [newline] @ ''challenge='' @ c"
  let ?mid = "\<lambda>l t c. [newline] @ ''listen_address='' @
    l @ (?sep @ [CHR ''='']) @ decimal (unat (t :: u64)) @ ?tail c"
  have "i @ [newline] @ ''public_key='' @ p @ ?mid l t ch
      = i' @ [newline] @ ''public_key='' @ p' @ ?mid l' t' ch'"
    using eq unfolding node_handshake_message_def as_bytes_eq by simp
  then have i: "i = i'" and "p @ ?mid l t ch = p' @ ?mid l' t' ch'"
    using lens(1) by simp_all
  then have p: "p = p'" and "?mid l t ch = ?mid l' t' ch'"
    using lens(2) by simp_all
  then have "l @ (?sep @ [CHR ''='']) @ decimal (unat t) @ ?tail ch
      = l' @ (?sep @ [CHR ''='']) @ decimal (unat t') @ ?tail ch'"
    by simp
  then have "l = l' \<and> unat t = unat t' \<and> ?tail ch = ?tail ch'"
    by (rule handshake_tail_unique) (simp add: lens(3))
  then show ?thesis
    using i p by (simp add: word_unat_eq_iff)
qed

text \<open>A signed handshake cannot be passed off as a signed acknowledgement, nor the reverse.\<close>

lemma handshake_texts_disjoint:
  "node_handshake_message i p l net ver t ch \<noteq> node_handshake_ack_message i' p' net' ver' t' ch' acc"
  unfolding node_handshake_message_def node_handshake_ack_message_def as_bytes_eq by simp

end
