(* ===== verification/Core.thy ===== *)
theory Core
  imports Wallet
begin

text \<open>
  \<open>src/core/transaction.rs\<close> and \<open>src/core/block.rs\<close>: the two data types of the chain, the
  byte sequences that are hashed and signed, identifiers and hashes. The lemmas show that
  these byte sequences determine every field they cover, so that two different payloads with
  one identifier (or two different blocks with one hash) are a collision of the hash function.
\<close>

section \<open>Transactions\<close>

record transaction =
  tx_id :: string
  tx_from :: string
  tx_public_key :: string
  tx_to :: string
  tx_amount :: u64
  tx_fee :: u64
  tx_nonce :: u64
  tx_signature :: "string option"
  tx_coinbase :: bool
  tx_reward_marker :: u128

definition append_bytes :: "byte list \<Rightarrow> byte list \<Rightarrow> byte list" where
  "append_bytes buffer bs = buffer @ to_be_bytes (word_of_nat (length bs) :: u64) @ bs"

definition append_string :: "byte list \<Rightarrow> string \<Rightarrow> byte list" where
  "append_string buffer s = append_bytes buffer (as_bytes s)"

definition tx_message :: "transaction \<Rightarrow> byte list" where
  "tx_message tx =
     (let message = as_bytes ''AION_TX_V1'';
          message = append_string message (tx_from tx);
          message = append_string message (tx_public_key tx);
          message = append_string message (tx_to tx);
          message = message @ to_be_bytes (tx_amount tx);
          message = message @ to_be_bytes (tx_fee tx);
          message = message @ to_be_bytes (tx_nonce tx);
          message = message @ [if tx_coinbase tx then 1 else 0]
      in message @ to_be_bytes (tx_reward_marker tx))"

definition calculate_id :: "crypto \<Rightarrow> transaction \<Rightarrow> string" where
  "calculate_id cr tx = fmt_lower_hex cr (sha256 cr (tx_message tx))"

definition transaction_new ::
  "crypto \<Rightarrow> string \<Rightarrow> string \<Rightarrow> string \<Rightarrow> u64 \<Rightarrow> u64 \<Rightarrow> u64 \<Rightarrow> transaction" where
  "transaction_new cr sender public_key recipient amount fee nonce =
     (let tx = \<lparr>tx_id = [], tx_from = sender, tx_public_key = public_key, tx_to = recipient,
                tx_amount = amount, tx_fee = fee, tx_nonce = nonce, tx_signature = None,
                tx_coinbase = False, tx_reward_marker = 0\<rparr>
      in tx\<lparr>tx_id := calculate_id cr tx\<rparr>)"

definition new_coinbase :: "crypto \<Rightarrow> string \<Rightarrow> u64 \<Rightarrow> u64 \<Rightarrow> transaction" where
  "new_coinbase cr validator reward block_index =
     (let tx = \<lparr>tx_id = [], tx_from = ''SYSTEM'', tx_public_key = ''SYSTEM'', tx_to = validator,
                tx_amount = reward, tx_fee = 0, tx_nonce = 0,
                tx_signature = Some ''SYSTEM_REWARD'',
                tx_coinbase = True, tx_reward_marker = ucast block_index\<rparr>
      in tx\<lparr>tx_id := calculate_id cr tx\<rparr>)"

definition tx_sign :: "transaction \<Rightarrow> string \<Rightarrow> transaction" where
  "tx_sign tx signature = tx\<lparr>tx_signature := Some signature\<rparr>"

definition tx_is_signed :: "transaction \<Rightarrow> bool" where
  "tx_is_signed tx \<longleftrightarrow> tx_signature tx \<noteq> None"

section \<open>Blocks\<close>

record block =
  blk_index :: u64
  blk_timestamp :: u64
  blk_previous_hash :: string
  blk_hash :: string
  blk_validator :: string
  blk_validator_public_key :: string
  blk_validator_signature :: "string option"
  blk_transactions :: "transaction list"

text \<open>One round of the loop over the transactions in \<open>calculate_hash\<close>.\<close>

definition append_transaction :: "byte list \<Rightarrow> transaction \<Rightarrow> byte list" where
  "append_transaction data tx =
     (let data = append_string data (tx_id tx);
          data = append_bytes data (tx_message tx)
      in case tx_signature tx of
           Some signature \<Rightarrow> append_string (data @ [1]) signature
         | None \<Rightarrow> data @ [0])"

definition block_data :: "block \<Rightarrow> byte list" where
  "block_data b =
     (let data = as_bytes ''AION_BLOCK_V1'';
          data = data @ to_be_bytes (blk_index b);
          data = data @ to_be_bytes (blk_timestamp b);
          data = append_string data (blk_previous_hash b);
          data = append_string data (blk_validator b);
          data = append_string data (blk_validator_public_key b);
          data = data @ to_be_bytes (word_of_nat (length (blk_transactions b)) :: u64)
      in foldl append_transaction data (blk_transactions b))"

definition calculate_hash :: "crypto \<Rightarrow> block \<Rightarrow> string" where
  "calculate_hash cr b = fmt_lower_hex cr (sha256 cr (block_data b))"

definition block_new ::
  "crypto \<Rightarrow> u64 \<Rightarrow> u64 \<Rightarrow> string \<Rightarrow> string \<Rightarrow> string \<Rightarrow> transaction list \<Rightarrow> block" where
  "block_new cr index timestamp previous_hash validator validator_public_key transactions =
     (let block = \<lparr>blk_index = index, blk_timestamp = timestamp,
                   blk_previous_hash = previous_hash, blk_hash = [], blk_validator = validator,
                   blk_validator_public_key = validator_public_key,
                   blk_validator_signature = None, blk_transactions = transactions\<rparr>
      in block\<lparr>blk_hash := calculate_hash cr block\<rparr>)"

definition block_sign :: "block \<Rightarrow> string \<Rightarrow> block" where
  "block_sign b signature = b\<lparr>blk_validator_signature := Some signature\<rparr>"

definition block_is_signed :: "block \<Rightarrow> bool" where
  "block_is_signed b \<longleftrightarrow> blk_validator_signature b \<noteq> None"

definition is_hash_valid :: "crypto \<Rightarrow> block \<Rightarrow> bool" where
  "is_hash_valid cr b \<longleftrightarrow> blk_hash b = calculate_hash cr b"

section \<open>Fields that hashing ignores\<close>

lemma tx_message_ignores [simp]:
  "tx_message (tx\<lparr>tx_id := i\<rparr>) = tx_message tx"
  "tx_message (tx\<lparr>tx_signature := s\<rparr>) = tx_message tx"
  by (simp_all add: tx_message_def)

lemma block_data_ignores [simp]:
  "block_data (b\<lparr>blk_hash := h\<rparr>) = block_data b"
  "block_data (b\<lparr>blk_validator_signature := s\<rparr>) = block_data b"
  by (simp_all add: block_data_def)

lemma calculate_id_ignores [simp]:
  "calculate_id cr (tx\<lparr>tx_id := i\<rparr>) = calculate_id cr tx"
  "calculate_id cr (tx\<lparr>tx_signature := s\<rparr>) = calculate_id cr tx"
  by (simp_all add: calculate_id_def)

lemma calculate_hash_ignores [simp]:
  "calculate_hash cr (b\<lparr>blk_hash := h\<rparr>) = calculate_hash cr b"
  "calculate_hash cr (b\<lparr>blk_validator_signature := s\<rparr>) = calculate_hash cr b"
  by (simp_all add: calculate_hash_def)

lemma transaction_new_id [simp]:
  "tx_id (transaction_new cr f p t a fe n) = calculate_id cr (transaction_new cr f p t a fe n)"
  by (simp add: transaction_new_def calculate_id_def tx_message_def Let_def)

lemma transaction_new_sel [simp]:
  "tx_from (transaction_new cr f p t a fe n) = f"
  "tx_public_key (transaction_new cr f p t a fe n) = p"
  "tx_to (transaction_new cr f p t a fe n) = t"
  "tx_amount (transaction_new cr f p t a fe n) = a"
  "tx_fee (transaction_new cr f p t a fe n) = fe"
  "tx_nonce (transaction_new cr f p t a fe n) = n"
  "tx_signature (transaction_new cr f p t a fe n) = None"
  "\<not> tx_coinbase (transaction_new cr f p t a fe n)"
  "tx_reward_marker (transaction_new cr f p t a fe n) = 0"
  by (simp_all add: transaction_new_def Let_def)

lemma new_coinbase_id [simp]:
  "tx_id (new_coinbase cr v r i) = calculate_id cr (new_coinbase cr v r i)"
  by (simp add: new_coinbase_def calculate_id_def tx_message_def Let_def)

lemma new_coinbase_sel [simp]:
  "tx_from (new_coinbase cr v r i) = SYSTEM_ADDRESS"
  "tx_public_key (new_coinbase cr v r i) = SYSTEM_PUBLIC_KEY"
  "tx_to (new_coinbase cr v r i) = v"
  "tx_amount (new_coinbase cr v r i) = r"
  "tx_fee (new_coinbase cr v r i) = 0"
  "tx_nonce (new_coinbase cr v r i) = 0"
  "tx_signature (new_coinbase cr v r i) = Some SYSTEM_REWARD_SIGNATURE"
  "tx_coinbase (new_coinbase cr v r i)"
  "tx_reward_marker (new_coinbase cr v r i) = ucast i"
  by (simp_all add: new_coinbase_def Let_def special_names)

lemma block_new_sel [simp]:
  "blk_index (block_new cr i t h v k txs) = i"
  "blk_timestamp (block_new cr i t h v k txs) = t"
  "blk_previous_hash (block_new cr i t h v k txs) = h"
  "blk_validator (block_new cr i t h v k txs) = v"
  "blk_validator_public_key (block_new cr i t h v k txs) = k"
  "blk_validator_signature (block_new cr i t h v k txs) = None"
  "blk_transactions (block_new cr i t h v k txs) = txs"
  "blk_hash (block_new cr i t h v k txs) = calculate_hash cr (block_new cr i t h v k txs)"
  by (simp_all add: block_new_def calculate_hash_def block_data_def Let_def)

lemma block_sign_sel [simp]:
  "blk_index (block_sign b s) = blk_index b"
  "blk_timestamp (block_sign b s) = blk_timestamp b"
  "blk_previous_hash (block_sign b s) = blk_previous_hash b"
  "blk_hash (block_sign b s) = blk_hash b"
  "blk_validator (block_sign b s) = blk_validator b"
  "blk_validator_public_key (block_sign b s) = blk_validator_public_key b"
  "blk_validator_signature (block_sign b s) = Some s"
  "blk_transactions (block_sign b s) = blk_transactions b"
  "calculate_hash cr (block_sign b s) = calculate_hash cr b"
  by (simp_all add: block_sign_def)

lemma calculate_id_fixed_hex:
  "sha256_spec cr \<Longrightarrow> is_fixed_hex (calculate_id cr tx) HASH_HEX_LENGTH"
  by (simp add: calculate_id_def sha256_spec_def lower_hex_of_fixed hex_lengths)

lemma calculate_hash_fixed_hex:
  "sha256_spec cr \<Longrightarrow> is_fixed_hex (calculate_hash cr b) HASH_HEX_LENGTH"
  by (simp add: calculate_hash_def sha256_spec_def lower_hex_of_fixed hex_lengths)

section \<open>Identifiers and hashes determine what they cover\<close>

text \<open>
  Lengths are written as \<open>u64\<close>, so the encoding is unambiguous for byte sequences shorter
  than \<open>2 ^ 64\<close>; Rust allocates at most \<open>isize::MAX\<close> bytes, below \<open>2 ^ 63\<close>.
\<close>

definition fits :: "'a list \<Rightarrow> bool" where
  "fits xs \<longleftrightarrow> length xs < 2 ^ 63"

definition frame :: "byte list \<Rightarrow> byte list" where
  "frame bs = append_bytes [] bs"

lemma append_bytes_frame: "append_bytes buffer bs = buffer @ frame bs"
  by (simp add: append_bytes_def frame_def)

lemma append_string_frame: "append_string buffer s = buffer @ frame (as_bytes s)"
  by (simp add: append_string_def append_bytes_frame)

lemma fits_length_word:
  fixes xs ys :: "'a list"
  assumes "fits xs" and "fits ys"
    and "(word_of_nat (length xs) :: u64) = word_of_nat (length ys)"
  shows "length xs = length ys"
proof -
  have "unat (word_of_nat (length zs) :: u64) = length zs" if "fits zs" for zs :: "'a list"
    using that by (simp add: fits_def unat_of_nat take_bit_nat_eq_self)
  then have "length xs = unat (word_of_nat (length xs) :: u64)"
    and "length ys = unat (word_of_nat (length ys) :: u64)"
    using assms(1,2) by metis+
  then show ?thesis
    using assms(3) by metis
qed

interpretation framed: prefix_code frame fits
proof
  fix x y r s
  assume fits: "fits x" "fits y" and "frame x @ r = frame y @ s"
  then have "to_be_bytes (word_of_nat (length x) :: u64) @ x @ r =
      to_be_bytes (word_of_nat (length y) :: u64) @ y @ s"
    by (simp add: frame_def append_bytes_def)
  then have "(word_of_nat (length x) :: u64) = word_of_nat (length y) \<and> x @ r = y @ s"
    by (simp only: be64.decode_front)
  then show "x = y \<and> r = s"
    using fits_length_word[OF fits] append_eq_append_conv by blast
qed

definition tx_payload :: "transaction \<Rightarrow> transaction" where
  "tx_payload tx = tx\<lparr>tx_id := [], tx_signature := None\<rparr>"

lemma tx_message_frames:
  "tx_message tx = as_bytes ''AION_TX_V1'' @ frame (as_bytes (tx_from tx)) @
     frame (as_bytes (tx_public_key tx)) @ frame (as_bytes (tx_to tx)) @
     to_be_bytes (tx_amount tx) @ to_be_bytes (tx_fee tx) @ to_be_bytes (tx_nonce tx) @
     (if tx_coinbase tx then 1 else 0) # to_be_bytes (tx_reward_marker tx)"
  by (simp add: tx_message_def append_string_frame Let_def)

lemma length_frame: "length (frame bs) = 8 + length bs"
  by (simp add: frame_def append_bytes_def)

lemma fits_tx_message:
  assumes "fits (tx_message tx)"
  shows "fits (as_bytes (tx_from tx))" "fits (as_bytes (tx_public_key tx))" "fits (as_bytes (tx_to tx))"
  using assms by (simp_all add: fits_def tx_message_frames length_frame)

interpretation tx_code: prefix_code tx_message "\<lambda>tx. fits (tx_message tx) \<and> tx = tx_payload tx"
proof
  fix x y r s
  assume x: "fits (tx_message x) \<and> x = tx_payload x" and y: "fits (tx_message y) \<and> y = tx_payload y"
    and eq: "tx_message x @ r = tx_message y @ s"
  note fx = fits_tx_message[OF conjunct1[OF x]] and fy = fits_tx_message[OF conjunct1[OF y]]
  have "tx_from x = tx_from y \<and> tx_public_key x = tx_public_key y \<and> tx_to x = tx_to y \<and>
      tx_amount x = tx_amount y \<and> tx_fee x = tx_fee y \<and> tx_nonce x = tx_nonce y \<and>
      tx_coinbase x = tx_coinbase y \<and> tx_reward_marker x = tx_reward_marker y \<and> r = s"
    using eq fx fy
    by (simp add: tx_message_frames framed.decode_front be64.decode_front be64.injective
        be128.decode_front be128.injective split: if_splits)
  moreover have "tx_id x = tx_id y" "tx_signature x = tx_signature y"
    using arg_cong[OF conjunct2[OF x], of tx_id] arg_cong[OF conjunct2[OF y], of tx_id]
      arg_cong[OF conjunct2[OF x], of tx_signature] arg_cong[OF conjunct2[OF y], of tx_signature]
    by (simp_all add: tx_payload_def)
  ultimately show "x = y \<and> r = s"
    by simp
qed

lemma tx_payload_eq_iff:
  "tx_payload t = tx_payload u \<longleftrightarrow>
     tx_from t = tx_from u \<and> tx_public_key t = tx_public_key u \<and> tx_to t = tx_to u \<and>
     tx_amount t = tx_amount u \<and> tx_fee t = tx_fee u \<and> tx_nonce t = tx_nonce u \<and>
     tx_coinbase t = tx_coinbase u \<and> tx_reward_marker t = tx_reward_marker u"
  by (cases t; cases u) (simp add: tx_payload_def)

lemma tx_message_payload [simp]: "tx_message (tx_payload tx) = tx_message tx"
  by (simp add: tx_payload_def)

lemma tx_payload_idem [simp]: "tx_payload (tx_payload tx) = tx_payload tx"
  by (simp add: tx_payload_def)

lemma tx_message_unique:
  assumes "fits (tx_message t)" and "fits (tx_message u)"
  shows "tx_message t = tx_message u \<longleftrightarrow> tx_payload t = tx_payload u"
proof -
  have "tx_message (tx_payload t) = tx_message (tx_payload u) \<longleftrightarrow> tx_payload t = tx_payload u"
    by (rule tx_code.injective) (simp_all add: assms)
  then show ?thesis
    by simp
qed

lemma calculate_id_unique:
  assumes "sha256_spec cr" and "fits (tx_message t)" and "fits (tx_message u)"
    and "calculate_id cr t = calculate_id cr u"
  shows "tx_payload t = tx_payload u \<or> sha256_collision cr (tx_message t) (tx_message u)"
  using assms tx_message_unique[OF assms(2,3)]
  by (auto simp: calculate_id_def sha256_spec_def sha256_collision_def)

text \<open>The bytes a transaction adds to its block's hash.\<close>

definition tx_entry :: "transaction \<Rightarrow> byte list" where
  "tx_entry tx = append_transaction [] tx"

definition tx_fits :: "transaction \<Rightarrow> bool" where
  "tx_fits tx \<longleftrightarrow> fits (tx_id tx) \<and> fits (tx_message tx) \<and>
     (case tx_signature tx of None \<Rightarrow> True | Some s \<Rightarrow> fits s)"

lemma append_transaction_entry: "append_transaction data tx = data @ tx_entry tx"
  by (simp add: append_transaction_def tx_entry_def append_string_frame append_bytes_frame Let_def
      split: option.split)

lemma foldl_append_transaction:
  "foldl append_transaction data txs = data @ concat (map tx_entry txs)"
  by (induction txs arbitrary: data) (simp_all add: append_transaction_entry)

lemma fits_as_bytes [simp]: "fits (as_bytes s) \<longleftrightarrow> fits s"
  by (simp add: fits_def)

lemma tx_entry_frames:
  "tx_entry tx = frame (as_bytes (tx_id tx)) @ frame (tx_message tx) @
     (case tx_signature tx of Some s \<Rightarrow> 1 # frame (as_bytes s) | None \<Rightarrow> [0])"
  by (simp add: tx_entry_def append_transaction_def append_string_frame append_bytes_frame Let_def
      split: option.split)

interpretation entry_code: prefix_code tx_entry tx_fits
proof
  fix x y r s
  assume x: "tx_fits x" and y: "tx_fits y" and eq: "tx_entry x @ r = tx_entry y @ s"
  have fx: "fits (tx_id x)" "fits (tx_message x)" and fy: "fits (tx_id y)" "fits (tx_message y)"
    using x y by (simp_all add: tx_fits_def)
  have eqs: "tx_id x = tx_id y \<and> tx_message x = tx_message y \<and>
      (case tx_signature x of Some s \<Rightarrow> 1 # frame (as_bytes s) | None \<Rightarrow> [0]) @ r =
      (case tx_signature y of Some s \<Rightarrow> 1 # frame (as_bytes s) | None \<Rightarrow> [0]) @ s"
    using eq fx fy by (simp add: tx_entry_frames framed.decode_front)
  then have "tx_signature x = tx_signature y \<and> r = s"
    using x y by (auto simp: tx_fits_def framed.decode_front split: option.splits)
  moreover have "tx_payload x = tx_payload y"
    using eqs tx_message_unique[OF fx(2) fy(2)] by simp
  ultimately show "x = y \<and> r = s"
    using eqs by (simp add: tx_payload_eq_iff)
qed

text \<open>The same for a whole block: its hash covers every field but the signature.\<close>

definition block_payload :: "block \<Rightarrow> block" where
  "block_payload b = b\<lparr>blk_hash := [], blk_validator_signature := None\<rparr>"

definition block_fits :: "block \<Rightarrow> bool" where
  "block_fits b \<longleftrightarrow> fits (blk_previous_hash b) \<and> fits (blk_validator b) \<and>
     fits (blk_validator_public_key b) \<and> fits (blk_transactions b) \<and>
     list_all tx_fits (blk_transactions b)"

lemma block_payload_eq_iff:
  "block_payload b = block_payload c \<longleftrightarrow>
     blk_index b = blk_index c \<and> blk_timestamp b = blk_timestamp c \<and>
     blk_previous_hash b = blk_previous_hash c \<and> blk_validator b = blk_validator c \<and>
     blk_validator_public_key b = blk_validator_public_key c \<and>
     blk_transactions b = blk_transactions c"
  by (cases b; cases c) (simp add: block_payload_def)

lemma block_data_frames:
  "block_data b = as_bytes ''AION_BLOCK_V1'' @ to_be_bytes (blk_index b) @
     to_be_bytes (blk_timestamp b) @ frame (as_bytes (blk_previous_hash b)) @
     frame (as_bytes (blk_validator b)) @ frame (as_bytes (blk_validator_public_key b)) @
     to_be_bytes (word_of_nat (length (blk_transactions b)) :: u64) @
     concat (map tx_entry (blk_transactions b))"
  by (simp add: block_data_def append_string_frame foldl_append_transaction Let_def)

lemma block_data_unique:
  assumes b: "block_fits b" and c: "block_fits c"
  shows "block_data b = block_data c \<longleftrightarrow> block_payload b = block_payload c"
proof
  assume "block_data b = block_data c"
  then have eq: "blk_index b = blk_index c \<and> blk_timestamp b = blk_timestamp c \<and>
      blk_previous_hash b = blk_previous_hash c \<and> blk_validator b = blk_validator c \<and>
      blk_validator_public_key b = blk_validator_public_key c \<and>
      (word_of_nat (length (blk_transactions b)) :: u64) = word_of_nat (length (blk_transactions c)) \<and>
      concat (map tx_entry (blk_transactions b)) = concat (map tx_entry (blk_transactions c))"
    using b c by (simp add: block_fits_def block_data_frames be64.decode_front be64.injective framed.decode_front)
  have "length (blk_transactions b) = length (blk_transactions c)"
    by (rule fits_length_word) (use b c eq in \<open>simp_all add: block_fits_def\<close>)
  then have "blk_transactions b = blk_transactions c"
    using entry_code.decode_sequence[of "blk_transactions b" "blk_transactions c" "[]" "[]"] b c eq
    by (simp add: block_fits_def list_all_iff)
  then show "block_payload b = block_payload c"
    using eq by (simp add: block_payload_eq_iff)
next
  assume "block_payload b = block_payload c"
  then show "block_data b = block_data c"
    by (simp add: block_payload_eq_iff block_data_def)
qed

lemma calculate_hash_unique:
  assumes "sha256_spec cr" and "block_fits b" and "block_fits c"
    and "calculate_hash cr b = calculate_hash cr c"
  shows "block_payload b = block_payload c \<or> sha256_collision cr (block_data b) (block_data c)"
  using assms block_data_unique[OF assms(2,3)]
  by (auto simp: calculate_hash_def sha256_spec_def sha256_collision_def)

end
