(* ===== verification/Ledger.thy ===== *)
theory Ledger
  imports Errors
begin

text \<open>
  The interface between the account state and its users (mempool, blockchain, node): an
  operation that applies a transaction to a state and either accepts it or returns an error.
  The laws say what acceptance does to the funds held, that a rejected transaction leaves no
  trace while the funds are below a bound, and that accepted transactions of one sender are
  numbered in sequence. What follows for whole lists of transactions is proved here once.
\<close>

text \<open>
  \<open>keep_ok step\<close> is a call \<open>state.step(tx)?\<close> whose caller drops the state on an error;
  \<open>replay step\<close> is the loop \<open>for tx in transactions { state.step(tx)?; }\<close>.
\<close>

definition keep_ok :: "('s \<Rightarrow> 't \<Rightarrow> 's \<times> unit result) \<Rightarrow> 's \<Rightarrow> 't \<Rightarrow> 's result" where
  "keep_ok step s t = (case step s t of (s', Inl e) \<Rightarrow> Inl e | (s', Inr _) \<Rightarrow> Inr s')"

abbreviation replay :: "('s \<Rightarrow> 't \<Rightarrow> 's \<times> unit result) \<Rightarrow> 's \<Rightarrow> 't list \<Rightarrow> 's result" where
  "replay step \<equiv> try_fold (keep_ok step)"

lemma keep_ok_Inr [result_simps]: "keep_ok step s t = Inr s' \<longleftrightarrow> step s t = (s', Inr ())"
  by (auto simp: keep_ok_def split: prod.split sum.split)

lemma keep_ok_Inl: "keep_ok step s t = Inl e \<longleftrightarrow> (\<exists>s'. step s t = (s', Inl e))"
  by (auto simp: keep_ok_def split: prod.split sum.split)

lemma replay_Cons_Inr [result_simps]:
  "replay step s (t # ts) = Inr s' \<longleftrightarrow> (\<exists>s1. step s t = (s1, Inr ()) \<and> replay step s1 ts = Inr s')"
  by (auto simp: result_simps)

lemma replay_append_Inr:
  "replay step s (ts @ us) = Inr s' \<longleftrightarrow> (\<exists>s1. replay step s ts = Inr s1 \<and> replay step s1 us = Inr s')"
  by (auto simp: try_fold_append and_then_Inr)

locale ledger =
  fixes step :: "'s \<Rightarrow> 't \<Rightarrow> 's \<times> unit result"
    and funds :: "'s \<Rightarrow> nat"
    and minted :: "'t \<Rightarrow> nat"
    and paid :: "'t \<Rightarrow> nat"
    and bound :: nat
  assumes accepted_funds: "step s t = (s', Inr ()) \<Longrightarrow> funds s' + paid t = funds s + minted t"
    and rejected_same: "\<lbrakk>funds s < bound; step s t = (s', Inl e)\<rbrakk> \<Longrightarrow> s' = s"
begin

lemma replay_funds:
  "replay step s ts = Inr s' \<Longrightarrow> funds s' + sum_list (map paid ts) = funds s + sum_list (map minted ts)"
proof (induction ts arbitrary: s)
  case Nil
  then show ?case by simp
next
  case (Cons t ts)
  then obtain s1 where s1: "step s t = (s1, Inr ())" "replay step s1 ts = Inr s'"
    by (auto simp: result_simps)
  show ?case
    using accepted_funds[OF s1(1)] Cons.IH[OF s1(2)] by simp
qed

lemma step_funds_le:
  assumes "minted t = 0" and "funds s < bound"
  shows "funds (fst (step s t)) \<le> funds s"
proof (cases "step s t")
  case (Pair s' r)
  with assms show ?thesis
    using accepted_funds[of s t s'] rejected_same[of s t s'] by (cases r) auto
qed

end

locale sequenced_ledger = ledger step funds minted paid bound
  for step :: "'s \<Rightarrow> 't \<Rightarrow> 's \<times> unit result" and funds minted paid bound +
  fixes counter :: "'s \<Rightarrow> 'k \<Rightarrow> u64"
    and sender :: "'t \<Rightarrow> 'k option"
    and number :: "'t \<Rightarrow> u64"
  assumes accepted_number: "\<lbrakk>step s t = (s', Inr ()); sender t = Some k\<rbrakk> \<Longrightarrow> counter s k = number t"
    and accepted_counter: "step s t = (s', Inr ()) \<Longrightarrow>
      counter s' k = (if sender t = Some k then counter s k + 1 else counter s k)"
begin

lemma replay_counter:
  "replay step s ts = Inr s' \<Longrightarrow>
     counter s' k = counter s k + word_of_nat (length (filter (\<lambda>t. sender t = Some k) ts))"
proof (induction ts arbitrary: s)
  case Nil
  then show ?case by simp
next
  case (Cons t ts)
  then obtain s1 where s1: "step s t = (s1, Inr ())" "replay step s1 ts = Inr s'"
    by (auto simp: result_simps)
  show ?case
    using accepted_counter[OF s1(1), of k] Cons.IH[OF s1(2)] by (simp add: add_ac)
qed

lemma replay_number:
  assumes "replay step s (ts @ t # us) = Inr s'" and "sender t = Some k"
  shows "number t = counter s k + word_of_nat (length (filter (\<lambda>t. sender t = Some k) ts))"
proof -
  obtain s1 s2 where s1: "replay step s ts = Inr s1" and s2: "step s1 t = (s2, Inr ())"
    using assms(1) by (auto simp: replay_append_Inr result_simps)
  show ?thesis
    using accepted_number[OF s2 assms(2)] replay_counter[OF s1] by simp
qed

lemma no_number_twice:
  assumes run: "replay step s (ts @ t # us @ u # vs) = Inr s'" and short: "length us < 2 ^ 64 - 1"
    and same: "sender t = Some k" "sender u = Some k"
  shows "number t \<noteq> number u"
proof
  assume eq: "number t = number u"
  let ?n = "\<lambda>ts. length (filter (\<lambda>t. sender t = Some k) ts)"
  have "counter s k + word_of_nat (?n ts) = counter s k + word_of_nat (?n (ts @ t # us))"
    using eq replay_number[OF run same(1)] replay_number[of s "ts @ t # us" u vs s' k] run same(2)
    by simp
  then have "(word_of_nat (?n ts) :: u64) = word_of_nat (?n ts) + word_of_nat (Suc (?n us))"
    using same(1) by (simp add: add_ac)
  then have "(word_of_nat (Suc (?n us)) :: u64) = 0"
    by (metis add_cancel_right_right)
  then have "(2::nat) ^ 64 dvd Suc (?n us)"
    by (simp only: word_of_nat_eq_0_iff len_of_numeral_defs) simp
  then have "2 ^ 64 \<le> Suc (?n us)"
    by (rule dvd_imp_le) simp
  moreover have "?n us \<le> length us"
    by simp
  ultimately show False
    using short by linarith
qed

end

end
