(* ===== verification/State.thy ===== *)
theory State
  imports Core Ledger
begin

text \<open>
  \<open>src/state/mod.rs\<close>: account balances and nonces, the treasury and the burn counter, and the
  application of transactions. Methods on \<open>&mut self\<close> that can fail return the state next to
  the result, because some of them have written to it when they fail. The lemmas show which
  transactions are accepted, what they do to the sum of all balances, that a rejected one
  leaves the state alone as long as that sum is below \<open>2 ^ 64\<close>, and that no transaction is
  accepted twice.
\<close>

record account =
  acc_balance :: u64
  acc_nonce :: u64

record state =
  st_accounts :: "(string, account) fmap"
  st_treasury_balance :: u64
  st_burned_amount :: u64

definition state_new :: state where
  "state_new = \<lparr>st_accounts = fmempty, st_treasury_balance = 0, st_burned_amount = 0\<rparr>"

definition create_account :: "state \<Rightarrow> string \<Rightarrow> u64 \<Rightarrow> state" where
  "create_account st address balance =
     st\<lparr>st_accounts := fmupd address \<lparr>acc_balance = balance, acc_nonce = 0\<rparr> (st_accounts st)\<rparr>"

definition balance_of :: "state \<Rightarrow> string \<Rightarrow> u64" where
  "balance_of st address =
     (case fmlookup (st_accounts st) address of None \<Rightarrow> 0 | Some account \<Rightarrow> acc_balance account)"

definition nonce_of :: "state \<Rightarrow> string \<Rightarrow> u64" where
  "nonce_of st address =
     (case fmlookup (st_accounts st) address of None \<Rightarrow> 0 | Some account \<Rightarrow> acc_nonce account)"

definition add_balance :: "state \<Rightarrow> string \<Rightarrow> u64 \<Rightarrow> state result" where
  "add_balance st address amount =
     (case fmlookup (st_accounts st) address of
        None \<Rightarrow> Inl (State_error Account_not_found)
      | Some account \<Rightarrow>
     (case checked_add (acc_balance account) amount of
        None \<Rightarrow> Inl (State_error Balance_overflow)
      | Some b \<Rightarrow>
          Inr (st\<lparr>st_accounts := fmupd address (account\<lparr>acc_balance := b\<rparr>) (st_accounts st)\<rparr>)))"

definition add_treasury :: "state \<Rightarrow> u64 \<Rightarrow> state result" where
  "add_treasury st amount =
     (case checked_add (st_treasury_balance st) amount of
        None \<Rightarrow> Inl (State_error Treasury_overflow)
      | Some t \<Rightarrow> Inr (st\<lparr>st_treasury_balance := t\<rparr>))"

definition state_burn :: "state \<Rightarrow> u64 \<Rightarrow> state result" where
  "state_burn st amount =
     (case checked_add (st_burned_amount st) amount of
        None \<Rightarrow> Inl (State_error Burn_overflow)
      | Some t \<Rightarrow> Inr (st\<lparr>st_burned_amount := t\<rparr>))"

definition empty_account :: account where
  "empty_account = \<lparr>acc_balance = 0, acc_nonce = 0\<rparr>"

section \<open>Applying a transaction\<close>

text \<open>
  The coinbase branch and the branch for ordinary transactions. The entry of the receiver is
  inserted before the overflow check, and the sender is debited before it, so both are part
  of the state that goes with the error.
\<close>

definition apply_coinbase :: "state \<Rightarrow> transaction \<Rightarrow> state \<times> unit result" where
  "apply_coinbase st tx =
     (let receiver = entry_or (tx_to tx) empty_account (st_accounts st);
          accounts = fmupd (tx_to tx) receiver (st_accounts st)
      in case checked_add (acc_balance receiver) (tx_amount tx) of
           None \<Rightarrow> (st\<lparr>st_accounts := accounts\<rparr>, Inl (State_error Coinbase_overflow))
         | Some b \<Rightarrow>
             (st\<lparr>st_accounts := fmupd (tx_to tx) (receiver\<lparr>acc_balance := b\<rparr>) accounts\<rparr>, Inr ()))"

text \<open>
  \<open>sender.nonce += 1\<close> is addition on words: the release profile of the crate has no overflow
  checks, so 2^64 - 1 is followed by 0. (A debug build would panic there.)
\<close>

definition apply_transfer :: "state \<Rightarrow> transaction \<Rightarrow> account \<Rightarrow> u64 \<Rightarrow> state \<times> unit result" where
  "apply_transfer st tx sender total_cost =
     (let debited = sender\<lparr>acc_balance := acc_balance sender - total_cost,
                           acc_nonce := acc_nonce sender + 1\<rparr>;
          accounts = fmupd (tx_from tx) debited (st_accounts st);
          receiver = entry_or (tx_to tx) empty_account accounts;
          accounts = fmupd (tx_to tx) receiver accounts
      in case checked_add (acc_balance receiver) (tx_amount tx) of
           None \<Rightarrow> (st\<lparr>st_accounts := accounts\<rparr>, Inl (State_error Receiver_balance_overflow))
         | Some b \<Rightarrow>
             (st\<lparr>st_accounts := fmupd (tx_to tx) (receiver\<lparr>acc_balance := b\<rparr>) accounts\<rparr>, Inr ()))"

definition apply_transaction :: "state \<Rightarrow> transaction \<Rightarrow> state \<times> unit result" where
  "apply_transaction st tx =
     (if tx_coinbase tx then apply_coinbase st tx
      else case fmlookup (st_accounts st) (tx_from tx) of
             None \<Rightarrow> (st, Inl (State_error Sender_account_not_found))
           | Some sender \<Rightarrow>
          (case checked_add (tx_amount tx) (tx_fee tx) of
             None \<Rightarrow> (st, Inl (State_error Transaction_overflow))
           | Some total_cost \<Rightarrow>
               if acc_balance sender < total_cost
               then (st, Inl (State_error Insufficient_balance))
               else if acc_nonce sender \<noteq> tx_nonce tx
               then (st, Inl (State_error Invalid_nonce))
               else apply_transfer st tx sender total_cost))"

definition apply_transactions_atomically ::
  "state \<Rightarrow> transaction list \<Rightarrow> state \<times> unit result" where
  "apply_transactions_atomically st transactions =
     (case replay apply_transaction st transactions of
        Inl e \<Rightarrow> (st, Inl e)
      | Inr temp \<Rightarrow> (temp, Inr ()))"

section \<open>When a transaction is accepted\<close>

definition total_balance :: "state \<Rightarrow> nat" where
  "total_balance st = fm_sum (\<lambda>a. unat (acc_balance a)) (st_accounts st)"

lemma balance_of_le_total: "unat (balance_of st a) \<le> total_balance st"
  using fm_sum_member[of "st_accounts st" a _ "\<lambda>a. unat (acc_balance a)"]
  by (auto simp: balance_of_def total_balance_def split: option.split)

text \<open>The balance the receiver has when it is credited; a sender that pays itself was debited.\<close>

definition receiver_balance :: "state \<Rightarrow> transaction \<Rightarrow> nat" where
  "receiver_balance st tx =
     (if tx_to tx = tx_from tx
      then unat (balance_of st (tx_from tx)) - (unat (tx_amount tx) + unat (tx_fee tx))
      else unat (balance_of st (tx_to tx)))"

text \<open>Crediting the entry of an account, present or fresh.\<close>

lemma entry_credit_total:
  fixes m :: "(string, account) fmap"
  assumes r: "r = entry_or k empty_account m"
  shows "fm_sum (\<lambda>a. unat (acc_balance a)) (fmupd k r m) = fm_sum (\<lambda>a. unat (acc_balance a)) m"
    and "unat b = unat (acc_balance r) + n \<Longrightarrow>
      fm_sum (\<lambda>a. unat (acc_balance a)) (fmupd k (r\<lparr>acc_balance := b\<rparr>) (fmupd k r m)) =
      fm_sum (\<lambda>a. unat (acc_balance a)) m + n"
proof -
  show *: "fm_sum (\<lambda>a. unat (acc_balance a)) (fmupd k r m) = fm_sum (\<lambda>a. unat (acc_balance a)) m"
    using fm_sum_upd[of "\<lambda>a. unat (acc_balance a)" k r m] r
    by (auto simp: entry_or_def empty_account_def split: option.splits)
  assume "unat b = unat (acc_balance r) + n"
  then show "fm_sum (\<lambda>a. unat (acc_balance a)) (fmupd k (r\<lparr>acc_balance := b\<rparr>) (fmupd k r m)) =
      fm_sum (\<lambda>a. unat (acc_balance a)) m + n"
    using fm_sum_upd[of "\<lambda>a. unat (acc_balance a)" k "r\<lparr>acc_balance := b\<rparr>" "fmupd k r m"] *
    by simp
qed

lemma apply_coinbase_cases:
  obtains (credited) b where
      "apply_coinbase st tx = (st\<lparr>st_accounts := fmupd (tx_to tx)
         (entry_or (tx_to tx) empty_account (st_accounts st)\<lparr>acc_balance := b\<rparr>)
         (fmupd (tx_to tx) (entry_or (tx_to tx) empty_account (st_accounts st)) (st_accounts st))\<rparr>, Inr ())"
      "unat b = unat (balance_of st (tx_to tx)) + unat (tx_amount tx)"
      "total_balance (fst (apply_coinbase st tx)) = total_balance st + unat (tx_amount tx)"
  | (overflow) "apply_coinbase st tx = (st, Inl (State_error Coinbase_overflow))"
      "2 ^ 64 \<le> unat (balance_of st (tx_to tx)) + unat (tx_amount tx)"
proof -
  let ?r = "entry_or (tx_to tx) empty_account (st_accounts st)"
  have bal: "acc_balance ?r = balance_of st (tx_to tx)"
    by (simp add: entry_or_def balance_of_def empty_account_def split: option.split)
  show thesis
  proof (cases "checked_add (acc_balance ?r) (tx_amount tx)")
    case None
    then have big: "2 ^ 64 \<le> unat (balance_of st (tx_to tx)) + unat (tx_amount tx)"
      by (simp add: checked_simps bal)
    have "unat (tx_amount tx) < 2 ^ 64"
      by (rule order_less_le_trans[OF unsigned_less]) simp
    with big have "balance_of st (tx_to tx) \<noteq> 0"
      by auto
    then obtain acc where "fmlookup (st_accounts st) (tx_to tx) = Some acc"
      by (auto simp: balance_of_def split: option.splits)
    then have "fmupd (tx_to tx) ?r (st_accounts st) = st_accounts st"
      by (intro fmap_ext) (auto simp: entry_or_def)
    with None big show thesis
      by (intro overflow) (simp_all add: apply_coinbase_def Let_def)
  next
    case (Some b)
    then have b: "unat b = unat (acc_balance ?r) + unat (tx_amount tx)"
      by (rule unat_checked_add)
    show thesis
      by (rule credited[of b])
        (use Some b entry_credit_total(2)[OF refl b] in
          \<open>simp_all add: apply_coinbase_def total_balance_def bal Let_def\<close>)
  qed
qed

text \<open>
  The effect of an accepted transaction on every account, read in the integers: no balance
  wraps around. A coinbase credits its receiver; any other transaction debits the sender by
  amount and fee, counts its nonce up and credits the receiver, in this order, so a payment
  to oneself costs the fee.
\<close>

definition debit_of :: "transaction \<Rightarrow> string \<Rightarrow> nat" where
  "debit_of tx a =
     (if \<not> tx_coinbase tx \<and> a = tx_from tx then unat (tx_amount tx) + unat (tx_fee tx) else 0)"

definition credit_of :: "transaction \<Rightarrow> string \<Rightarrow> nat" where
  "credit_of tx a = (if a = tx_to tx then unat (tx_amount tx) else 0)"

definition transaction_effect :: "state \<Rightarrow> transaction \<Rightarrow> state \<Rightarrow> bool" where
  "transaction_effect st tx st' \<longleftrightarrow>
     (\<forall>a. debit_of tx a \<le> unat (balance_of st a) \<and>
          unat (balance_of st' a) = unat (balance_of st a) - debit_of tx a + credit_of tx a) \<and>
     (\<forall>a. nonce_of st' a =
          (if \<not> tx_coinbase tx \<and> a = tx_from tx then nonce_of st a + 1 else nonce_of st a)) \<and>
     st_treasury_balance st' = st_treasury_balance st \<and> st_burned_amount st' = st_burned_amount st"

lemma balance_of_upd:
  "balance_of (st\<lparr>st_accounts := fmupd k acc m\<rparr>) a =
     (if a = k then acc_balance acc else balance_of (st\<lparr>st_accounts := m\<rparr>) a)"
  "nonce_of (st\<lparr>st_accounts := fmupd k acc m\<rparr>) a =
     (if a = k then acc_nonce acc else nonce_of (st\<lparr>st_accounts := m\<rparr>) a)"
  by (simp_all add: balance_of_def nonce_of_def)

lemma entry_or_fields:
  "acc_balance (entry_or k empty_account m) = balance_of (st\<lparr>st_accounts := m\<rparr>) k"
  "acc_nonce (entry_or k empty_account m) = nonce_of (st\<lparr>st_accounts := m\<rparr>) k"
  by (simp_all add: entry_or_def balance_of_def nonce_of_def empty_account_def split: option.split)

text \<open>What \<open>apply_transfer\<close> does once its guards hold.\<close>

lemma apply_transfer_cases:
  assumes sender: "fmlookup (st_accounts st) (tx_from tx) = Some sender"
    and cost: "checked_add (tx_amount tx) (tx_fee tx) = Some c" "c \<le> acc_balance sender"
    and normal: "\<not> tx_coinbase tx"
  obtains (moved) st' where
      "apply_transfer st tx sender c = (st', Inr ())"
      "receiver_balance st tx + unat (tx_amount tx) < 2 ^ 64"
      "transaction_effect st tx st'"
      "total_balance st' + unat (tx_fee tx) = total_balance st"
  | (overflow) st' where
      "apply_transfer st tx sender c = (st', Inl (State_error Receiver_balance_overflow))"
      "2 ^ 64 \<le> receiver_balance st tx + unat (tx_amount tx)"
proof -
  let ?deb = "sender\<lparr>acc_balance := acc_balance sender - c, acc_nonce := acc_nonce sender + 1\<rparr>"
  let ?m1 = "fmupd (tx_from tx) ?deb (st_accounts st)"
  let ?r = "entry_or (tx_to tx) empty_account ?m1"
  have c: "unat c = unat (tx_amount tx) + unat (tx_fee tx)"
    using cost(1) by (rule unat_checked_add)
  have from_bal: "balance_of st (tx_from tx) = acc_balance sender"
    and from_nonce: "nonce_of st (tx_from tx) = acc_nonce sender"
    using sender by (simp_all add: balance_of_def nonce_of_def)
  have le: "unat c \<le> unat (acc_balance sender)"
    using cost(2) by (simp add: word_le_nat_alt)
  have deb: "unat (acc_balance sender - c) = unat (acc_balance sender) - unat c"
    using cost(2) by (rule unat_sub)
  have r: "unat (acc_balance ?r) = receiver_balance st tx"
    using deb c by (simp add: entry_or_fields(1)[where st = st] balance_of_upd receiver_balance_def
        from_bal)
  have total1: "fm_sum (\<lambda>a. unat (acc_balance a)) ?m1 + unat c = total_balance st"
    using fm_sum_upd[of "\<lambda>a. unat (acc_balance a)" "tx_from tx" ?deb "st_accounts st"] sender deb le
    by (simp add: total_balance_def)
  show thesis
  proof (cases "checked_add (acc_balance ?r) (tx_amount tx)")
    case None
    then have "2 ^ 64 \<le> receiver_balance st tx + unat (tx_amount tx)"
      by (simp add: checked_simps r)
    with None show thesis
      by (intro overflow) (simp_all add: apply_transfer_def Let_def)
  next
    case (Some b)
    then have b: "unat b = unat (acc_balance ?r) + unat (tx_amount tx)"
      by (rule unat_checked_add)
    have fits: "unat (acc_balance ?r) + unat (tx_amount tx) < 2 ^ 64"
      using checked_add_fits[OF Some] by simp
    let ?st = "st\<lparr>st_accounts := fmupd (tx_to tx) (?r\<lparr>acc_balance := b\<rparr>) (fmupd (tx_to tx) ?r ?m1)\<rparr>"
    have "total_balance ?st = fm_sum (\<lambda>a. unat (acc_balance a)) ?m1 + unat (tx_amount tx)"
      using entry_credit_total(2)[OF refl b] by (simp add: total_balance_def)
    then have total: "total_balance ?st + unat (tx_fee tx) = total_balance st"
      using total1 c by simp
    have "transaction_effect st tx ?st"
      using normal b r deb c le from_bal from_nonce
      by (cases "tx_to tx = tx_from tx")
        (simp_all add: transaction_effect_def balance_of_upd entry_or_fields(2)[where st = st]
          debit_of_def credit_of_def receiver_balance_def)
    with Some total r fits show thesis
      by (intro moved[of ?st]) (simp_all add: apply_transfer_def Let_def)
  qed
qed

text \<open>Which transactions are accepted, and the sum of all balances.\<close>

definition accepts :: "state \<Rightarrow> transaction \<Rightarrow> bool" where
  "accepts st tx \<longleftrightarrow>
     (if tx_coinbase tx then unat (balance_of st (tx_to tx)) + unat (tx_amount tx) < 2 ^ 64
      else fmlookup (st_accounts st) (tx_from tx) \<noteq> None \<and>
        unat (tx_amount tx) + unat (tx_fee tx) \<le> unat (balance_of st (tx_from tx)) \<and>
        nonce_of st (tx_from tx) = tx_nonce tx \<and>
        receiver_balance st tx + unat (tx_amount tx) < 2 ^ 64)"

lemma cost_fits:
  assumes "unat (tx_amount tx) + unat (tx_fee tx) \<le> unat (b :: u64)"
  shows "\<exists>c. checked_add (tx_amount tx) (tx_fee tx) = Some c \<and> c \<le> b"
proof -
  have "unat b < 2 ^ LENGTH(64)"
    by (rule unsigned_less)
  then have "checked_add (tx_amount tx) (tx_fee tx) = Some (tx_amount tx + tx_fee tx)"
    using assms by (simp add: checked_add_def)
  then show ?thesis
    using assms unat_checked_add by (fastforce simp: word_le_nat_alt)
qed

lemma apply_transaction_accepted:
  assumes "apply_transaction st tx = (st', Inr ())"
  shows "accepts st tx" and "transaction_effect st tx st'"
    and "total_balance st' + (if tx_coinbase tx then 0 else unat (tx_fee tx)) =
      total_balance st + (if tx_coinbase tx then unat (tx_amount tx) else 0)"
proof -
  have "accepts st tx \<and> transaction_effect st tx st' \<and>
    total_balance st' + (if tx_coinbase tx then 0 else unat (tx_fee tx)) =
      total_balance st + (if tx_coinbase tx then unat (tx_amount tx) else 0)"
  proof (cases "tx_coinbase tx")
    case True
    then have app: "apply_coinbase st tx = (st', Inr ())"
      using assms by (simp add: apply_transaction_def)
    show ?thesis
    proof (cases st tx rule: apply_coinbase_cases)
      case (credited b)
      have "unat b < 2 ^ LENGTH(64)"
        by (rule unsigned_less)
      with credited app True show ?thesis
        by (auto simp: accepts_def transaction_effect_def debit_of_def credit_of_def balance_of_upd
            entry_or_fields(2)[where st = st])
    next
      case overflow
      with app show ?thesis by simp
    qed
  next
    case False
    then obtain sender c where
      sender: "fmlookup (st_accounts st) (tx_from tx) = Some sender"
      and cost: "checked_add (tx_amount tx) (tx_fee tx) = Some c" "c \<le> acc_balance sender"
      and nonce: "acc_nonce sender = tx_nonce tx"
      and app: "apply_transfer st tx sender c = (st', Inr ())"
      using assms by (auto simp: apply_transaction_def not_less split: option.splits if_splits)
    have "unat (tx_amount tx) + unat (tx_fee tx) \<le> unat (acc_balance sender)"
      using cost unat_checked_add[OF cost(1)] by (simp add: word_le_nat_alt)
    then have guards: "unat (tx_amount tx) + unat (tx_fee tx) \<le> unat (balance_of st (tx_from tx))"
      "nonce_of st (tx_from tx) = tx_nonce tx"
      using sender nonce by (simp_all add: balance_of_def nonce_of_def)
    show ?thesis
    proof (cases rule: apply_transfer_cases[OF sender cost False])
      case (1 st1)
      with app guards sender False show ?thesis
        by (auto simp: accepts_def)
    next
      case 2
      with app show ?thesis by simp
    qed
  qed
  then show "accepts st tx" and "transaction_effect st tx st'"
    and "total_balance st' + (if tx_coinbase tx then 0 else unat (tx_fee tx)) =
      total_balance st + (if tx_coinbase tx then unat (tx_amount tx) else 0)"
    by blast+
qed

lemma accepts_applies:
  assumes "accepts st tx"
  shows "\<exists>st'. apply_transaction st tx = (st', Inr ())"
proof (cases "tx_coinbase tx")
  case True
  show ?thesis
  proof (cases st tx rule: apply_coinbase_cases)
    case (credited b)
    then show ?thesis using True by (auto simp: apply_transaction_def)
  next
    case overflow
    then show ?thesis using True assms by (simp add: accepts_def)
  qed
next
  case False
  then obtain sender where sender: "fmlookup (st_accounts st) (tx_from tx) = Some sender"
    using assms by (auto simp: accepts_def)
  then have bal: "unat (tx_amount tx) + unat (tx_fee tx) \<le> unat (acc_balance sender)"
    and nonce: "acc_nonce sender = tx_nonce tx"
    using assms False by (simp_all add: accepts_def balance_of_def nonce_of_def)
  obtain c where cost: "checked_add (tx_amount tx) (tx_fee tx) = Some c" "c \<le> acc_balance sender"
    using cost_fits[OF bal] by blast
  then have app: "apply_transaction st tx = apply_transfer st tx sender c"
    using False sender nonce by (auto simp: apply_transaction_def)
  show ?thesis
  proof (cases rule: apply_transfer_cases[OF sender cost False])
    case (1 st1)
    then show ?thesis using app by simp
  next
    case (2 st1)
    then show ?thesis using assms False by (simp add: accepts_def)
  qed
qed

lemma apply_transaction_iff: "(\<exists>st'. apply_transaction st tx = (st', Inr ())) \<longleftrightarrow> accepts st tx"
  using accepts_applies apply_transaction_accepted(1) by blast

text \<open>
  With less than \<open>2 ^ 64\<close> in all accounts together no credit can overflow, so every rejection
  happens before the first write.
\<close>

lemma receiver_credit_fits:
  assumes "total_balance st < 2 ^ 64" and "\<not> tx_coinbase tx"
    and "fmlookup (st_accounts st) (tx_from tx) = Some sender"
    and "unat (tx_amount tx) + unat (tx_fee tx) \<le> unat (acc_balance sender)"
  shows "receiver_balance st tx + unat (tx_amount tx) < 2 ^ 64"
proof (cases "tx_to tx = tx_from tx")
  case True
  have "unat (balance_of st (tx_from tx)) < 2 ^ 64"
    using balance_of_le_total assms(1) by (rule order_le_less_trans)
  then show ?thesis
    using True assms(3,4) by (simp add: receiver_balance_def balance_of_def)
next
  case False
  let ?f = "\<lambda>a. unat (acc_balance a)" and ?m = "st_accounts st"
  have rest: "total_balance st = ?f sender +
      (\<Sum>j\<in>fset (fmdom ?m) - {tx_from tx}. ?f (the (fmlookup ?m j)))"
    using fm_sum_remove[OF assms(3), of ?f] by (simp add: total_balance_def)
  have "unat (balance_of st (tx_to tx)) \<le>
      (\<Sum>j\<in>fset (fmdom ?m) - {tx_from tx}. ?f (the (fmlookup ?m j)))"
  proof (cases "fmlookup ?m (tx_to tx)")
    case None
    then show ?thesis by (simp add: balance_of_def)
  next
    case (Some r)
    then have "tx_to tx \<in> fset (fmdom ?m) - {tx_from tx}"
      using False by (simp add: fmdomI)
    then have "?f (the (fmlookup ?m (tx_to tx))) \<le>
        (\<Sum>j\<in>fset (fmdom ?m) - {tx_from tx}. ?f (the (fmlookup ?m j)))"
      by (rule member_le_sum) simp_all
    with Some show ?thesis by (simp add: balance_of_def)
  qed
  then show ?thesis
    using False rest assms(1,4) by (simp add: receiver_balance_def)
qed

lemma apply_transaction_rejected_same:
  assumes "total_balance st < 2 ^ 64" and "apply_transaction st tx = (st', Inl e)"
  shows "st' = st"
proof (cases "tx_coinbase tx")
  case True
  show ?thesis
    by (cases st tx rule: apply_coinbase_cases)
      (use assms(2) True in \<open>auto simp: apply_transaction_def\<close>)
next
  case False
  show ?thesis
  proof (rule ccontr)
    assume "st' \<noteq> st"
    then obtain sender c where sender: "fmlookup (st_accounts st) (tx_from tx) = Some sender"
      and cost: "checked_add (tx_amount tx) (tx_fee tx) = Some c" "c \<le> acc_balance sender"
      and app: "apply_transfer st tx sender c = (st', Inl e)"
      using assms(2) False by (auto simp: apply_transaction_def not_less split: option.splits if_splits)
    have "unat (tx_amount tx) + unat (tx_fee tx) \<le> unat (acc_balance sender)"
      using cost(2) unat_checked_add[OF cost(1)] by (simp add: word_le_nat_alt)
    then have "receiver_balance st tx + unat (tx_amount tx) < 2 ^ 64"
      by (rule receiver_credit_fits[OF assms(1) False sender])
    then show False
      by (cases rule: apply_transfer_cases[OF sender cost False]) (use app in auto)
  qed
qed

section \<open>The state as a ledger\<close>

definition tx_minted :: "transaction \<Rightarrow> nat" where
  "tx_minted tx = (if tx_coinbase tx then unat (tx_amount tx) else 0)"

definition tx_paid :: "transaction \<Rightarrow> nat" where
  "tx_paid tx = (if tx_coinbase tx then 0 else unat (tx_fee tx))"

definition tx_sender :: "transaction \<Rightarrow> string option" where
  "tx_sender tx = (if tx_coinbase tx then None else Some (tx_from tx))"

interpretation bank: sequenced_ledger apply_transaction total_balance tx_minted tx_paid "2 ^ 64"
  nonce_of tx_sender tx_nonce
proof
  show "total_balance s' + tx_paid t = total_balance s + tx_minted t"
    if "apply_transaction s t = (s', Inr ())" for s t s'
    using apply_transaction_accepted(3)[OF that] by (simp add: tx_paid_def tx_minted_def split: if_splits)
  show "s' = s" if "total_balance s < 2 ^ 64" "apply_transaction s t = (s', Inl e)" for s t s' e
    using that by (rule apply_transaction_rejected_same)
  show "nonce_of s k = tx_nonce t"
    if "apply_transaction s t = (s', Inr ())" "tx_sender t = Some k" for s t s' k
    using apply_transaction_accepted(1)[OF that(1)] that(2)
    by (auto simp: accepts_def tx_sender_def split: if_splits)
  show "nonce_of s' k = (if tx_sender t = Some k then nonce_of s k + 1 else nonce_of s k)"
    if "apply_transaction s t = (s', Inr ())" for s t s' k
    using apply_transaction_accepted(2)[OF that] by (auto simp: transaction_effect_def tx_sender_def)
qed

lemma replay_ordinary_funds:
  assumes "replay apply_transaction st txs = Inr st'" and "list_all (\<lambda>tx. \<not> tx_coinbase tx) txs"
  shows "total_balance st' + sum_list (map (\<lambda>tx. unat (tx_fee tx)) txs) = total_balance st"
proof -
  have "map tx_paid txs = map (\<lambda>tx. unat (tx_fee tx)) txs \<and> sum_list (map tx_minted txs) = 0"
    using assms(2) by (induction txs) (simp_all add: tx_paid_def tx_minted_def)
  then show ?thesis
    using bank.replay_funds[OF assms(1)] by (simp only: add_0_right)
qed

lemma replay_treasury:
  assumes "replay apply_transaction st txs = Inr st'"
  shows "st_treasury_balance st' = st_treasury_balance st \<and> st_burned_amount st' = st_burned_amount st"
  by (rule try_fold_invariant[OF assms])
    (auto simp: keep_ok_Inr transaction_effect_def dest!: apply_transaction_accepted(2))

end
