(* ===== verification/Mempool.thy ===== *)
theory Mempool
  imports State
begin

text \<open>
  \<open>src/chain/mempool.rs\<close>: the pool of pending transactions. The lemmas give the condition for
  admission, the invariant of the pool (size, distinct identifiers, distinct pairs of sender and
  nonce, every entry signed by its sender), the meaning of \<open>next_nonce\<close> and \<open>pending_cost\<close>, and
  the contract of \<open>take_valid_transactions\<close>: what it returns can be applied in this order, and
  the pool keeps the rest.
\<close>

record mempool =
  mp_transactions :: "transaction list"

definition mempool_new :: mempool where
  "mempool_new = \<lparr>mp_transactions = []\<rparr>"

definition has_valid_protocol_format :: "transaction \<Rightarrow> bool" where
  "has_valid_protocol_format tx =
     (if \<not> is_fixed_hex (tx_id tx) HASH_HEX_LENGTH then False
      else if \<not> is_fixed_hex (tx_from tx) ADDRESS_HEX_LENGTH then False
      else if \<not> is_fixed_hex (tx_to tx) ADDRESS_HEX_LENGTH then False
      else if \<not> is_fixed_hex (tx_public_key tx) PUBLIC_KEY_HEX_LENGTH then False
      else case tx_signature tx of
             None \<Rightarrow> False
           | Some signature \<Rightarrow>
               if \<not> is_fixed_hex signature SIGNATURE_HEX_LENGTH then False else True)"

definition mempool_add :: "crypto \<Rightarrow> mempool \<Rightarrow> transaction \<Rightarrow> mempool \<times> bool" where
  "mempool_add cr mp tx =
     (if length (mp_transactions mp) \<ge> MAX_MEMPOOL_TRANSACTIONS then (mp, False)
      else if tx_coinbase tx then (mp, False)
      else if tx_from tx = SYSTEM_ADDRESS then (mp, False)
      else if tx_amount tx = 0 then (mp, False)
      else if tx_reward_marker tx \<noteq> 0 then (mp, False)
      else if \<not> has_valid_protocol_format tx then (mp, False)
      else if tx_id tx \<noteq> calculate_id cr tx then (mp, False)
      else if \<not> tx_is_signed tx then (mp, False)
      else case tx_signature tx of None \<Rightarrow> (mp, False) | Some signature \<Rightarrow>
          (case address_from_public_key cr (tx_public_key tx) of None \<Rightarrow> (mp, False)
           | Some derived \<Rightarrow>
               if derived \<noteq> tx_from tx then (mp, False)
               else if \<not> wallet_verify cr (tx_public_key tx) (tx_message tx) signature
               then (mp, False)
               else if list_ex (\<lambda>existing. tx_id existing = tx_id tx) (mp_transactions mp)
               then (mp, False)
               else if list_ex (\<lambda>existing. tx_from existing = tx_from tx \<and>
                                  tx_nonce existing = tx_nonce tx) (mp_transactions mp)
               then (mp, False)
               else (mp\<lparr>mp_transactions := mp_transactions mp @ [tx]\<rparr>, True)))"

definition pending_for_sender :: "mempool \<Rightarrow> string \<Rightarrow> transaction list" where
  "pending_for_sender mp address =
     sort_key tx_nonce (filter (\<lambda>tx. tx_from tx = address) (mp_transactions mp))"

fun next_nonce_loop :: "u64 \<Rightarrow> transaction list \<Rightarrow> u64 result" where
  "next_nonce_loop expected [] = Inr expected"
| "next_nonce_loop expected (tx # txs) =
     (if tx_nonce tx < expected then next_nonce_loop expected txs
      else if tx_nonce tx > expected then Inr expected
      else and_then (ok_or (checked_add expected 1) (Mempool_error Nonce_overflow))
             (\<lambda>expected. next_nonce_loop expected txs))"

definition next_nonce :: "mempool \<Rightarrow> string \<Rightarrow> u64 \<Rightarrow> u64 result" where
  "next_nonce mp address state_nonce = next_nonce_loop state_nonce (pending_for_sender mp address)"

definition add_cost :: "u64 \<Rightarrow> transaction \<Rightarrow> u64 result" where
  "add_cost acc tx =
     and_then (ok_or (checked_add (tx_amount tx) (tx_fee tx)) (Mempool_error Transaction_cost_overflow))
       (\<lambda>cost. ok_or (checked_add acc cost) (Mempool_error Mempool_total_cost_overflow))"

definition pending_cost :: "mempool \<Rightarrow> string \<Rightarrow> u64 result" where
  "pending_cost mp address =
     try_fold add_cost 0 (filter (\<lambda>tx. tx_from tx = address) (mp_transactions mp))"

text \<open>
  The inner loop of \<open>take_valid_transactions\<close>, one pass over the pending transactions, with the
  four variables it changes.
\<close>

fun take_pass ::
  "state \<Rightarrow> transaction list \<Rightarrow> transaction list \<Rightarrow> bool \<Rightarrow> transaction list \<Rightarrow>
   state \<times> transaction list \<times> transaction list \<times> bool" where
  "take_pass temporary_state valid next_pending progress [] =
     (temporary_state, valid, next_pending, progress)"
| "take_pass temporary_state valid next_pending progress (tx # pending) =
     (if length valid \<ge> MAX_NORMAL_TRANSACTIONS_PER_BLOCK
      then take_pass temporary_state valid (next_pending @ [tx]) progress pending
      else case apply_transaction temporary_state tx of
             (s, Inr _) \<Rightarrow> take_pass s (valid @ [tx]) next_pending True pending
           | (s, Inl _) \<Rightarrow> take_pass s valid (next_pending @ [tx]) progress pending)"

lemma take_pass_mset:
  "take_pass s valid nxt b pending = (s', valid', nxt', b') \<Longrightarrow>
     mset valid' + mset nxt' = mset valid + mset nxt + mset pending"
proof (induction pending arbitrary: s valid nxt b)
  case Nil
  then show ?case by simp
next
  case (Cons tx pending)
  then show ?case
    by (fastforce split: if_splits prod.splits sum.splits)
qed

lemma take_pass_length:
  "take_pass s valid nxt b pending = (s', valid', nxt', b') \<Longrightarrow> length valid \<le> length valid'"
proof (induction pending arbitrary: s valid nxt b)
  case Nil
  then show ?case by simp
next
  case (Cons tx pending)
  then show ?case
    by (fastforce dest: Suc_leD split: if_splits prod.splits sum.splits)
qed

lemma take_pass_progress:
  "take_pass s valid nxt b pending = (s', valid', nxt', b') \<Longrightarrow> b' \<Longrightarrow>
     b \<or> length valid < length valid'"
proof (induction pending arbitrary: s valid nxt b)
  case Nil
  then show ?case by simp
next
  case (Cons tx pending)
  show ?case
    using Cons by (auto split: if_splits prod.splits sum.splits dest!: take_pass_length)
qed

lemma take_pass_shrinks:
  assumes "take_pass s valid [] False pending = (s', valid', next_pending, progress)" and progress
  shows "length next_pending < length pending"
proof -
  have "length valid' + length next_pending = length valid + length pending"
    using arg_cong[OF take_pass_mset[OF assms(1)], of size] by simp
  moreover have "length valid < length valid'"
    using take_pass_progress[OF assms] by simp
  ultimately show ?thesis
    by simp
qed

text \<open>
  The outer loop: the accepted transactions and what stays in the pool. Each round accepts one
  at least, so the pending list gets shorter.
\<close>

function take_loop ::
  "state \<Rightarrow> transaction list \<Rightarrow> transaction list \<Rightarrow> state \<times> transaction list \<times> transaction list" where
  "take_loop temporary_state valid pending =
     (if pending = [] then (temporary_state, valid, [])
      else case take_pass temporary_state valid [] False pending of
             (s, valid', next_pending, progress) \<Rightarrow>
               if length valid' \<ge> MAX_NORMAL_TRANSACTIONS_PER_BLOCK then (s, valid', next_pending)
               else if \<not> progress then (s, valid', next_pending)
               else take_loop s valid' next_pending)"
  by pat_completeness auto

termination take_loop
  by (relation "measure (\<lambda>(_, _, pending). length pending)") (auto dest: take_pass_shrinks[OF sym])

declare take_loop.simps [simp del]

definition take_valid_transactions :: "mempool \<Rightarrow> state \<Rightarrow> mempool \<times> transaction list" where
  "take_valid_transactions mp st =
     (case take_loop st [] (mp_transactions mp) of
        (_, valid, remaining) \<Rightarrow> (mp\<lparr>mp_transactions := remaining\<rparr>, valid))"

definition mempool_len :: "mempool \<Rightarrow> nat" where
  "mempool_len mp = length (mp_transactions mp)"

definition mempool_is_empty :: "mempool \<Rightarrow> bool" where
  "mempool_is_empty mp \<longleftrightarrow> mp_transactions mp = []"

section \<open>Admission and the invariant of the pool\<close>

definition tx_authentic :: "crypto \<Rightarrow> transaction \<Rightarrow> bool" where
  "tx_authentic cr tx \<longleftrightarrow>
     \<not> tx_coinbase tx \<and> tx_amount tx \<noteq> 0 \<and> tx_reward_marker tx = 0 \<and>
     is_fixed_hex (tx_id tx) HASH_HEX_LENGTH \<and> is_fixed_hex (tx_from tx) ADDRESS_HEX_LENGTH \<and>
     is_fixed_hex (tx_to tx) ADDRESS_HEX_LENGTH \<and>
     is_fixed_hex (tx_public_key tx) PUBLIC_KEY_HEX_LENGTH \<and>
     tx_id tx = calculate_id cr tx \<and>
     address_from_public_key cr (tx_public_key tx) = Some (tx_from tx) \<and>
     (case tx_signature tx of None \<Rightarrow> False
      | Some signature \<Rightarrow> is_fixed_hex signature SIGNATURE_HEX_LENGTH \<and>
          wallet_verify cr (tx_public_key tx) (tx_message tx) signature)"

definition mempool_wf :: "crypto \<Rightarrow> mempool \<Rightarrow> bool" where
  "mempool_wf cr mp \<longleftrightarrow>
     length (mp_transactions mp) \<le> MAX_MEMPOOL_TRANSACTIONS \<and>
     list_all (tx_authentic cr) (mp_transactions mp) \<and>
     distinct (map tx_id (mp_transactions mp)) \<and>
     distinct (map (\<lambda>tx. (tx_from tx, tx_nonce tx)) (mp_transactions mp))"

lemma tx_authentic_sender: "tx_authentic cr tx \<Longrightarrow> tx_from tx \<noteq> SYSTEM_ADDRESS"
  unfolding tx_authentic_def using system_address_not_hex by metis

lemma pool_clash:
  "list_ex (\<lambda>existing. tx_id existing = tx_id tx) txs \<longleftrightarrow> tx_id tx \<in> tx_id ` set txs"
  "list_ex (\<lambda>existing. tx_from existing = tx_from tx \<and> tx_nonce existing = tx_nonce tx) txs \<longleftrightarrow>
     (tx_from tx, tx_nonce tx) \<in> (\<lambda>tx. (tx_from tx, tx_nonce tx)) ` set txs"
  by (force simp: list_ex_iff)+

lemma mempool_add_iff:
  "mempool_add cr mp tx = (mp', True) \<longleftrightarrow>
     length (mp_transactions mp) < MAX_MEMPOOL_TRANSACTIONS \<and> tx_authentic cr tx \<and>
     tx_id tx \<notin> tx_id ` set (mp_transactions mp) \<and>
     (tx_from tx, tx_nonce tx) \<notin> (\<lambda>tx. (tx_from tx, tx_nonce tx)) ` set (mp_transactions mp) \<and>
     mp' = mp\<lparr>mp_transactions := mp_transactions mp @ [tx]\<rparr>"
  (is "?l \<longleftrightarrow> ?r")
proof
  assume ?l
  then show ?r
    unfolding mempool_add_def has_valid_protocol_format_def tx_authentic_def pool_clash
    by (simp split: if_splits option.splits)
next
  assume r: ?r
  then have "tx_from tx \<noteq> SYSTEM_ADDRESS"
    using tx_authentic_sender by blast
  moreover obtain s where "tx_signature tx = Some s"
    using r by (auto simp: tx_authentic_def split: option.splits)
  ultimately show ?l
    using r unfolding mempool_add_def has_valid_protocol_format_def tx_authentic_def pool_clash
    by (elim conjE) (simp add: tx_is_signed_def)
qed

lemma mempool_add_rejected: "mempool_add cr mp tx = (mp', False) \<Longrightarrow> mp' = mp"
  by (auto simp: mempool_add_def split: if_splits option.splits)

lemma mempool_new_wf [simp]: "mempool_wf cr mempool_new"
  by (simp add: mempool_wf_def mempool_new_def)

lemma mempool_add_wf:
  assumes "mempool_wf cr mp" and add: "mempool_add cr mp tx = (mp', ok)"
  shows "mempool_wf cr mp'"
proof (cases ok)
  case True
  then show ?thesis
    using assms mempool_add_iff[of cr mp tx mp'] by (auto simp: mempool_wf_def)
next
  case False
  then have "mp' = mp"
    using add mempool_add_rejected by simp
  with assms(1) show ?thesis by simp
qed

text \<open>Any selection from the pool is again a pool in this sense.\<close>

lemma distinct_map_mset_subset:
  assumes "distinct (map f xs)" and "mset ys \<subseteq># mset xs"
  shows "distinct (map f ys)"
proof -
  obtain zs where "mset xs = mset ys + mset zs"
    using assms(2) by (metis mset_subset_eq_exists_conv ex_mset)
  then have "mset (map f xs) = mset (map f (ys @ zs))"
    by simp
  then have "distinct (map f (ys @ zs))"
    using assms(1) mset_eq_imp_distinct_iff by blast
  then show ?thesis
    by simp
qed

lemma mempool_wf_subset:
  assumes "mempool_wf cr mp" and "mset (mp_transactions mp') \<subseteq># mset (mp_transactions mp)"
  shows "mempool_wf cr mp'"
proof -
  have "length (mp_transactions mp') \<le> length (mp_transactions mp)"
    using size_mset_mono[OF assms(2)] by simp
  moreover have "set (mp_transactions mp') \<subseteq> set (mp_transactions mp)"
    using set_mset_mono[OF assms(2)] by simp
  moreover have "distinct (map tx_id (mp_transactions mp'))"
    "distinct (map (\<lambda>tx. (tx_from tx, tx_nonce tx)) (mp_transactions mp'))"
    using assms(1) by (auto simp: mempool_wf_def intro: distinct_map_mset_subset[OF _ assms(2)])
  ultimately show ?thesis
    using assms(1) by (auto simp: mempool_wf_def list_all_iff)
qed

section \<open>\<open>next_nonce\<close> and \<open>pending_cost\<close>\<close>

lemma next_nonce_loop_Inr:
  assumes "sorted (map tx_nonce txs)" and "next_nonce_loop e txs = Inr m"
  shows "e \<le> m \<and> m \<notin> tx_nonce ` set txs \<and> (\<forall>k. e \<le> k \<and> k < m \<longrightarrow> k \<in> tx_nonce ` set txs)"
  using assms
proof (induction txs arbitrary: e)
  case Nil
  then show ?case by auto
next
  case (Cons tx txs)
  then have sorted: "sorted (map tx_nonce txs)" and ge: "\<forall>t\<in>set txs. tx_nonce tx \<le> tx_nonce t"
    by auto
  consider "tx_nonce tx < e" | "e < tx_nonce tx" | "tx_nonce tx = e"
    by fastforce
  then show ?case
  proof cases
    case 1
    then have "next_nonce_loop e txs = Inr m"
      using Cons.prems(2) by simp
    from Cons.IH[OF sorted this] 1 show ?thesis by auto
  next
    case 2
    then have "\<not> tx_nonce tx < e"
      by (rule order_less_not_sym)
    with 2 have "m = e"
      using Cons.prems(2) by (simp only: next_nonce_loop.simps if_False if_True simp_thms sum.inject)
    then show ?thesis
      using 2 ge by fastforce
  next
    case 3
    then obtain e' where e': "checked_add e 1 = Some e'" and loop: "next_nonce_loop e' txs = Inr m"
      using Cons.prems(2) by (auto simp: result_simps)
    have suc: "unat e' = unat e + 1"
      using unat_checked_add[OF e'] by simp
    have between: "e' \<le> k \<or> k = e" if "e \<le> k" for k
      using that suc by (auto simp: word_le_nat_alt word_unat_eq_iff)
    have "e \<le> e'" "m \<noteq> e" if "e' \<le> m"
      using that suc by (auto simp: word_le_nat_alt)
    with Cons.IH[OF sorted loop] between 3 show ?thesis
      by (auto intro: order_trans)
  qed
qed

lemma next_nonce_loop_Inl:
  assumes "sorted (map tx_nonce txs)" and "next_nonce_loop e txs = Inl err"
  shows "err = Mempool_error Nonce_overflow \<and> (\<forall>k\<ge>e. k \<in> tx_nonce ` set txs)"
  using assms
proof (induction txs arbitrary: e)
  case Nil
  then show ?case by simp
next
  case (Cons tx txs)
  then have sorted: "sorted (map tx_nonce txs)"
    by simp
  show ?case
  proof (cases "tx_nonce tx < e")
    case True
    then have "next_nonce_loop e txs = Inl err"
      using Cons.prems(2) by simp
    from Cons.IH[OF sorted this] True show ?thesis by auto
  next
    case False
    then have eq: "tx_nonce tx = e"
      using Cons.prems(2) by (auto split: if_splits)
    show ?thesis
    proof (cases "checked_add e 1")
      case None
      then have "2 ^ 64 \<le> unat e + 1"
        by (simp add: checked_simps)
      then have "k = e" if "e \<le> k" for k
        using that unsigned_less[of k, where 'a = nat] by (simp add: word_le_nat_alt word_unat_eq_iff)
      with None eq Cons.prems(2) show ?thesis by auto
    next
      case (Some e')
      then have suc: "unat e' = unat e + 1"
        using unat_checked_add by fastforce
      have between: "e' \<le> k \<or> k = e" if "e \<le> k" for k
        using that suc by (auto simp: word_le_nat_alt word_unat_eq_iff)
      have "next_nonce_loop e' txs = Inl err"
        using Cons.prems(2) eq Some by simp
      from Cons.IH[OF sorted this] between eq show ?thesis by auto
    qed
  qed
qed

lemma pending_for_sender_set [simp]:
  "set (pending_for_sender mp a) = {tx \<in> set (mp_transactions mp). tx_from tx = a}"
  "sorted (map tx_nonce (pending_for_sender mp a))"
  by (auto simp: pending_for_sender_def)

text \<open>The nonces a sender has in the pool.\<close>

definition pending_nonces :: "mempool \<Rightarrow> string \<Rightarrow> u64 set" where
  "pending_nonces mp a = {tx_nonce tx |tx. tx \<in> set (mp_transactions mp) \<and> tx_from tx = a}"

lemma pending_nonces_image: "pending_nonces mp a = tx_nonce ` set (pending_for_sender mp a)"
  by (auto simp: pending_nonces_def)

lemma next_nonce_Inr_iff:
  "next_nonce mp a n = Inr m \<longleftrightarrow>
     n \<le> m \<and> m \<notin> pending_nonces mp a \<and> (\<forall>k. n \<le> k \<and> k < m \<longrightarrow> k \<in> pending_nonces mp a)"
  (is "_ \<longleftrightarrow> ?gap m")
proof
  assume "next_nonce mp a n = Inr m"
  then show "?gap m"
    using next_nonce_loop_Inr[OF pending_for_sender_set(2)]
    by (simp add: next_nonce_def pending_nonces_image)
next
  assume gap: "?gap m"
  show "next_nonce mp a n = Inr m"
  proof (cases "next_nonce mp a n")
    case (Inl err)
    then have "\<forall>k\<ge>n. k \<in> pending_nonces mp a"
      using next_nonce_loop_Inl[OF pending_for_sender_set(2)] unfolding next_nonce_def pending_nonces_image
      by blast
    with gap show ?thesis by blast
  next
    case (Inr m')
    then have "?gap m'"
      using next_nonce_loop_Inr[OF pending_for_sender_set(2)]
      by (simp add: next_nonce_def pending_nonces_image)
    with gap have "m' = m"
      by (metis linorder_neqE)
    with Inr show ?thesis by simp
  qed
qed

lemma next_nonce_Inl:
  "next_nonce mp a n = Inl err \<Longrightarrow>
     err = Mempool_error Nonce_overflow \<and> (\<forall>k\<ge>n. k \<in> pending_nonces mp a)"
  using next_nonce_loop_Inl[OF pending_for_sender_set(2)]
  by (simp add: next_nonce_def pending_nonces_image)

text \<open>What a list of transactions costs its senders, in the natural numbers.\<close>

definition cost_sum :: "transaction list \<Rightarrow> nat" where
  "cost_sum txs = sum_list (map (\<lambda>tx. unat (tx_amount tx) + unat (tx_fee tx)) txs)"

lemma add_cost_Inr: "add_cost acc tx = Inr c \<Longrightarrow> unat c = unat acc + (unat (tx_amount tx) + unat (tx_fee tx))"
  by (auto simp: add_cost_def result_simps dest!: unat_checked_add)

lemma add_cost_ok:
  assumes "unat acc + (unat (tx_amount tx) + unat (tx_fee tx)) < 2 ^ 64"
  shows "is_ok (add_cost acc tx)"
  using assms by (auto simp: add_cost_def checked_add_def unat_add_fits)

lemma try_add_cost_Inr: "try_fold add_cost acc txs = Inr c \<Longrightarrow> unat c = unat acc + cost_sum txs"
proof (induction txs arbitrary: acc)
  case Nil
  then show ?case by (simp add: cost_sum_def)
next
  case (Cons tx txs)
  then obtain a where a: "add_cost acc tx = Inr a" "try_fold add_cost a txs = Inr c"
    by (auto simp: result_simps)
  show ?case
    using Cons.IH[OF a(2)] add_cost_Inr[OF a(1)] by (simp add: cost_sum_def)
qed

lemma try_add_cost_ok: "unat acc + cost_sum txs < 2 ^ 64 \<Longrightarrow> is_ok (try_fold add_cost acc txs)"
proof (induction txs arbitrary: acc)
  case Nil
  then show ?case by simp
next
  case (Cons tx txs)
  then have "is_ok (add_cost acc tx)"
    by (intro add_cost_ok) (simp add: cost_sum_def)
  then obtain a where a: "add_cost acc tx = Inr a"
    by (auto simp: is_ok_iff)
  have "is_ok (try_fold add_cost a txs)"
    by (rule Cons.IH) (use Cons.prems add_cost_Inr[OF a] in \<open>simp add: cost_sum_def\<close>)
  with a show ?case by simp
qed

lemma pending_cost_exact:
  "pending_cost mp a = Inr c \<Longrightarrow>
     unat c = cost_sum (filter (\<lambda>tx. tx_from tx = a) (mp_transactions mp))"
  using try_add_cost_Inr by (fastforce simp: pending_cost_def)

lemma pending_cost_ok_iff:
  "is_ok (pending_cost mp a) \<longleftrightarrow> cost_sum (filter (\<lambda>tx. tx_from tx = a) (mp_transactions mp)) < 2 ^ 64"
proof
  assume "is_ok (pending_cost mp a)"
  then obtain c where "pending_cost mp a = Inr c"
    by (auto simp: is_ok_iff)
  then have "unat c = cost_sum (filter (\<lambda>tx. tx_from tx = a) (mp_transactions mp))"
    by (rule pending_cost_exact)
  then show "cost_sum (filter (\<lambda>tx. tx_from tx = a) (mp_transactions mp)) < 2 ^ 64"
    using unsigned_less[of c, where 'a = nat] by simp
next
  assume "cost_sum (filter (\<lambda>tx. tx_from tx = a) (mp_transactions mp)) < 2 ^ 64"
  then show "is_ok (pending_cost mp a)"
    unfolding pending_cost_def by (intro try_add_cost_ok) simp
qed

section \<open>The contract of \<open>take_valid_transactions\<close>\<close>

lemma ordinary_step_bound:
  assumes "total_balance s < 2 ^ 64" and "\<not> tx_coinbase tx"
  shows "total_balance (fst (apply_transaction s tx)) < 2 ^ 64"
  using bank.step_funds_le[of tx s] assms by (simp add: tx_minted_def)

lemma take_pass_replay:
  assumes "take_pass s valid nxt b pending = (s', valid', nxt', b')"
    and "total_balance s < 2 ^ 64" and "list_all (\<lambda>tx. \<not> tx_coinbase tx) pending"
  shows "\<exists>taken. valid' = valid @ taken \<and> replay apply_transaction s taken = Inr s' \<and>
    total_balance s' < 2 ^ 64"
  using assms
proof (induction pending arbitrary: s valid nxt b)
  case Nil
  then show ?case by simp
next
  case (Cons tx pending)
  obtain s1 r where step: "apply_transaction s tx = (s1, r)"
    by fastforce
  then have bound: "total_balance s1 < 2 ^ 64"
    using ordinary_step_bound[of s tx] Cons.prems(2,3) by simp
  have ordinary: "list_all (\<lambda>tx. \<not> tx_coinbase tx) pending"
    using Cons.prems(3) by simp
  consider "MAX_NORMAL_TRANSACTIONS_PER_BLOCK \<le> length valid"
    | e where "length valid < MAX_NORMAL_TRANSACTIONS_PER_BLOCK" "r = Inl e"
    | "length valid < MAX_NORMAL_TRANSACTIONS_PER_BLOCK" "r = Inr ()"
    by (cases r) fastforce+
  then show ?case
  proof cases
    case 1
    then have "take_pass s valid (nxt @ [tx]) b pending = (s', valid', nxt', b')"
      using Cons.prems(1) by simp
    then show ?thesis
      by (rule Cons.IH[OF _ Cons.prems(2) ordinary])
  next
    case 2
    then have "s1 = s"
      using apply_transaction_rejected_same[OF Cons.prems(2)] step by blast
    then have "take_pass s valid (nxt @ [tx]) b pending = (s', valid', nxt', b')"
      using Cons.prems(1) step 2 by simp
    then show ?thesis
      by (rule Cons.IH[OF _ Cons.prems(2) ordinary])
  next
    case 3
    then have "take_pass s1 (valid @ [tx]) nxt True pending = (s', valid', nxt', b')"
      using Cons.prems(1) step by simp
    then obtain taken where "valid' = (valid @ [tx]) @ taken" "replay apply_transaction s1 taken = Inr s'"
      "total_balance s' < 2 ^ 64"
      using Cons.IH[OF _ bound ordinary] by blast
    then show ?thesis
      using step 3 by (intro exI[of _ "tx # taken"]) (auto simp: result_simps)
  qed
qed

lemma take_pass_limit:
  "take_pass s valid nxt b pending = (s', valid', nxt', b') \<Longrightarrow>
     length valid \<le> MAX_NORMAL_TRANSACTIONS_PER_BLOCK \<Longrightarrow>
     length valid' \<le> MAX_NORMAL_TRANSACTIONS_PER_BLOCK"
proof (induction pending arbitrary: s valid nxt b)
  case Nil
  then show ?case by simp
next
  case (Cons tx pending)
  then show ?case
    by (fastforce simp: not_le Suc_le_eq split: if_splits prod.splits sum.splits)
qed

text \<open>A pass without progress left everything pending, rejected by an unchanged state.\<close>

lemma take_pass_stuck:
  assumes "take_pass s valid nxt b pending = (s', valid', nxt', False)"
    and "total_balance s < 2 ^ 64" and "length valid < MAX_NORMAL_TRANSACTIONS_PER_BLOCK"
  shows "s' = s \<and> nxt' = nxt @ pending \<and> (\<forall>tx\<in>set pending. \<not> accepts s tx)"
  using assms
proof (induction pending arbitrary: valid nxt b)
  case Nil
  then show ?case by simp
next
  case (Cons tx pending)
  obtain s1 r where step: "apply_transaction s tx = (s1, r)"
    by fastforce
  show ?case
  proof (cases r)
    case (Inl e)
    then have s1: "s1 = s"
      using apply_transaction_rejected_same[OF Cons.prems(2)] step by blast
    have "\<not> accepts s tx"
      using accepts_applies[of s tx] step Inl by auto
    moreover have "take_pass s valid (nxt @ [tx]) b pending = (s', valid', nxt', False)"
      using Cons.prems(1,3) step Inl s1 by simp
    ultimately show ?thesis
      using Cons.IH[OF _ Cons.prems(2,3)] by fastforce
  next
    case (Inr u)
    then have "take_pass s1 (valid @ [tx]) nxt True pending = (s', valid', nxt', False)"
      using Cons.prems(1,3) step by simp
    moreover have "b'" if "take_pass t v n True p = (t', v', n', b')" for t v n p t' v' n' b'
      using that by (induction p arbitrary: t v n) (auto split: if_splits prod.splits sum.splits)
    ultimately show ?thesis by blast
  qed
qed

lemma take_loop_contract:
  assumes "take_loop s valid pending = (s', valid', rest)"
    and "total_balance s < 2 ^ 64" and "list_all (\<lambda>tx. \<not> tx_coinbase tx) pending"
    and "length valid < MAX_NORMAL_TRANSACTIONS_PER_BLOCK"
  shows "(\<exists>taken. valid' = valid @ taken \<and> replay apply_transaction s taken = Inr s') \<and>
    mset valid' + mset rest = mset valid + mset pending \<and>
    length valid' \<le> MAX_NORMAL_TRANSACTIONS_PER_BLOCK \<and>
    (length valid' = MAX_NORMAL_TRANSACTIONS_PER_BLOCK \<or> (\<forall>tx\<in>set rest. \<not> accepts s' tx))"
  using assms
proof (induction s valid pending rule: take_loop.induct)
  case (1 s valid pending)
  show ?case
  proof (cases "pending = []")
    case True
    then have "s' = s \<and> valid' = valid \<and> rest = []"
      using "1.prems"(1) by (simp add: take_loop.simps[of s valid "[]"])
    with True "1.prems"(4) show ?thesis by simp
  next
    case False
    obtain s1 valid1 next_pending progress where
      pass: "take_pass s valid [] False pending = (s1, valid1, next_pending, progress)"
      by (metis prod_cases4)
    obtain taken where taken: "valid1 = valid @ taken" "replay apply_transaction s taken = Inr s1"
      and bound: "total_balance s1 < 2 ^ 64"
      using take_pass_replay[OF pass "1.prems"(2,3)] by blast
    have mset: "mset valid1 + mset next_pending = mset valid + mset pending"
      using take_pass_mset[OF pass] by simp
    have limit: "length valid1 \<le> MAX_NORMAL_TRANSACTIONS_PER_BLOCK"
      using take_pass_limit[OF pass] "1.prems"(4) by simp
    consider (full) "MAX_NORMAL_TRANSACTIONS_PER_BLOCK \<le> length valid1"
      | (stuck) "length valid1 < MAX_NORMAL_TRANSACTIONS_PER_BLOCK" "\<not> progress"
      | (again) "length valid1 < MAX_NORMAL_TRANSACTIONS_PER_BLOCK" progress
      by fastforce
    then show ?thesis
    proof cases
      case full
      then have "s' = s1 \<and> valid' = valid1 \<and> rest = next_pending"
        using "1.prems"(1) False pass by (simp add: take_loop.simps[of s valid pending])
      with full taken mset limit show ?thesis by auto
    next
      case stuck
      then have "s' = s1 \<and> valid' = valid1 \<and> rest = next_pending"
        using "1.prems"(1) False pass by (simp add: take_loop.simps[of s valid pending])
      moreover have "s1 = s \<and> next_pending = pending \<and> (\<forall>tx\<in>set pending. \<not> accepts s tx)"
        using take_pass_stuck[of s valid "[]" False pending s1 valid1 next_pending] pass stuck(2)
          "1.prems"(2,4) by simp
      ultimately show ?thesis
        using taken mset limit by auto
    next
      case again
      then have loop: "take_loop s1 valid1 next_pending = (s', valid', rest)"
        using "1.prems"(1) False pass by (simp add: take_loop.simps[of s valid pending])
      have sub: "mset next_pending \<subseteq># mset pending"
        using mset taken(1) by (metis add_left_cancel mset_append mset_subset_eq_add_right union_assoc)
      then have ordinary: "list_all (\<lambda>tx. \<not> tx_coinbase tx) next_pending"
        using "1.prems"(3) set_mset_mono[OF sub] by (auto simp: list_all_iff)
      have IH: "(\<exists>taken. valid' = valid1 @ taken \<and> replay apply_transaction s1 taken = Inr s') \<and>
        mset valid' + mset rest = mset valid1 + mset next_pending \<and>
        length valid' \<le> MAX_NORMAL_TRANSACTIONS_PER_BLOCK \<and>
        (length valid' = MAX_NORMAL_TRANSACTIONS_PER_BLOCK \<or> (\<forall>tx\<in>set rest. \<not> accepts s' tx))"
        by (rule "1.IH"[OF False pass[symmetric] _ _ _ _ loop bound ordinary again(1)])
          (use again in auto)
      then obtain more where "valid' = valid1 @ more" "replay apply_transaction s1 more = Inr s'"
        by blast
      then have "valid' = valid @ (taken @ more) \<and> replay apply_transaction s (taken @ more) = Inr s'"
        using taken by (auto simp: replay_append_Inr)
      then show ?thesis
        using IH mset by metis
    qed
  qed
qed

text \<open>The result for the whole operation, read on the pool before and after.\<close>

lemma take_valid_transactions_contract:
  assumes take: "take_valid_transactions mp st = (mp', txs)"
    and bound: "total_balance st < 2 ^ 64"
    and ordinary: "list_all (\<lambda>tx. \<not> tx_coinbase tx) (mp_transactions mp)"
  shows "\<exists>st'. replay apply_transaction st txs = Inr st' \<and>
    (length txs = MAX_NORMAL_TRANSACTIONS_PER_BLOCK \<or>
     (\<forall>tx\<in>set (mp_transactions mp'). \<not> accepts st' tx))"
    and "mset txs + mset (mp_transactions mp') = mset (mp_transactions mp)"
    and "length txs \<le> MAX_NORMAL_TRANSACTIONS_PER_BLOCK"
proof -
  obtain st' where loop: "take_loop st [] (mp_transactions mp) = (st', txs, mp_transactions mp')"
    using take by (auto simp: take_valid_transactions_def split: prod.splits)
  have "0 < MAX_NORMAL_TRANSACTIONS_PER_BLOCK"
    by (simp add: MAX_NORMAL_TRANSACTIONS_PER_BLOCK_def)
  from take_loop_contract[OF loop bound ordinary] this
  show "\<exists>st'. replay apply_transaction st txs = Inr st' \<and>
      (length txs = MAX_NORMAL_TRANSACTIONS_PER_BLOCK \<or>
       (\<forall>tx\<in>set (mp_transactions mp'). \<not> accepts st' tx))"
    and "mset txs + mset (mp_transactions mp') = mset (mp_transactions mp)"
    and "length txs \<le> MAX_NORMAL_TRANSACTIONS_PER_BLOCK"
    by auto
qed

lemma mempool_wf_ordinary: "mempool_wf cr mp \<Longrightarrow> list_all (\<lambda>tx. \<not> tx_coinbase tx) (mp_transactions mp)"
  by (auto simp: mempool_wf_def list_all_iff tx_authentic_def)

lemma take_valid_transactions_wf:
  assumes "take_valid_transactions mp st = (mp', txs)" and "total_balance st < 2 ^ 64"
    and "mempool_wf cr mp"
  shows "mempool_wf cr mp'" and "list_all (tx_authentic cr) txs"
proof -
  note mset = take_valid_transactions_contract(2)[OF assms(1,2) mempool_wf_ordinary[OF assms(3)]]
  show "mempool_wf cr mp'"
    by (rule mempool_wf_subset[OF assms(3)]) (simp flip: mset)
  have "set txs \<subseteq> set (mp_transactions mp)"
    by (metis mset mset_subset_eq_add_left set_mset_mono set_mset_mset)
  then show "list_all (tx_authentic cr) txs"
    using assms(3) by (auto simp: mempool_wf_def list_all_iff)
qed

end
