(* ===== verification/Economy.thy ===== *)
theory Economy
  imports Protocol
begin

text \<open>
  \<open>src/economy/mod.rs\<close>: the supply of coins, fees and their distribution. The lemmas give
  every operation in the natural numbers: the required fee, the exact split of a fee into its
  shares, the cap on the supply.
\<close>

record economy =
  ec_total_supply :: u64
  ec_max_supply :: u64
  ec_block_reward :: u64
  ec_minimum_fee :: u64
  ec_fee_divisor :: u64
  ec_liquidity_reserve :: u64
  ec_validator_fee_percent :: u64
  ec_liquidity_fee_percent :: u64
  ec_treasury_fee_percent :: u64
  ec_burn_fee_percent :: u64

definition economy_new :: economy where
  "economy_new = \<lparr>
     ec_total_supply = 0,
     ec_max_supply = MAX_SUPPLY_MICRO_KBN,
     ec_block_reward = BLOCK_REWARD_MICRO_KBN,
     ec_minimum_fee = MIN_TRANSACTION_FEE_MICRO_KBN,
     ec_fee_divisor = TRANSACTION_FEE_DIVISOR,
     ec_liquidity_reserve = 0,
     ec_validator_fee_percent = VALIDATOR_FEE_PERCENT,
     ec_liquidity_fee_percent = LIQUIDITY_RESERVE_FEE_PERCENT,
     ec_treasury_fee_percent = TREASURY_FEE_PERCENT,
     ec_burn_fee_percent = BURN_FEE_PERCENT\<rparr>"

definition calculate_fee :: "economy \<Rightarrow> u64 \<Rightarrow> u64" where
  "calculate_fee e amount =
     (let percentage_fee = amount div max (ec_fee_divisor e) 1
      in max percentage_fee (ec_minimum_fee e))"

definition validate_fee :: "economy \<Rightarrow> u64 \<Rightarrow> u64 \<Rightarrow> bool" where
  "validate_fee e amount fee \<longleftrightarrow> fee = calculate_fee e amount"

text \<open>\<open>u64::try_from(u128::from(fee) * u128::from(percent) / 100)\<close>\<close>

definition fee_share :: "u64 \<Rightarrow> u64 \<Rightarrow> u64 option" where
  "fee_share fee percent =
     (let share = (ucast fee :: u128) * ucast percent div 100
      in if share < 2 ^ 64 then Some (ucast share) else None)"

definition distribute_fee :: "economy \<Rightarrow> u64 \<Rightarrow> (u64 \<times> u64 \<times> u64 \<times> u64) result" where
  "distribute_fee e fee =
     and_then (ok_or (fee_share fee (ec_liquidity_fee_percent e)) (Panic Liquidity_share_exceeds_u64))
       (\<lambda>liquidity.
     and_then (ok_or (fee_share fee (ec_treasury_fee_percent e)) (Panic Treasury_share_exceeds_u64))
       (\<lambda>treasury.
        let burn = 0
        in and_then
             (ok_or (Option.bind (checked_sub fee liquidity) (\<lambda>remaining. checked_sub remaining treasury))
                (Panic Shares_exceed_fee))
             (\<lambda>validator. Inr (validator, liquidity, treasury, burn))))"

definition add_liquidity_reserve :: "economy \<Rightarrow> u64 \<Rightarrow> economy result" where
  "add_liquidity_reserve e amount =
     (case checked_add (ec_liquidity_reserve e) amount of
        None \<Rightarrow> Inl (Economy_error Liquidity_reserve_overflow)
      | Some r \<Rightarrow> Inr (e\<lparr>ec_liquidity_reserve := r\<rparr>))"

definition can_mint :: "economy \<Rightarrow> u64 \<Rightarrow> bool" where
  "can_mint e amount =
     (case checked_add (ec_total_supply e) amount of
        Some new_supply \<Rightarrow> new_supply \<le> ec_max_supply e
      | None \<Rightarrow> False)"

definition mint :: "economy \<Rightarrow> u64 \<Rightarrow> economy result" where
  "mint e amount =
     (if \<not> can_mint e amount then Inl (Economy_error Maximum_supply_exceeded)
      else Inr (e\<lparr>ec_total_supply := ec_total_supply e + amount\<rparr>))"

definition economy_burn :: "economy \<Rightarrow> u64 \<Rightarrow> economy" where
  "economy_burn e amount =
     (if amount \<le> ec_total_supply e then e\<lparr>ec_total_supply := ec_total_supply e - amount\<rparr> else e)"

definition reward_validator :: "economy \<Rightarrow> (economy \<times> u64) result" where
  "reward_validator e =
     (let reward = ec_block_reward e in and_then (mint e reward) (\<lambda>e'. Inr (e', reward)))"

definition economy_supply :: "economy \<Rightarrow> u64" where
  "economy_supply e = ec_total_supply e"

section \<open>Fees\<close>

lemma unat_max: "unat (max a b) = max (unat a) (unat b)"
  by (simp add: max_def word_le_nat_alt)

lemma unat_calculate_fee:
  "unat (calculate_fee e amount) =
     max (unat amount div max (unat (ec_fee_divisor e)) 1) (unat (ec_minimum_fee e))"
  by (simp add: calculate_fee_def unat_max unat_div)

lemma calculate_fee_mono: "a \<le> b \<Longrightarrow> calculate_fee e a \<le> calculate_fee e b"
  by (simp add: word_le_nat_alt unat_calculate_fee div_le_mono max.coboundedI1)

lemma unat_ucast_u128 [simp]: "unat (ucast (w :: u64) :: u128) = unat w"
proof -
  have "unat w < 2 ^ LENGTH(128)"
    by (rule order_less_le_trans[OF unsigned_less]) simp
  then show ?thesis
    by (simp only: unsigned_ucast_eq take_bit_nat_eq_self)
qed

text \<open>Two percentages of an amount, each rounded down, do not exceed the amount.\<close>

lemma percent_sum_le:
  fixes n p q :: nat
  assumes "p + q \<le> 100"
  shows "n * p div 100 + n * q div 100 \<le> n"
proof -
  have "100 * (n * p div 100 + n * q div 100) \<le> n * p + n * q"
    by (simp add: distrib_left add_mono)
  also have "\<dots> \<le> n * 100"
    using assms by (simp only: distrib_left[symmetric] mult_le_mono2)
  finally show ?thesis
    by simp
qed

lemma fee_share_exact:
  assumes "unat percent \<le> 100"
  shows "\<exists>s. fee_share fee percent = Some s \<and> unat s = unat fee * unat percent div 100"
proof -
  let ?share = "(ucast fee :: u128) * ucast percent div 100"
  have fee: "unat fee < 2 ^ 64"
    by (rule order_less_le_trans[OF unsigned_less]) simp
  have "unat fee * unat percent \<le> unat fee * 100"
    using assms by simp
  also have "\<dots> < 2 ^ 128"
    using fee by simp
  finally have prod: "unat ((ucast fee :: u128) * ucast percent) = unat fee * unat percent"
    by (simp add: unat_word_ariths)
  have le: "unat fee * unat percent div 100 \<le> unat fee"
    using percent_sum_le[of "unat percent" 0] assms by simp
  have share: "unat ?share = unat fee * unat percent div 100"
    by (simp add: unat_div prod)
  then have "?share < 2 ^ 64"
    using le fee by (simp add: word_less_nat_alt)
  moreover have "unat ?share < 2 ^ LENGTH(64)"
    unfolding share by (rule order_le_less_trans[OF le unsigned_less])
  then have "unat (ucast ?share :: u64) = unat ?share"
    by (simp only: unsigned_ucast_eq take_bit_nat_eq_self)
  ultimately show ?thesis
    using share by (simp add: fee_share_def Let_def)
qed

definition shares_ok :: "economy \<Rightarrow> bool" where
  "shares_ok e \<longleftrightarrow> unat (ec_liquidity_fee_percent e) + unat (ec_treasury_fee_percent e) \<le> 100"

lemma economy_new_shares_ok [simp]: "shares_ok economy_new"
  by (simp add: shares_ok_def economy_new_def LIQUIDITY_RESERVE_FEE_PERCENT_def
      TREASURY_FEE_PERCENT_def)

lemma distribute_fee_exact:
  assumes "shares_ok e"
  shows "\<exists>v l t. distribute_fee e fee = Inr (v, l, t, 0) \<and>
    unat l = unat fee * unat (ec_liquidity_fee_percent e) div 100 \<and>
    unat t = unat fee * unat (ec_treasury_fee_percent e) div 100 \<and>
    unat v + unat l + unat t = unat fee"
proof -
  obtain l where l: "fee_share fee (ec_liquidity_fee_percent e) = Some l"
    "unat l = unat fee * unat (ec_liquidity_fee_percent e) div 100"
    using fee_share_exact[of "ec_liquidity_fee_percent e" fee] assms by (auto simp: shares_ok_def)
  obtain t where t: "fee_share fee (ec_treasury_fee_percent e) = Some t"
    "unat t = unat fee * unat (ec_treasury_fee_percent e) div 100"
    using fee_share_exact[of "ec_treasury_fee_percent e" fee] assms by (auto simp: shares_ok_def)
  have le: "unat l + unat t \<le> unat fee"
    unfolding l(2) t(2) using assms unfolding shares_ok_def by (rule percent_sum_le)
  then have "l \<le> fee"
    by (simp add: word_le_nat_alt)
  moreover from this have rest: "unat (fee - l) = unat fee - unat l"
    by (rule unat_sub)
  moreover from rest le have "t \<le> fee - l"
    by (simp add: word_le_nat_alt)
  moreover from this have "unat (fee - l - t) = unat (fee - l) - unat t"
    by (rule unat_sub)
  ultimately show ?thesis
    using l t le by (simp add: distribute_fee_def checked_sub_def)
qed

section \<open>Supply\<close>

lemma mint_Inr:
  "mint e amount = Inr e' \<Longrightarrow>
     e' = e\<lparr>ec_total_supply := ec_total_supply e + amount\<rparr> \<and>
     unat (ec_total_supply e') = unat (ec_total_supply e) + unat amount \<and>
     ec_total_supply e' \<le> ec_max_supply e"
  by (auto simp: mint_def can_mint_def unat_checked_add dest: unat_checked_add
      split: if_splits option.splits) (auto simp: checked_add_def unat_add_fits split: if_splits)

lemma mint_iff:
  "is_ok (mint e amount) \<longleftrightarrow> unat (ec_total_supply e) + unat amount \<le> unat (ec_max_supply e)"
proof -
  have "unat (ec_max_supply e) < 2 ^ LENGTH(64)"
    by (rule unsigned_less)
  then show ?thesis
    by (auto simp: mint_def can_mint_def checked_add_def word_le_nat_alt unat_add_fits)
qed

lemma economy_burn_zero [simp]: "economy_burn e 0 = e"
  by (simp add: economy_burn_def)

lemma economy_burn_supply:
  "unat (ec_total_supply (economy_burn e amount)) \<le> unat (ec_total_supply e)"
  by (simp add: economy_burn_def unat_sub)

end
