(* ===== verification/Blockchain.thy ===== *)
theory Blockchain
  imports Mempool Economy
begin

text \<open>
  \<open>src/chain/blockchain.rs\<close>: the list of blocks with the economy it leads to, the checks on the
  fields of a block, production of a block from the pool, appending a received block, and the
  check of a whole chain. \<open>clock\<close> is the reading of the system clock, \<open>None\<close> when it stands
  before the epoch.
\<close>

record blockchain =
  bc_chain :: "block list"
  bc_economy :: economy

section \<open>Checks on a block\<close>

definition validate_transaction_field_sizes :: "transaction \<Rightarrow> unit result" where
  "validate_transaction_field_sizes tx =
     (if \<not> is_fixed_hex (tx_id tx) HASH_HEX_LENGTH then Inl (Format_error Transaction_id_format)
      else if tx_coinbase tx then
        (if tx_from tx \<noteq> SYSTEM_ADDRESS \<or> tx_public_key tx \<noteq> SYSTEM_PUBLIC_KEY
         then Inl (Format_error Coinbase_system_fields)
         else if \<not> is_fixed_hex (tx_to tx) ADDRESS_HEX_LENGTH
         then Inl (Format_error Coinbase_recipient_format)
         else case tx_signature tx of
                Some signature \<Rightarrow>
                  if signature = SYSTEM_REWARD_SIGNATURE then Inr ()
                  else Inl (Format_error Coinbase_signature_format)
              | None \<Rightarrow> Inl (Format_error Coinbase_signature_format))
      else if \<not> is_fixed_hex (tx_from tx) ADDRESS_HEX_LENGTH \<or>
              \<not> is_fixed_hex (tx_to tx) ADDRESS_HEX_LENGTH
      then Inl (Format_error Transaction_address_format)
      else if \<not> is_fixed_hex (tx_public_key tx) PUBLIC_KEY_HEX_LENGTH
      then Inl (Format_error Transaction_public_key_format)
      else and_then (ok_or (tx_signature tx) (Format_error Transaction_signature_missing))
             (\<lambda>signature.
                if \<not> is_fixed_hex signature SIGNATURE_HEX_LENGTH
                then Inl (Format_error Transaction_signature_format)
                else Inr ()))"

definition validate_block_field_sizes :: "block \<Rightarrow> unit result" where
  "validate_block_field_sizes b =
     (if length (blk_transactions b) > MAX_TOTAL_TRANSACTIONS_PER_BLOCK
      then Inl (Format_error Block_transaction_limit)
      else if \<not> is_fixed_hex (blk_hash b) HASH_HEX_LENGTH then Inl (Format_error Block_hash_format)
      else if blk_index b = 0 then
        (if blk_previous_hash b \<noteq> GENESIS_PREVIOUS_HASH \<or> blk_validator b \<noteq> GENESIS_VALIDATOR \<or>
            \<not> is_fixed_hex (blk_validator_public_key b) HASH_HEX_LENGTH \<or>
            blk_validator_signature b \<noteq> None \<or> blk_transactions b \<noteq> []
         then Inl (Format_error Genesis_block_format)
         else Inr ())
      else if \<not> list_ex (\<lambda>tx. \<not> tx_coinbase tx) (blk_transactions b)
      then Inl (Format_error No_normal_transaction)
      else if \<not> is_fixed_hex (blk_previous_hash b) HASH_HEX_LENGTH
      then Inl (Format_error Block_previous_hash_format)
      else if \<not> is_fixed_hex (blk_validator b) ADDRESS_HEX_LENGTH
      then Inl (Format_error Block_validator_address_format)
      else if \<not> is_fixed_hex (blk_validator_public_key b) PUBLIC_KEY_HEX_LENGTH
      then Inl (Format_error Block_validator_public_key_format)
      else and_then (ok_or (blk_validator_signature b) (Format_error Block_validator_signature_missing))
             (\<lambda>validator_signature.
                if \<not> is_fixed_hex validator_signature SIGNATURE_HEX_LENGTH
                then Inl (Format_error Block_validator_signature_format)
                else try_fold (\<lambda>_. validate_transaction_field_sizes) () (blk_transactions b)))"

text \<open>\<open>seen_ids.insert(id)\<close> answers whether the identifier is new.\<close>

definition insert_id :: "string set \<Rightarrow> transaction \<Rightarrow> string set result" where
  "insert_id seen_ids tx =
     (if tx_id tx \<in> seen_ids then Inl (Chain_error (Transaction_id_used (tx_id tx)))
      else Inr (insert (tx_id tx) seen_ids))"

definition chain_ids :: "block list \<Rightarrow> string set" where
  "chain_ids chain = tx_id ` set (concat (map blk_transactions chain))"

definition validate_transaction_id_uniqueness :: "blockchain \<Rightarrow> block \<Rightarrow> unit result" where
  "validate_transaction_id_uniqueness bc b =
     and_then (try_fold insert_id (chain_ids (bc_chain bc)) (blk_transactions b)) (\<lambda>_. Inr ())"

definition validate_future_timestamp :: "u64 option \<Rightarrow> u64 \<Rightarrow> unit result" where
  "validate_future_timestamp clock timestamp =
     and_then (ok_or clock (Chain_error Clock_before_epoch)) (\<lambda>now.
     and_then (ok_or (checked_add now MAX_FUTURE_DRIFT_SECONDS) (Chain_error Timestamp_bound_overflow))
       (\<lambda>maximum_allowed.
          if timestamp > maximum_allowed then Inl (Chain_error Timestamp_too_far_ahead) else Inr ()))"

definition blockchain_new :: "block \<Rightarrow> blockchain" where
  "blockchain_new genesis = \<lparr>bc_chain = [genesis], bc_economy = economy_new\<rparr>"

definition last_block :: "block list \<Rightarrow> block result" where
  "last_block chain = (if chain = [] then Inl (Chain_error Blockchain_is_empty) else Inr (last chain))"

section \<open>Producing a block\<close>

record fee_totals =
  ft_validator :: u64
  ft_liquidity :: u64
  ft_treasury :: u64
  ft_burn :: u64

definition no_fees :: fee_totals where
  "no_fees = \<lparr>ft_validator = 0, ft_liquidity = 0, ft_treasury = 0, ft_burn = 0\<rparr>"

text \<open>One round of the loop that adds up the shares of the fees.\<close>

definition add_fee_shares :: "economy \<Rightarrow> fee_totals \<Rightarrow> transaction \<Rightarrow> fee_totals result" where
  "add_fee_shares e ft tx =
     and_then (distribute_fee e (tx_fee tx)) (\<lambda>(validator_fee, liquidity_fee, treasury_fee, burn_fee).
     and_then (ok_or (checked_add (ft_validator ft) validator_fee) (Chain_error Validator_fee_overflow))
       (\<lambda>v.
     and_then (ok_or (checked_add (ft_liquidity ft) liquidity_fee) (Chain_error Liquidity_fee_overflow))
       (\<lambda>l.
     and_then (ok_or (checked_add (ft_treasury ft) treasury_fee) (Chain_error Treasury_fee_overflow))
       (\<lambda>t.
     and_then (ok_or (checked_add (ft_burn ft) burn_fee) (Chain_error Burn_fee_overflow))
       (\<lambda>b. Inr \<lparr>ft_validator = v, ft_liquidity = l, ft_treasury = t, ft_burn = b\<rparr>)))))"

definition check_fee :: "economy \<Rightarrow> unit \<Rightarrow> transaction \<Rightarrow> unit result" where
  "check_fee e _ tx =
     (if \<not> validate_fee e (tx_amount tx) (tx_fee tx)
      then Inl (Chain_error (Transaction_fee_invalid (tx_id tx))) else Inr ())"

text \<open>The account of the validator is created when it is missing.\<close>

definition ensure_account :: "state \<Rightarrow> string \<Rightarrow> state" where
  "ensure_account st address =
     (if fmlookup (st_accounts st) address = None then create_account st address 0 else st)"

text \<open>The fees of a block go to the validator, the treasury and the liquidity reserve.\<close>

definition settle_fees ::
  "string \<Rightarrow> fee_totals \<Rightarrow> state \<Rightarrow> economy \<Rightarrow> (state \<times> economy) result" where
  "settle_fees validator ft st e =
     and_then (add_balance (ensure_account st validator) validator (ft_validator ft)) (\<lambda>st.
     and_then (add_treasury st (ft_treasury ft)) (\<lambda>st.
     and_then (add_liquidity_reserve e (ft_liquidity ft)) (\<lambda>e.
     and_then (state_burn st (ft_burn ft)) (\<lambda>st.
       Inr (st, economy_burn e (ft_burn ft))))))"

definition make_block :: "crypto \<Rightarrow> block list \<Rightarrow> u64 \<Rightarrow> wallet \<Rightarrow> transaction list \<Rightarrow> block" where
  "make_block cr chain timestamp w transactions =
     (let block = block_new cr (word_of_nat (length chain)) timestamp (blk_hash (last chain))
                    (w_address w) (public_key_hex cr w) transactions
      in block_sign block (wallet_sign cr w (as_bytes (blk_hash block))))"

text \<open>
  \<open>mempool.transactions.retain(..)\<close>: the pending transactions whose identifier is not among
  the confirmed ones stay.
\<close>

definition retain_unconfirmed :: "mempool \<Rightarrow> string list \<Rightarrow> mempool" where
  "retain_unconfirmed mp confirmed_ids =
     mp\<lparr>mp_transactions := filter (\<lambda>pending. \<not> list_ex (\<lambda>i. i = tx_id pending) confirmed_ids)
                             (mp_transactions mp)\<rparr>"

text \<open>The steps between the choice of the transactions and the finished block.\<close>

definition execute_transactions ::
  "crypto \<Rightarrow> blockchain \<Rightarrow> wallet \<Rightarrow> transaction list \<Rightarrow> state \<Rightarrow>
   (state \<times> economy \<times> transaction list) result" where
  "execute_transactions cr bc w transactions st =
     (let e = bc_economy bc in
      and_then (try_fold (check_fee e) () transactions) (\<lambda>_.
      (case apply_transactions_atomically st transactions of
         (_, Inl err) \<Rightarrow> Inl err
       | (st, Inr _) \<Rightarrow>
      and_then (try_fold (add_fee_shares e) no_fees transactions) (\<lambda>ft.
      and_then (settle_fees (w_address w) ft st e) (\<lambda>(st, e).
      and_then (reward_validator e) (\<lambda>(e, reward).
        let coinbase = new_coinbase cr (w_address w) reward (word_of_nat (length (bc_chain bc)))
        in and_then (keep_ok apply_transaction st coinbase) (\<lambda>st.
             Inr (st, e, transactions @ [coinbase]))))))))"

definition create_block_from_mempool ::
  "crypto \<Rightarrow> u64 option \<Rightarrow> blockchain \<Rightarrow> u64 \<Rightarrow> wallet \<Rightarrow> mempool \<Rightarrow> state \<Rightarrow>
   (blockchain \<times> mempool \<times> state \<times> block) result" where
  "create_block_from_mempool cr clock bc timestamp w mp st =
     (if mempool_is_empty mp then Inl (Chain_error Mempool_is_empty)
      else and_then (last_block (bc_chain bc)) (\<lambda>previous.
        if timestamp \<le> blk_timestamp previous
        then Inl (Chain_error New_block_timestamp_not_greater)
        else and_then (validate_future_timestamp clock timestamp) (\<lambda>_.
          let (candidate_mempool, transactions) = take_valid_transactions mp st
          in if transactions = [] then Inl (Chain_error No_valid_transactions)
             else and_then (execute_transactions cr bc w transactions st) (\<lambda>(st, e, transactions).
               let block = make_block cr (bc_chain bc) timestamp w transactions
               in and_then (validate_block_field_sizes block) (\<lambda>_.
                  and_then (validate_transaction_id_uniqueness bc block) (\<lambda>_.
                    let confirmed_ids = map tx_id (filter (\<lambda>tx. \<not> tx_coinbase tx) transactions)
                    in Inr (bc\<lparr>bc_chain := bc_chain bc @ [block], bc_economy := e\<rparr>,
                            retain_unconfirmed mp confirmed_ids, st, block)))))))"

section \<open>Appending a received block\<close>

definition add_received_block ::
  "crypto \<Rightarrow> u64 option \<Rightarrow> blockchain \<Rightarrow> block \<Rightarrow> blockchain result" where
  "add_received_block cr clock bc b =
     and_then (validate_block_field_sizes b) (\<lambda>_.
     and_then (validate_transaction_id_uniqueness bc b) (\<lambda>_.
     and_then (last_block (bc_chain bc)) (\<lambda>previous.
       if blk_previous_hash b \<noteq> blk_hash previous then Inl (Chain_error Previous_hash_mismatch)
       else if blk_timestamp b \<le> blk_timestamp previous
       then Inl (Chain_error Block_timestamp_not_greater)
       else and_then (validate_future_timestamp clock (blk_timestamp b)) (\<lambda>_.
         if blk_hash b \<noteq> calculate_hash cr b then Inl (Chain_error Block_hash_invalid)
         else if blk_index b \<noteq> word_of_nat (length (bc_chain bc))
         then Inl (Chain_error Block_index_invalid)
         else Inr (bc\<lparr>bc_chain := bc_chain bc @ [b]\<rparr>)))))"

definition height :: "blockchain \<Rightarrow> nat" where
  "height bc = length (bc_chain bc)"

section \<open>Checking a whole chain\<close>

text \<open>The loop over the transactions of a block; \<open>None\<close> is \<open>return false\<close>.\<close>

fun check_block_ids ::
  "crypto \<Rightarrow> u64 \<Rightarrow> string set \<Rightarrow> transaction list \<Rightarrow> string set option" where
  "check_block_ids cr index seen [] = Some seen"
| "check_block_ids cr index seen (tx # txs) =
     (if tx_id tx \<in> seen then None
      else if tx_id tx \<noteq> calculate_id cr tx then None
      else if tx_coinbase tx \<and> tx_reward_marker tx \<noteq> ucast index then None
      else check_block_ids cr index (insert (tx_id tx) seen) txs)"

text \<open>What \<open>is_valid\<close> checks of a block after the first against its predecessor.\<close>

definition block_linked :: "crypto \<Rightarrow> block \<Rightarrow> block \<Rightarrow> bool" where
  "block_linked cr previous b =
     (if blk_timestamp b \<le> blk_timestamp previous then False
      else if blk_previous_hash b \<noteq> blk_hash previous then False
      else if \<not> block_is_signed b then False
      else case address_from_public_key cr (blk_validator_public_key b) of
             None \<Rightarrow> False
           | Some derived_validator_address \<Rightarrow>
               if derived_validator_address \<noteq> blk_validator b then False
               else case blk_validator_signature b of
                      None \<Rightarrow> False
                    | Some validator_signature \<Rightarrow>
                        wallet_verify cr (blk_validator_public_key b) (as_bytes (blk_hash b))
                          validator_signature)"

text \<open>The loop over the blocks from a position on.\<close>

fun is_valid_loop :: "crypto \<Rightarrow> block list \<Rightarrow> string set \<Rightarrow> nat \<Rightarrow> block list \<Rightarrow> bool" where
  "is_valid_loop cr chain seen position [] = True"
| "is_valid_loop cr chain seen position (b # bs) =
     (if \<not> is_ok (validate_block_field_sizes b) then False
      else if blk_index b \<noteq> word_of_nat position then False
      else case check_block_ids cr (blk_index b) seen (blk_transactions b) of
             None \<Rightarrow> False
           | Some seen \<Rightarrow>
               if blk_hash b \<noteq> calculate_hash cr b then False
               else if position = 0 then
                 (if blk_previous_hash b \<noteq> ''0'' then False
                  else is_valid_loop cr chain seen (position + 1) bs)
               else if block_linked cr (chain ! (position - 1)) b
               then is_valid_loop cr chain seen (position + 1) bs
               else False)"

definition is_valid :: "crypto \<Rightarrow> blockchain \<Rightarrow> bool" where
  "is_valid cr bc = is_valid_loop cr (bc_chain bc) {} 0 (bc_chain bc)"

section \<open>The books: where the money is\<close>

text \<open>
  All money is in an account, in the treasury or in the liquidity reserve, and together this
  is the recorded supply, which stays below its maximum. With it no balance can overflow.
\<close>

definition money :: "state \<Rightarrow> economy \<Rightarrow> nat" where
  "money st e = total_balance st + unat (st_treasury_balance st) + unat (ec_liquidity_reserve e)"

definition books_balanced :: "state \<Rightarrow> economy \<Rightarrow> bool" where
  "books_balanced st e \<longleftrightarrow>
     money st e = unat (ec_total_supply e) \<and> ec_total_supply e \<le> ec_max_supply e \<and> shares_ok e"

lemma books_balanced_bound:
  assumes "books_balanced st e"
  shows "total_balance st < 2 ^ 64"
proof -
  have "total_balance st \<le> unat (ec_total_supply e)"
    using assms by (simp add: books_balanced_def money_def)
  also have "\<dots> < 2 ^ 64"
    by (rule order_less_le_trans[OF unsigned_less]) simp
  finally show ?thesis .
qed

text \<open>The settings of an economy, which no operation changes.\<close>

definition settings :: "economy \<Rightarrow> economy" where
  "settings e = e\<lparr>ec_total_supply := 0, ec_liquidity_reserve := 0\<rparr>"

lemma settings_upd [simp]:
  "settings (e\<lparr>ec_total_supply := x\<rparr>) = settings e"
  "settings (e\<lparr>ec_liquidity_reserve := x\<rparr>) = settings e"
  "settings (economy_burn e x) = settings e"
  by (simp_all add: settings_def economy_burn_def)

lemma settings_fields:
  assumes "settings e = settings e'"
  shows "ec_max_supply e = ec_max_supply e'" "ec_block_reward e = ec_block_reward e'"
    "shares_ok e = shares_ok e'" "calculate_fee e = calculate_fee e'"
    "validate_fee e = validate_fee e'" "distribute_fee e = distribute_fee e'"
    "add_fee_shares e = add_fee_shares e'"
  using assms by (cases e; cases e'; simp add: settings_def shares_ok_def calculate_fee_def
      validate_fee_def distribute_fee_def add_fee_shares_def fun_eq_iff)+

lemma total_balance_upd:
  "total_balance (st\<lparr>st_accounts := fmupd a acc (st_accounts st)\<rparr>) + unat (balance_of st a) =
     total_balance st + unat (acc_balance acc)"
  using fm_sum_upd[of "\<lambda>x. unat (acc_balance x)" a acc "st_accounts st"]
  by (simp add: total_balance_def balance_of_def split: option.splits)

lemma ensure_account_simps [simp]:
  "balance_of (ensure_account st a) b = balance_of st b"
  "nonce_of (ensure_account st a) b = nonce_of st b"
  "total_balance (ensure_account st a) = total_balance st"
  "st_treasury_balance (ensure_account st a) = st_treasury_balance st"
  "st_burned_amount (ensure_account st a) = st_burned_amount st"
  using total_balance_upd[of a "\<lparr>acc_balance = 0, acc_nonce = 0\<rparr>" st]
  by (auto simp: ensure_account_def create_account_def balance_of_def nonce_of_def)

lemma add_balance_Inr:
  assumes "add_balance st a x = Inr st'"
  shows "total_balance st' = total_balance st + unat x"
    "unat (balance_of st' a) = unat (balance_of st a) + unat x"
    "b \<noteq> a \<Longrightarrow> balance_of st' b = balance_of st b"
    "nonce_of st' b = nonce_of st b"
    "st_treasury_balance st' = st_treasury_balance st" "st_burned_amount st' = st_burned_amount st"
proof -
  obtain acc c where acc: "fmlookup (st_accounts st) a = Some acc"
    and c: "checked_add (acc_balance acc) x = Some c"
    and st': "st' = st\<lparr>st_accounts := fmupd a (acc\<lparr>acc_balance := c\<rparr>) (st_accounts st)\<rparr>"
    using assms by (auto simp: add_balance_def split: option.splits)
  have bal: "balance_of st a = acc_balance acc"
    using acc by (simp add: balance_of_def)
  have sum: "unat c = unat (acc_balance acc) + unat x"
    using c by (rule unat_checked_add)
  show "total_balance st' = total_balance st + unat x"
    using total_balance_upd[of a "acc\<lparr>acc_balance := c\<rparr>" st] st' bal sum by simp
  show "unat (balance_of st' a) = unat (balance_of st a) + unat x"
    using st' bal sum by (simp add: balance_of_upd)
  show "b \<noteq> a \<Longrightarrow> balance_of st' b = balance_of st b"
    using st' by (simp add: balance_of_def)
  show "nonce_of st' b = nonce_of st b"
    using st' acc by (auto simp: nonce_of_def)
  show "st_treasury_balance st' = st_treasury_balance st" "st_burned_amount st' = st_burned_amount st"
    using st' by simp_all
qed

lemma settle_fees_Inr:
  assumes settle: "settle_fees v ft st e = Inr (st', e')" and burn: "ft_burn ft = 0"
  shows "total_balance st' = total_balance st + unat (ft_validator ft)"
    "unat (balance_of st' v) = unat (balance_of st v) + unat (ft_validator ft)"
    "b \<noteq> v \<Longrightarrow> balance_of st' b = balance_of st b"
    "nonce_of st' b = nonce_of st b"
    "unat (st_treasury_balance st') = unat (st_treasury_balance st) + unat (ft_treasury ft)"
    "st_burned_amount st' = st_burned_amount st"
    "unat (ec_liquidity_reserve e') = unat (ec_liquidity_reserve e) + unat (ft_liquidity ft)"
    "ec_total_supply e' = ec_total_supply e" "settings e' = settings e"
proof -
  obtain s1 t l where s1: "add_balance (ensure_account st v) v (ft_validator ft) = Inr s1"
    and t: "checked_add (st_treasury_balance s1) (ft_treasury ft) = Some t"
    and l: "checked_add (ec_liquidity_reserve e) (ft_liquidity ft) = Some l"
    and st': "st' = s1\<lparr>st_treasury_balance := t\<rparr>"
    and e': "e' = e\<lparr>ec_liquidity_reserve := l\<rparr>"
    using settle burn
    by (auto simp: settle_fees_def add_treasury_def add_liquidity_reserve_def state_burn_def result_simps
        split: option.splits)
  note s1' = add_balance_Inr[OF s1]
  have bal: "balance_of st' = balance_of s1" "nonce_of st' = nonce_of s1" "total_balance st' = total_balance s1"
    using st' by (auto simp: balance_of_def nonce_of_def total_balance_def fun_eq_iff)
  show "total_balance st' = total_balance st + unat (ft_validator ft)"
    "unat (balance_of st' v) = unat (balance_of st v) + unat (ft_validator ft)"
    "b \<noteq> v \<Longrightarrow> balance_of st' b = balance_of st b"
    "nonce_of st' b = nonce_of st b"
    using s1' bal by simp_all
  show "unat (st_treasury_balance st') = unat (st_treasury_balance st) + unat (ft_treasury ft)"
    using unat_checked_add[OF t] s1'(5) st' by simp
  show "st_burned_amount st' = st_burned_amount st"
    using s1'(6) st' by simp
  show "unat (ec_liquidity_reserve e') = unat (ec_liquidity_reserve e) + unat (ft_liquidity ft)"
    using unat_checked_add[OF l] e' by simp
  show "ec_total_supply e' = ec_total_supply e" "settings e' = settings e"
    using e' by simp_all
qed

definition fee_sum :: "transaction list \<Rightarrow> nat" where
  "fee_sum txs = sum_list (map (\<lambda>tx. unat (tx_fee tx)) txs)"

definition ft_sum :: "fee_totals \<Rightarrow> nat" where
  "ft_sum ft = unat (ft_validator ft) + unat (ft_liquidity ft) + unat (ft_treasury ft)"

lemma no_fees_sum [simp]: "ft_sum no_fees = 0" "ft_burn no_fees = 0"
  by (simp_all add: ft_sum_def no_fees_def)

lemma add_fee_shares_Inr:
  assumes "shares_ok e" and "add_fee_shares e ft tx = Inr ft'"
  shows "ft_sum ft' = ft_sum ft + unat (tx_fee tx)" and "ft_burn ft' = ft_burn ft"
proof -
  obtain v l t where shares: "distribute_fee e (tx_fee tx) = Inr (v, l, t, 0)"
    and exact: "unat v + unat l + unat t = unat (tx_fee tx)"
    using distribute_fee_exact[OF assms(1)] by blast
  obtain v' l' t' where ft': "ft' = \<lparr>ft_validator = v', ft_liquidity = l', ft_treasury = t', ft_burn = ft_burn ft\<rparr>"
    and sums: "checked_add (ft_validator ft) v = Some v'" "checked_add (ft_liquidity ft) l = Some l'"
      "checked_add (ft_treasury ft) t = Some t'"
    using assms(2) shares by (auto simp: add_fee_shares_def result_simps)
  show "ft_sum ft' = ft_sum ft + unat (tx_fee tx)"
    using sums[THEN unat_checked_add] exact by (simp add: ft' ft_sum_def)
  show "ft_burn ft' = ft_burn ft"
    by (simp add: ft')
qed

lemma fee_totals_exact:
  assumes "shares_ok e" and "try_fold (add_fee_shares e) ft txs = Inr ft'"
  shows "ft_sum ft' = ft_sum ft + fee_sum txs \<and> ft_burn ft' = ft_burn ft"
  using assms(2)
proof (induction txs arbitrary: ft)
  case Nil
  then show ?case by (simp add: fee_sum_def)
next
  case (Cons tx txs)
  then obtain ft1 where ft1: "add_fee_shares e ft tx = Inr ft1" "try_fold (add_fee_shares e) ft1 txs = Inr ft'"
    by (auto simp: result_simps)
  show ?case
    using Cons.IH[OF ft1(2)] add_fee_shares_Inr[OF assms(1) ft1(1)] by (simp add: fee_sum_def)
qed

text \<open>
  The last steps that a producer and a receiver of a block both take: settle the fees, mint the
  reward, credit it.
\<close>

lemma settled_books:
  assumes books: "books_balanced st e"
    and replay: "replay apply_transaction st txs = Inr s1"
    and ordinary: "list_all (\<lambda>tx. \<not> tx_coinbase tx) txs"
    and fees: "try_fold (add_fee_shares e) no_fees txs = Inr ft"
    and settle: "settle_fees v ft s1 e = Inr (s2, e2)"
    and mint: "mint e2 (tx_amount coinbase) = Inr e3"
    and coinbase: "tx_coinbase coinbase" "apply_transaction s2 coinbase = (s3, Inr ())"
  shows "books_balanced s3 e3" and "settings e3 = settings e"
    and "unat (ec_total_supply e3) = unat (ec_total_supply e) + unat (tx_amount coinbase)"
proof -
  have shares: "shares_ok e"
    using books by (simp add: books_balanced_def)
  have ft: "ft_sum ft = fee_sum txs" "ft_burn ft = 0"
    using fee_totals_exact[OF shares fees] by simp_all
  note s2 = settle_fees_Inr[OF settle ft(2)]
  have e3: "e3 = e2\<lparr>ec_total_supply := ec_total_supply e2 + tx_amount coinbase\<rparr>"
    "unat (ec_total_supply e3) = unat (ec_total_supply e2) + unat (tx_amount coinbase)"
    "ec_total_supply e3 \<le> ec_max_supply e3"
    using mint_Inr[OF mint] by auto
  show settings: "settings e3 = settings e"
    using e3(1) s2(9) by simp
  show minted: "unat (ec_total_supply e3) = unat (ec_total_supply e) + unat (tx_amount coinbase)"
    using e3(2) s2(8) by simp
  have "total_balance s1 + fee_sum txs = total_balance st"
    using replay_ordinary_funds[OF replay ordinary] by (simp add: fee_sum_def)
  moreover have "total_balance s3 = total_balance s2 + unat (tx_amount coinbase)"
    using apply_transaction_accepted(3)[OF coinbase(2)] coinbase(1) by simp
  moreover have "st_treasury_balance s3 = st_treasury_balance s2"
    using apply_transaction_accepted(2)[OF coinbase(2)] by (simp add: transaction_effect_def)
  moreover have "st_treasury_balance s1 = st_treasury_balance st"
    using replay_treasury[OF replay] by simp
  ultimately have "money s3 e3 = money st e + unat (tx_amount coinbase)"
    using s2(1,5,7) ft(1) by (simp add: money_def ft_sum_def e3(1))
  moreover have "shares_ok e3"
    using settings_fields(3)[OF settings] shares by simp
  ultimately show "books_balanced s3 e3"
    using books minted e3(3) by (simp add: books_balanced_def)
qed

section \<open>What a produced block is\<close>

lemma apply_transactions_atomically_Inr:
  "apply_transactions_atomically st txs = (st', Inr u) \<longleftrightarrow> replay apply_transaction st txs = Inr st'"
  by (auto simp: apply_transactions_atomically_def split: sum.splits)

lemma apply_transactions_atomically_Inl:
  "apply_transactions_atomically st txs = (st', Inl err) \<Longrightarrow> st' = st"
  by (auto simp: apply_transactions_atomically_def split: sum.splits)

lemma check_fees_Inr:
  "try_fold (check_fee e) u txs = Inr u' \<longleftrightarrow>
     list_all (\<lambda>tx. validate_fee e (tx_amount tx) (tx_fee tx)) txs"
  by (induction txs) (auto simp: check_fee_def result_simps)

lemma execute_transactions_Inr:
  assumes "execute_transactions cr bc w txs st = Inr (st', e', txs')"
  obtains s1 ft s2 e2 coinbase where
    "list_all (\<lambda>tx. validate_fee (bc_economy bc) (tx_amount tx) (tx_fee tx)) txs"
    "replay apply_transaction st txs = Inr s1"
    "try_fold (add_fee_shares (bc_economy bc)) no_fees txs = Inr ft"
    "settle_fees (w_address w) ft s1 (bc_economy bc) = Inr (s2, e2)"
    "mint e2 (ec_block_reward e2) = Inr e'"
    "coinbase = new_coinbase cr (w_address w) (ec_block_reward e2) (word_of_nat (length (bc_chain bc)))"
    "apply_transaction s2 coinbase = (st', Inr ())"
    "txs' = txs @ [coinbase]"
  using assms
  by (auto simp: execute_transactions_def reward_validator_def Let_def result_simps check_fees_Inr
      apply_transactions_atomically_Inr split: prod.splits sum.splits)

lemma create_block_Inr:
  assumes "create_block_from_mempool cr clock bc t w mp st = Inr (bc', mp', st', b)"
  obtains rest txs e' txs' where
    "bc_chain bc \<noteq> []" "blk_timestamp (last (bc_chain bc)) < t"
    "validate_future_timestamp clock t = Inr ()"
    "take_valid_transactions mp st = (rest, txs)" "txs \<noteq> []"
    "execute_transactions cr bc w txs st = Inr (st', e', txs')"
    "b = make_block cr (bc_chain bc) t w txs'"
    "validate_block_field_sizes b = Inr ()"
    "validate_transaction_id_uniqueness bc b = Inr ()"
    "bc' = bc\<lparr>bc_chain := bc_chain bc @ [b], bc_economy := e'\<rparr>"
    "mp' = retain_unconfirmed mp (map tx_id (filter (\<lambda>tx. \<not> tx_coinbase tx) txs'))"
  using assms
  by (auto simp: create_block_from_mempool_def last_block_def Let_def result_simps not_le
      split: prod.splits if_splits)

lemma create_block_books:
  assumes create: "create_block_from_mempool cr clock bc t w mp st = Inr (bc', mp', st', b)"
    and books: "books_balanced st (bc_economy bc)" and wf: "mempool_wf cr mp"
  shows "books_balanced st' (bc_economy bc')" and "settings (bc_economy bc') = settings (bc_economy bc)"
    and "unat (ec_total_supply (bc_economy bc')) =
      unat (ec_total_supply (bc_economy bc)) + unat (ec_block_reward (bc_economy bc))"
proof -
  obtain rest txs e' txs' where take: "take_valid_transactions mp st = (rest, txs)"
    and exec: "execute_transactions cr bc w txs st = Inr (st', e', txs')"
    and bc': "bc_economy bc' = e'"
    by (rule create_block_Inr[OF create]) (rule that, simp_all)
  obtain s1 ft s2 e2 coinbase where
    parts: "replay apply_transaction st txs = Inr s1"
    "try_fold (add_fee_shares (bc_economy bc)) no_fees txs = Inr ft"
    "settle_fees (w_address w) ft s1 (bc_economy bc) = Inr (s2, e2)"
    and mint: "mint e2 (ec_block_reward e2) = Inr e'"
    and coinbase: "coinbase = new_coinbase cr (w_address w) (ec_block_reward e2)
      (word_of_nat (length (bc_chain bc)))" "apply_transaction s2 coinbase = (st', Inr ())"
    by (rule execute_transactions_Inr[OF exec]) (rule that)
  have ordinary: "list_all (\<lambda>tx. \<not> tx_coinbase tx) txs"
    using take_valid_transactions_wf(2)[OF take books_balanced_bound[OF books] wf]
    by (auto simp: list_all_iff tx_authentic_def)
  have amount: "tx_amount coinbase = ec_block_reward e2" "tx_coinbase coinbase"
    by (simp_all add: coinbase(1))
  have "ft_burn ft = 0"
    using fee_totals_exact[OF _ parts(2)] books by (simp add: books_balanced_def)
  then have reward: "ec_block_reward e2 = ec_block_reward (bc_economy bc)"
    using settle_fees_Inr(9)[OF parts(3)] settings_fields(2) by blast
  note result = settled_books[OF books parts(1) ordinary parts(2,3) mint[folded amount(1)] amount(2) coinbase(2)]
  show "books_balanced st' (bc_economy bc')" "settings (bc_economy bc') = settings (bc_economy bc)"
    "unat (ec_total_supply (bc_economy bc')) =
      unat (ec_total_supply (bc_economy bc)) + unat (ec_block_reward (bc_economy bc))"
    using result by (simp_all add: bc' amount(1) reward)
qed

section \<open>What a valid chain is\<close>

definition chain_tx_ids :: "block list \<Rightarrow> string list" where
  "chain_tx_ids chain = map tx_id (concat (map blk_transactions chain))"

lemma chain_tx_ids_simps [simp]:
  "chain_tx_ids [] = []"
  "chain_tx_ids (b # bs) = map tx_id (blk_transactions b) @ chain_tx_ids bs"
  "chain_tx_ids (xs @ ys) = chain_tx_ids xs @ chain_tx_ids ys"
  by (simp_all add: chain_tx_ids_def)

lemma chain_ids_set: "chain_ids chain = set (chain_tx_ids chain)"
  by (auto simp: chain_ids_def chain_tx_ids_def)

definition tx_sealed :: "crypto \<Rightarrow> u64 \<Rightarrow> transaction \<Rightarrow> bool" where
  "tx_sealed cr index tx \<longleftrightarrow>
     tx_id tx = calculate_id cr tx \<and> (tx_coinbase tx \<longrightarrow> tx_reward_marker tx = ucast index)"

definition block_ok :: "crypto \<Rightarrow> nat \<Rightarrow> block \<Rightarrow> bool" where
  "block_ok cr position b \<longleftrightarrow>
     is_ok (validate_block_field_sizes b) \<and> blk_index b = word_of_nat position \<and>
     blk_hash b = calculate_hash cr b \<and> list_all (tx_sealed cr (blk_index b)) (blk_transactions b)"

definition follows :: "crypto \<Rightarrow> block list \<Rightarrow> block \<Rightarrow> bool" where
  "follows cr before b =
     (if before = [] then blk_previous_hash b = ''0'' else block_linked cr (last before) b)"

lemma check_block_ids_Some:
  "check_block_ids cr index seen txs = Some seen' \<longleftrightarrow>
     list_all (tx_sealed cr index) txs \<and> distinct (map tx_id txs) \<and>
     tx_id ` set txs \<inter> seen = {} \<and> seen' = tx_id ` set txs \<union> seen"
  by (induction txs arbitrary: seen) (auto simp: tx_sealed_def)

lemma is_valid_loop_Cons:
  "is_valid_loop cr chain seen position (b # bs) \<longleftrightarrow>
     block_ok cr position b \<and> distinct (map tx_id (blk_transactions b)) \<and>
     tx_id ` set (blk_transactions b) \<inter> seen = {} \<and>
     (if position = 0 then blk_previous_hash b = ''0'' else block_linked cr (chain ! (position - 1)) b) \<and>
     is_valid_loop cr chain (tx_id ` set (blk_transactions b) \<union> seen) (position + 1) bs"
proof (cases "check_block_ids cr (blk_index b) seen (blk_transactions b)")
  case None
  then have "\<not> (list_all (tx_sealed cr (blk_index b)) (blk_transactions b) \<and>
      distinct (map tx_id (blk_transactions b)) \<and> tx_id ` set (blk_transactions b) \<inter> seen = {})"
    using check_block_ids_Some[of cr "blk_index b" seen "blk_transactions b"
        "tx_id ` set (blk_transactions b) \<union> seen"] by simp
  with None show ?thesis
    by (auto simp: block_ok_def)
next
  case (Some seen')
  then have "list_all (tx_sealed cr (blk_index b)) (blk_transactions b) \<and>
      distinct (map tx_id (blk_transactions b)) \<and> tx_id ` set (blk_transactions b) \<inter> seen = {} \<and>
      seen' = tx_id ` set (blk_transactions b) \<union> seen"
    by (simp only: check_block_ids_Some)
  with Some show ?thesis
    unfolding is_valid_loop.simps block_ok_def by (simp only: option.case simp_thms if_bool_eq_conj) auto
qed

lemma is_valid_loop_iff:
  "is_valid_loop cr (before @ bs) seen (length before) bs \<longleftrightarrow>
     distinct (chain_tx_ids bs) \<and> set (chain_tx_ids bs) \<inter> seen = {} \<and>
     (\<forall>us b vs. bs = us @ b # vs \<longrightarrow>
        block_ok cr (length before + length us) b \<and> follows cr (before @ us) b)"
proof (induction bs arbitrary: before seen)
  case Nil
  then show ?case by simp
next
  case (Cons b bs)
  have split: "(\<forall>us c vs. b # bs = us @ c # vs \<longrightarrow> P us c) \<longleftrightarrow>
      P [] b \<and> (\<forall>us c vs. bs = us @ c # vs \<longrightarrow> P (b # us) c)" for P
    by (auto simp: Cons_eq_append_conv)
  have link: "(if length before = 0 then blk_previous_hash b = ''0''
      else block_linked cr ((before @ b # bs) ! (length before - 1)) b) \<longleftrightarrow> follows cr before b"
    by (simp add: follows_def nth_append last_conv_nth)
  have rest: "is_valid_loop cr (before @ b # bs) seen' (length before + 1) bs \<longleftrightarrow>
      distinct (chain_tx_ids bs) \<and> set (chain_tx_ids bs) \<inter> seen' = {} \<and>
      (\<forall>us c vs. bs = us @ c # vs \<longrightarrow>
         block_ok cr (length before + length (b # us)) c \<and> follows cr (before @ b # us) c)" for seen'
    using Cons.IH[of "before @ [b]" seen'] by simp
  show ?case
    unfolding is_valid_loop_Cons link rest split by auto
qed

lemma is_valid_iff:
  "is_valid cr bc \<longleftrightarrow>
     distinct (chain_tx_ids (bc_chain bc)) \<and>
     (\<forall>us b vs. bc_chain bc = us @ b # vs \<longrightarrow> block_ok cr (length us) b \<and> follows cr us b)"
  using is_valid_loop_iff[of cr "[]" "bc_chain bc" "{}"] by (simp add: is_valid_def)

lemma is_valid_snoc:
  assumes "bc_chain bc' = bc_chain bc @ [b]"
  shows "is_valid cr bc' \<longleftrightarrow> is_valid cr bc \<and> block_ok cr (length (bc_chain bc)) b \<and>
    follows cr (bc_chain bc) b \<and> distinct (map tx_id (blk_transactions b)) \<and>
    tx_id ` set (blk_transactions b) \<inter> chain_ids (bc_chain bc) = {}"
proof -
  have split: "(\<forall>us c vs. bc_chain bc @ [b] = us @ c # vs \<longrightarrow> P us c) \<longleftrightarrow>
      (\<forall>us c vs. bc_chain bc = us @ c # vs \<longrightarrow> P us c) \<and> P (bc_chain bc) b" (is "?l \<longleftrightarrow> ?r") for P
  proof
    assume ?l
    then show ?r by fastforce
  next
    assume ?r
    then show ?l by (metis append_butlast_last_id append_self_conv2 butlast.simps(2) butlast_append
          butlast_snoc last.simps last_appendR list.distinct(1) last_snoc)
  qed
  show ?thesis
    unfolding is_valid_iff assms split by (auto simp: chain_ids_set)
qed

section \<open>Appending a block\<close>

lemma insert_ids_Inr:
  "try_fold insert_id seen txs = Inr seen' \<longleftrightarrow>
     distinct (map tx_id txs) \<and> tx_id ` set txs \<inter> seen = {} \<and> seen' = tx_id ` set txs \<union> seen"
  by (induction txs arbitrary: seen) (auto simp: insert_id_def result_simps)

lemma uniqueness_Inr:
  "validate_transaction_id_uniqueness bc b = Inr () \<longleftrightarrow>
     distinct (map tx_id (blk_transactions b)) \<and>
     tx_id ` set (blk_transactions b) \<inter> chain_ids (bc_chain bc) = {}"
  by (auto simp: validate_transaction_id_uniqueness_def result_simps insert_ids_Inr)

lemma validate_future_timestamp_Inr:
  "validate_future_timestamp clock t = Inr () \<longleftrightarrow>
     (\<exists>now. clock = Some now \<and> unat now + unat MAX_FUTURE_DRIFT_SECONDS < 2 ^ 64 \<and>
        unat t \<le> unat now + unat MAX_FUTURE_DRIFT_SECONDS)"
proof -
  have "unat (now + MAX_FUTURE_DRIFT_SECONDS) = unat now + unat MAX_FUTURE_DRIFT_SECONDS"
    if "unat now + unat MAX_FUTURE_DRIFT_SECONDS < 2 ^ 64" for now :: u64
    using that by (simp add: unat_add_fits)
  then show ?thesis
    by (auto simp: validate_future_timestamp_def result_simps checked_add_def word_le_nat_alt not_less)
qed

lemma add_received_block_Inr:
  "add_received_block cr clock bc b = Inr bc' \<longleftrightarrow>
     validate_block_field_sizes b = Inr () \<and> validate_transaction_id_uniqueness bc b = Inr () \<and>
     bc_chain bc \<noteq> [] \<and> blk_previous_hash b = blk_hash (last (bc_chain bc)) \<and>
     blk_timestamp (last (bc_chain bc)) < blk_timestamp b \<and>
     validate_future_timestamp clock (blk_timestamp b) = Inr () \<and>
     blk_hash b = calculate_hash cr b \<and> blk_index b = word_of_nat (length (bc_chain bc)) \<and>
     bc' = bc\<lparr>bc_chain := bc_chain bc @ [b]\<rparr>"
  by (auto simp: add_received_block_def last_block_def result_simps not_le)

lemma make_block_sel [simp]:
  "blk_index (make_block cr chain t w txs) = word_of_nat (length chain)"
  "blk_timestamp (make_block cr chain t w txs) = t"
  "blk_previous_hash (make_block cr chain t w txs) = blk_hash (last chain)"
  "blk_validator (make_block cr chain t w txs) = w_address w"
  "blk_validator_public_key (make_block cr chain t w txs) = public_key_hex cr w"
  "blk_transactions (make_block cr chain t w txs) = txs"
  "blk_hash (make_block cr chain t w txs) = calculate_hash cr (make_block cr chain t w txs)"
  "blk_validator_signature (make_block cr chain t w txs) =
     Some (wallet_sign cr w (as_bytes (blk_hash (make_block cr chain t w txs))))"
  by (simp_all add: make_block_def Let_def)

lemma create_block_received:
  assumes "create_block_from_mempool cr clock bc t w mp st = Inr (bc', mp', st', b)"
  shows "add_received_block cr clock bc b = Inr (bc\<lparr>bc_chain := bc_chain bc @ [b]\<rparr>)"
  by (rule create_block_Inr[OF assms]) (simp add: add_received_block_Inr)

text \<open>The signature of a produced block verifies under the key and address it names.\<close>

lemma make_block_linked:
  assumes "crypto_spec cr" and "wallet_wf cr w" and "blk_timestamp (last chain) < t"
  shows "block_linked cr (last chain) (make_block cr chain t w txs)"
proof -
  have "address_from_public_key cr (public_key_hex cr w) = Some (w_address w)"
    and "wallet_verify cr (public_key_hex cr w) m (wallet_sign cr w m)" for m
    using assms(1,2) by (simp_all add: wallet_address_derived wallet_signature_verifies)
  then show ?thesis
    using assms(3) by (simp add: block_linked_def block_is_signed_def not_le del: make_block_sel(7))
qed

section \<open>The hash of the tip determines the chain\<close>

definition collision_between :: "crypto \<Rightarrow> block list \<Rightarrow> block list \<Rightarrow> bool" where
  "collision_between cr bs cs \<longleftrightarrow>
     list_ex (\<lambda>b. list_ex (\<lambda>c. sha256_collision cr (block_data b) (block_data c)) cs) bs"

lemma tip_determines_chain:
  assumes "sha256_spec cr"
    and "is_valid cr bc" and "is_valid cr bd"
    and "list_all block_fits (bc_chain bc)" and "list_all block_fits (bc_chain bd)"
    and "length (bc_chain bc) < 2 ^ 64" and "length (bc_chain bd) < 2 ^ 64"
    and "bc_chain bc \<noteq> []" and "bc_chain bd \<noteq> []"
    and "blk_hash (last (bc_chain bc)) = blk_hash (last (bc_chain bd))"
  shows "map block_payload (bc_chain bc) = map block_payload (bc_chain bd) \<or>
    collision_between cr (bc_chain bc) (bc_chain bd)"
  using assms(2-)
proof (induction "bc_chain bc" arbitrary: bc bd rule: rev_induct)
  case Nil
  then show ?case by simp
next
  case (snoc b us)
  obtain vs c where vs: "bc_chain bd = vs @ [c]"
    using snoc.prems(8) by (metis append_butlast_last_id)
  let ?bc = "bc\<lparr>bc_chain := us\<rparr>" and ?bd = "bd\<lparr>bc_chain := vs\<rparr>"
  have b: "is_valid cr ?bc" "block_ok cr (length us) b" "follows cr us b"
    using snoc.prems(1) is_valid_snoc[of bc ?bc b cr] by (simp_all flip: snoc.hyps(2))
  have c: "is_valid cr ?bd" "block_ok cr (length vs) c" "follows cr vs c"
    using snoc.prems(2) is_valid_snoc[of bd ?bd c cr] by (simp_all add: vs)
  have fits: "block_fits b" "block_fits c" "list_all block_fits us" "list_all block_fits vs"
    using snoc.prems(3,4) by (simp_all add: vs flip: snoc.hyps(2))
  have "calculate_hash cr b = calculate_hash cr c"
    using snoc.prems(9) b(2) c(2) by (simp add: vs block_ok_def flip: snoc.hyps(2))
  then consider (collision) "sha256_collision cr (block_data b) (block_data c)"
    | (same) "block_payload b = block_payload c"
    using calculate_hash_unique[OF assms(1) fits(1,2)] by blast
  then show ?case
  proof cases
    case collision
    then show ?thesis
      by (simp add: collision_between_def vs flip: snoc.hyps(2))
  next
    case same
    have len: "length us < 2 ^ 64" "length vs < 2 ^ 64"
      using snoc.prems(5,6) by (simp_all add: vs flip: snoc.hyps(2))
    have "(word_of_nat (length us) :: u64) = word_of_nat (length vs)"
      using same b(2) c(2) by (simp add: block_payload_eq_iff block_ok_def)
    then have lengths: "length us = length vs"
      using len by (simp add: word_of_nat64_inject)
    show ?thesis
    proof (cases "us = []")
      case True
      then show ?thesis
        using lengths same by (simp add: vs flip: snoc.hyps(2))
    next
      case False
      then have ne: "vs \<noteq> []"
        using lengths by auto
      have "blk_hash (last us) = blk_hash (last vs)"
        using b(3) c(3) same False ne
        by (simp add: follows_def block_linked_def block_payload_eq_iff split: if_splits)
      then have "map block_payload us = map block_payload vs \<or> collision_between cr us vs"
        using snoc.hyps(1)[of ?bc ?bd] b(1) c(1) fits(3,4) len False ne by simp
      then show ?thesis
        using same by (auto simp: collision_between_def list_ex_iff vs simp flip: snoc.hyps(2))
    qed
  qed
qed

end
