(* ===== verification/Consensus.thy ===== *)
theory Consensus
  imports Crypto
begin

text \<open>
  \<open>src/consensus/mod.rs\<close>: the registered validators and the choice of the next block's
  validator from the hash of its predecessor. The interface \<open>stake_selector\<close> states the choice
  as a partition of \<open>[0, total stake)\<close> into one interval per validator; from it follow that a
  validator is chosen exactly when there is stake, and that each one is chosen by as many
  numbers as its stake counts.
\<close>

record validator =
  val_address :: string
  val_stake :: u64

record consensus =
  co_validators :: "validator list"

definition consensus_new :: consensus where
  "consensus_new = \<lparr>co_validators = []\<rparr>"

definition is_validator_allowed :: "consensus \<Rightarrow> string \<Rightarrow> bool" where
  "is_validator_allowed co address \<longleftrightarrow> list_ex (\<lambda>v. val_address v = address) (co_validators co)"

definition add_validator :: "consensus \<Rightarrow> string \<Rightarrow> u64 \<Rightarrow> consensus \<times> bool" where
  "add_validator co address stake =
     (if stake = 0 then (co, False)
      else if list_ex (\<lambda>v. val_address v = address) (co_validators co) then (co, False)
      else (co\<lparr>co_validators := co_validators co @ [\<lparr>val_address = address, val_stake = stake\<rparr>]\<rparr>,
            True))"

definition get_validator :: "consensus \<Rightarrow> string \<Rightarrow> validator option" where
  "get_validator co address = find (\<lambda>v. val_address v = address) (co_validators co)"

text \<open>Writing through the reference that \<open>iter_mut().find(..)\<close> returns.\<close>

fun update_first :: "('a \<Rightarrow> bool) \<Rightarrow> ('a \<Rightarrow> 'a) \<Rightarrow> 'a list \<Rightarrow> 'a list" where
  "update_first p f [] = []"
| "update_first p f (x # xs) = (if p x then f x # xs else x # update_first p f xs)"

definition increase_stake :: "consensus \<Rightarrow> string \<Rightarrow> u64 \<Rightarrow> consensus result" where
  "increase_stake co address amount =
     (case find (\<lambda>v. val_address v = address) (co_validators co) of
        None \<Rightarrow> Inl (Consensus_error Validator_not_found)
      | Some _ \<Rightarrow>
          Inr (co\<lparr>co_validators := update_first (\<lambda>v. val_address v = address)
                 (\<lambda>v. v\<lparr>val_stake := val_stake v + amount\<rparr>) (co_validators co)\<rparr>))"

definition decrease_stake :: "consensus \<Rightarrow> string \<Rightarrow> u64 \<Rightarrow> consensus result" where
  "decrease_stake co address amount =
     (case find (\<lambda>v. val_address v = address) (co_validators co) of
        None \<Rightarrow> Inl (Consensus_error Validator_not_found)
      | Some validator \<Rightarrow>
          if val_stake validator < amount then Inl (Consensus_error Insufficient_stake)
          else Inr (co\<lparr>co_validators := update_first (\<lambda>v. val_address v = address)
                      (\<lambda>v. v\<lparr>val_stake := val_stake v - amount\<rparr>) (co_validators co)\<rparr>))"

text \<open>\<open>.sum()\<close> on \<open>u64\<close>, wrapping in a release build.\<close>

definition total_stake :: "consensus \<Rightarrow> u64" where
  "total_stake co = sum_list (map val_stake (co_validators co))"

definition validator_count :: "consensus \<Rightarrow> nat" where
  "validator_count co = length (co_validators co)"

text \<open>The loop of \<open>select_validator\<close>.\<close>

fun select_loop :: "u64 \<Rightarrow> u64 \<Rightarrow> validator list \<Rightarrow> validator option" where
  "select_loop target current [] = None"
| "select_loop target current (v # vs) =
     (let current = current + val_stake v
      in if target < current then Some v else select_loop target current vs)"

definition select_validator :: "consensus \<Rightarrow> u64 \<Rightarrow> validator option result" where
  "select_validator co number =
     (let total = total_stake co
      in if total = 0 then Inr None
         else and_then (remainder number total) (\<lambda>target. Inr (select_loop target 0 (co_validators co))))"

definition from_be_bytes :: "byte list \<Rightarrow> u64" where
  "from_be_bytes bs = foldl (\<lambda>w b. push_bit 8 w + ucast b) 0 bs"

definition select_validator_from_hash :: "crypto \<Rightarrow> consensus \<Rightarrow> string \<Rightarrow> validator option result" where
  "select_validator_from_hash cr co previous_hash =
     select_validator co (from_be_bytes (take 8 (sha256 cr (as_bytes previous_hash))))"

section \<open>Choosing in proportion to weight\<close>

locale stake_selector =
  fixes members :: "'pool \<Rightarrow> 'v list"
    and weight :: "'v \<Rightarrow> nat"
    and admissible :: "'pool \<Rightarrow> bool"
    and select :: "'pool \<Rightarrow> nat \<Rightarrow> 'e + 'v option"
  assumes select_interval: "\<lbrakk>admissible p; n < sum_list (map weight (members p))\<rbrakk> \<Longrightarrow>
      select p n = Inr (Some v) \<longleftrightarrow> (\<exists>us vs. members p = us @ v # vs \<and>
        sum_list (map weight us) \<le> n \<and> n < sum_list (map weight us) + weight v)"
begin

lemma interval_exists:
  "n < sum_list (map weight xs) \<Longrightarrow> \<exists>us v vs. xs = us @ v # vs \<and>
     sum_list (map weight us) \<le> n \<and> n < sum_list (map weight us) + weight v"
proof (induction xs arbitrary: n)
  case Nil
  then show ?case by simp
next
  case (Cons x xs)
  show ?case
  proof (cases "n < weight x")
    case True
    then show ?thesis
      by (intro exI[of _ "[]"] exI[of _ x] exI[of _ xs]) simp
  next
    case False
    then have "n - weight x < sum_list (map weight xs)"
      using Cons.prems by simp
    then obtain us v vs where "xs = us @ v # vs" "sum_list (map weight us) \<le> n - weight x"
      "n - weight x < sum_list (map weight us) + weight v"
      using Cons.IH by blast
    with False show ?thesis
      by (intro exI[of _ "x # us"] exI[of _ v] exI[of _ vs]) auto
  qed
qed

lemma selected:
  assumes "admissible p" and "n < sum_list (map weight (members p))"
  shows "\<exists>v. select p n = Inr (Some v) \<and> v \<in> set (members p) \<and> 0 < weight v"
proof -
  obtain us v vs where v: "members p = us @ v # vs" "sum_list (map weight us) \<le> n"
    "n < sum_list (map weight us) + weight v"
    using interval_exists[OF assms(2)] by blast
  then have "select p n = Inr (Some v)"
    using select_interval[OF assms] by blast
  then show ?thesis
    using v by auto
qed

lemma share:
  assumes adm: "admissible p" and "distinct (members p)" and "v \<in> set (members p)"
  shows "card {n. n < sum_list (map weight (members p)) \<and> select p n = Inr (Some v)} = weight v"
proof -
  obtain us vs where split: "members p = us @ v # vs"
    using assms(3) by (meson split_list)
  have unique: "us' = us" if "members p = us' @ v # vs'" for us' vs'
    using that split assms(2) by (metis append_Cons_eq_iff distinct_append not_distinct_conv_prefix
        append_eq_append_conv2 distinct.simps(2) Un_iff set_append list.set_intros(1))
  let ?a = "sum_list (map weight us)"
  have "{n. n < sum_list (map weight (members p)) \<and> select p n = Inr (Some v)} = {?a..<?a + weight v}"
  proof (intro set_eqI iffI)
    fix n
    assume "n \<in> {n. n < sum_list (map weight (members p)) \<and> select p n = Inr (Some v)}"
    then have "\<exists>us' vs'. members p = us' @ v # vs' \<and>
        sum_list (map weight us') \<le> n \<and> n < sum_list (map weight us') + weight v"
      using select_interval[OF adm] by blast
    then show "n \<in> {?a..<?a + weight v}"
      using unique by auto
  next
    fix n
    assume n: "n \<in> {?a..<?a + weight v}"
    then have lt: "n < sum_list (map weight (members p))"
      using split by simp
    have "select p n = Inr (Some v)"
      using select_interval[OF adm lt] split n by auto
    with lt show "n \<in> {n. n < sum_list (map weight (members p)) \<and> select p n = Inr (Some v)}"
      by simp
  qed
  then show ?thesis
    by simp
qed

end

text \<open>The registered stakes, added up without wrap-around.\<close>

definition stake_sum :: "validator list \<Rightarrow> nat" where
  "stake_sum vs = sum_list (map (\<lambda>v. unat (val_stake v)) vs)"

definition stakes_fit :: "consensus \<Rightarrow> bool" where
  "stakes_fit co \<longleftrightarrow> stake_sum (co_validators co) < 2 ^ 64"

lemma unat_sum_stakes:
  "stake_sum vs < 2 ^ 64 \<Longrightarrow> unat (sum_list (map val_stake vs)) = stake_sum vs"
proof (induction vs)
  case Nil
  then show ?case by (simp add: stake_sum_def)
next
  case (Cons v vs)
  then have "unat (sum_list (map val_stake vs)) = stake_sum vs"
    by (simp add: stake_sum_def)
  with Cons.prems show ?case
    by (simp add: stake_sum_def unat_add_fits)
qed

lemma unat_total_stake: "stakes_fit co \<Longrightarrow> unat (total_stake co) = stake_sum (co_validators co)"
  by (simp add: stakes_fit_def total_stake_def unat_sum_stakes)

lemma Cons_split_at:
  "(\<exists>us ws. x # xs = us @ v # ws \<and> P us) \<longleftrightarrow>
     x = v \<and> P [] \<or> (\<exists>us ws. xs = us @ v # ws \<and> P (x # us))"
  by (auto simp: Cons_eq_append_conv)

lemma select_loop_interval:
  assumes "unat current + stake_sum vs < 2 ^ 64" and "unat current \<le> unat target"
  shows "select_loop target current vs = Some v \<longleftrightarrow> (\<exists>us ws. vs = us @ v # ws \<and>
    unat current + stake_sum us \<le> unat target \<and>
    unat target < unat current + stake_sum us + unat (val_stake v))"
  using assms
proof (induction vs arbitrary: current)
  case Nil
  then show ?case by simp
next
  case (Cons x xs)
  have add: "unat (current + val_stake x) = unat current + unat (val_stake x)"
    using Cons.prems(1) by (simp add: unat_add_fits stake_sum_def)
  have sum: "stake_sum (x # ys) = unat (val_stake x) + stake_sum ys" for ys
    by (simp add: stake_sum_def)
  have nil: "stake_sum [] = 0"
    by (simp add: stake_sum_def)
  show ?case
  proof (cases "target < current + val_stake x")
    case True
    then have "unat target < unat current + unat (val_stake x)"
      by (simp add: word_less_nat_alt add)
    moreover have "\<not> (unat current + stake_sum (x # us) \<le> unat target)" for us
      using calculation by (simp add: sum)
    ultimately show ?thesis
      using Cons.prems(2) True unfolding Cons_split_at by (auto simp: Let_def nil)
  next
    case False
    then have ge: "unat current + unat (val_stake x) \<le> unat target"
      by (simp add: word_less_nat_alt add)
    have "select_loop target (current + val_stake x) xs = Some v \<longleftrightarrow> (\<exists>us ws. xs = us @ v # ws \<and>
      unat current + unat (val_stake x) + stake_sum us \<le> unat target \<and>
      unat target < unat current + unat (val_stake x) + stake_sum us + unat (val_stake v))"
      by (rule Cons.IH[of "current + val_stake x", unfolded add])
        (use Cons.prems(1) ge in \<open>simp_all add: sum\<close>)
    moreover have "\<not> unat target < unat current + stake_sum [] + unat (val_stake x)"
      using ge by (simp add: nil)
    ultimately show ?thesis
      using False unfolding Cons_split_at by (auto simp: Let_def sum add.assoc)
  qed
qed

interpretation stakes: stake_selector co_validators "\<lambda>v. unat (val_stake v)" stakes_fit
  "\<lambda>co n. select_validator co (word_of_nat n)"
proof
  fix co :: consensus and n v
  let ?total = "sum_list (map (\<lambda>v. unat (val_stake v)) (co_validators co))"
  assume fit: "stakes_fit co" and n: "n < ?total"
  then have lt: "n < 2 ^ LENGTH(64)"
    by (simp add: stakes_fit_def stake_sum_def)
  then have unat_n: "unat (word_of_nat n :: u64) = n"
    by (simp only: unsigned_of_nat take_bit_nat_eq_self of_nat_id)
  have total: "unat (total_stake co) = ?total"
    using unat_total_stake[OF fit] by (simp add: stake_sum_def)
  with n have nonzero: "total_stake co \<noteq> 0"
    by (metis not_less_zero unat_0)
  have "unat (word_of_nat n mod total_stake co) = n"
    using n by (simp add: unat_mod unat_n total)
  then show "select_validator co (word_of_nat n) = Inr (Some v) \<longleftrightarrow>
      (\<exists>us vs. co_validators co = us @ v # vs \<and>
         sum_list (map (\<lambda>v. unat (val_stake v)) us) \<le> n \<and>
         n < sum_list (map (\<lambda>v. unat (val_stake v)) us) + unat (val_stake v))"
    using select_loop_interval[of 0 "co_validators co" "word_of_nat n mod total_stake co" v] nonzero fit
    by (simp add: select_validator_def stakes_fit_def stake_sum_def Let_def)
qed

lemma select_loop_member: "select_loop target current vs = Some v \<Longrightarrow> v \<in> set vs"
  by (induction vs arbitrary: current) (auto simp: Let_def split: if_splits)

lemma select_validator_member:
  "select_validator_from_hash cr co previous_hash = Inr (Some v) \<Longrightarrow> v \<in> set (co_validators co)"
  by (auto simp: select_validator_from_hash_def select_validator_def Let_def result_simps
      dest: select_loop_member split: if_splits)

lemma select_validator_total: "select_validator co number \<noteq> Inl e"
  by (simp add: select_validator_def Let_def)

lemma select_validator_from_hash_total: "select_validator_from_hash cr co previous_hash \<noteq> Inl e"
  by (simp add: select_validator_from_hash_def select_validator_total)

lemma select_validator_mod:
  "select_validator co number = select_validator co (word_of_nat (unat number mod unat (total_stake co)))"
proof -
  have "(word_of_nat (unat number mod unat (total_stake co)) :: u64) = number mod total_stake co"
    by (simp add: word_mod_def word_of_nat_eq_iff flip: unat_mod)
  moreover have "number mod total_stake co mod total_stake co = number mod total_stake co"
    by (simp add: word_unat_eq_iff unat_mod)
  ultimately show ?thesis
    by (simp add: select_validator_def Let_def)
qed

lemma select_validator_defined:
  assumes "stakes_fit co"
  shows "select_validator co number = Inr None \<longleftrightarrow> stake_sum (co_validators co) = 0"
    and "select_validator co number = Inr (Some v) \<Longrightarrow> v \<in> set (co_validators co) \<and> val_stake v \<noteq> 0"
proof -
  let ?n = "unat number mod unat (total_stake co)"
  have total: "unat (total_stake co) = stake_sum (co_validators co)"
    using assms by (rule unat_total_stake)
  have some: "\<exists>v. select_validator co number = Inr (Some v) \<and> v \<in> set (co_validators co) \<and> val_stake v \<noteq> 0"
    if "stake_sum (co_validators co) \<noteq> 0"
  proof -
    have "?n < sum_list (map (\<lambda>v. unat (val_stake v)) (co_validators co))"
      using that by (simp add: total flip: stake_sum_def)
    from stakes.selected[OF assms this] show ?thesis
      by (auto simp: select_validator_mod[of co number] unat_gt_0)
  qed
  have none: "select_validator co number = Inr None" if "stake_sum (co_validators co) = 0"
    using that total by (simp add: select_validator_def unat_eq_zero Let_def)
  show "select_validator co number = Inr None \<longleftrightarrow> stake_sum (co_validators co) = 0"
    using some none by (metis option.distinct(1) sum.inject(2))
  show "v \<in> set (co_validators co) \<and> val_stake v \<noteq> 0" if "select_validator co number = Inr (Some v)"
    using some none that by (metis option.distinct(1) option.inject sum.inject(2))
qed

section \<open>No address is registered twice\<close>

definition consensus_wf :: "consensus \<Rightarrow> bool" where
  "consensus_wf co \<longleftrightarrow> distinct (map val_address (co_validators co))"

lemma map_update_first:
  "(\<And>x. g (f x) = g x) \<Longrightarrow> map g (update_first p f xs) = map g xs"
  by (induction xs) simp_all

lemma consensus_wf_distinct: "consensus_wf co \<Longrightarrow> distinct (co_validators co)"
  by (simp add: consensus_wf_def distinct_map)

lemma consensus_new_wf [simp]: "consensus_wf consensus_new" "stakes_fit consensus_new"
  by (simp_all add: consensus_wf_def consensus_new_def stakes_fit_def stake_sum_def)

lemma add_validator_wf: "consensus_wf co \<Longrightarrow> consensus_wf (fst (add_validator co a s))"
  by (auto simp: add_validator_def consensus_wf_def list_ex_iff)

lemma change_stake_wf:
  "consensus_wf co \<Longrightarrow> increase_stake co a s = Inr co' \<Longrightarrow> consensus_wf co'"
  "consensus_wf co \<Longrightarrow> decrease_stake co a s = Inr co' \<Longrightarrow> consensus_wf co'"
  by (auto simp: increase_stake_def decrease_stake_def consensus_wf_def map_update_first
      split: option.splits if_splits)

lemma get_validator_unique:
  assumes "consensus_wf co"
  shows "get_validator co a = Some v \<longleftrightarrow> v \<in> set (co_validators co) \<and> val_address v = a"
proof -
  have "find (\<lambda>v. val_address v = a) vs = Some v \<longleftrightarrow> v \<in> set vs \<and> val_address v = a"
    if "distinct (map val_address vs)" for vs
    using that by (induction vs) auto
  then show ?thesis
    using assms by (simp add: consensus_wf_def get_validator_def)
qed

end
