(* ===== verification/Validation.thy ===== *)
theory Validation
  imports Blockchain Consensus
begin

text \<open>
  The first half of \<open>src/node/mod.rs\<close>: the checks a node makes on a transaction, and
  \<open>validate_and_apply_block\<close>, which checks a block against a chain and a state and computes the
  chain and state after it. These methods read only the consensus part of the node, which is
  their argument \<open>co\<close>. The lemmas say exactly when a block is accepted and what it does, that the books
  stay balanced and the chain valid, and that a block from \<open>create_block_from_mempool\<close> is
  accepted with the result its producer computed.
\<close>

section \<open>Checks on a transaction\<close>

definition node_validate_transaction_field_sizes :: "transaction \<Rightarrow> unit result" where
  "node_validate_transaction_field_sizes tx =
     (if \<not> is_fixed_hex (tx_id tx) HASH_HEX_LENGTH then Inl (Format_error Transaction_id_format)
      else if tx_coinbase tx then
        (if tx_from tx \<noteq> SYSTEM_ADDRESS \<or> tx_public_key tx \<noteq> SYSTEM_PUBLIC_KEY
         then Inl (Format_error Coinbase_system_fields)
         else if \<not> is_fixed_hex (tx_to tx) ADDRESS_HEX_LENGTH
         then Inl (Format_error Coinbase_recipient_format)
         else case tx_signature tx of
                Some signature \<Rightarrow>
                  if signature = SYSTEM_REWARD_SIGNATURE then Inr ()
                  else Inl (Format_error Coinbase_signature_format)
              | None \<Rightarrow> Inl (Format_error Coinbase_signature_format))
      else if \<not> is_fixed_hex (tx_from tx) ADDRESS_HEX_LENGTH \<or>
              \<not> is_fixed_hex (tx_to tx) ADDRESS_HEX_LENGTH
      then Inl (Format_error Transaction_address_format)
      else if \<not> is_fixed_hex (tx_public_key tx) PUBLIC_KEY_HEX_LENGTH
      then Inl (Format_error Transaction_public_key_format)
      else and_then (ok_or (tx_signature tx) (Format_error Transaction_signature_missing))
             (\<lambda>signature.
                if \<not> is_fixed_hex signature SIGNATURE_HEX_LENGTH
                then Inl (Format_error Transaction_signature_format)
                else Inr ()))"

definition validate_transaction_base :: "crypto \<Rightarrow> transaction \<Rightarrow> economy \<Rightarrow> unit result" where
  "validate_transaction_base cr tx e =
     and_then (node_validate_transaction_field_sizes tx) (\<lambda>_.
     if tx_coinbase tx then Inl (Transaction_check Coinbase_not_for_mempool)
     else if tx_from tx = SYSTEM_ADDRESS then Inl (Transaction_check System_sender)
     else if tx_reward_marker tx \<noteq> 0 then Inl (Transaction_check Reward_marker_not_zero)
     else if tx_id tx \<noteq> calculate_id cr tx then Inl (Transaction_check Transaction_id_invalid)
     else if \<not> tx_is_signed tx then Inl (Transaction_check Signature_missing)
     else and_then (ok_or (address_from_public_key cr (tx_public_key tx))
                      (Transaction_check Public_key_invalid)) (\<lambda>derived_address.
       if derived_address \<noteq> tx_from tx then Inl (Transaction_check Sender_address_mismatch)
       else and_then (ok_or (tx_signature tx) (Transaction_check Signature_not_found)) (\<lambda>signature.
         if \<not> wallet_verify cr (tx_public_key tx) (tx_message tx) signature
         then Inl (Transaction_check Signature_invalid)
         else if tx_amount tx = 0 then Inl (Transaction_check Amount_is_zero)
         else if \<not> validate_fee e (tx_amount tx) (tx_fee tx)
         then Inl (Transaction_check (Fee_is_invalid (calculate_fee e (tx_amount tx)) (tx_fee tx)))
         else Inr ())))"

definition validate_transaction ::
  "crypto \<Rightarrow> transaction \<Rightarrow> state \<Rightarrow> economy \<Rightarrow> unit result" where
  "validate_transaction cr tx st e =
     and_then (validate_transaction_base cr tx e) (\<lambda>_.
     and_then (ok_or (checked_add (tx_amount tx) (tx_fee tx)) (Transaction_check Total_amount_overflow))
       (\<lambda>total_cost.
        if balance_of st (tx_from tx) < total_cost
        then Inl (Transaction_check Insufficient_balance_for_transaction)
        else let expected_nonce = nonce_of st (tx_from tx)
             in if tx_nonce tx \<noteq> expected_nonce
                then Inl (Transaction_check (Nonce_is_invalid expected_nonce (tx_nonce tx)))
                else Inr ()))"

definition validate_transaction_for_mempool ::
  "crypto \<Rightarrow> transaction \<Rightarrow> state \<Rightarrow> economy \<Rightarrow> mempool \<Rightarrow> unit result" where
  "validate_transaction_for_mempool cr tx st e mp =
     and_then (validate_transaction_base cr tx e) (\<lambda>_.
     and_then (next_nonce mp (tx_from tx) (nonce_of st (tx_from tx))) (\<lambda>expected_nonce.
       if tx_nonce tx \<noteq> expected_nonce
       then Inl (Transaction_check (Nonce_is_invalid expected_nonce (tx_nonce tx)))
       else and_then (ok_or (checked_add (tx_amount tx) (tx_fee tx))
                        (Transaction_check Total_amount_overflow)) (\<lambda>transaction_cost.
            and_then (pending_cost mp (tx_from tx)) (\<lambda>reserved.
            and_then (ok_or (checked_add reserved transaction_cost)
                        (Transaction_check Reserved_total_overflow)) (\<lambda>total_reserved_cost.
              if balance_of st (tx_from tx) < total_reserved_cost
              then Inl (Transaction_check Insufficient_available_balance)
              else Inr ())))))"

section \<open>Checks on a block\<close>

text \<open>The formats at the start of \<open>validate_and_apply_block\<close>.\<close>

definition check_block_format :: "block \<Rightarrow> unit result" where
  "check_block_format b =
     (if length (blk_transactions b) > MAX_TOTAL_TRANSACTIONS_PER_BLOCK
      then Inl (Format_error Block_transaction_limit)
      else if \<not> is_fixed_hex (blk_previous_hash b) HASH_HEX_LENGTH \<or>
              \<not> is_fixed_hex (blk_hash b) HASH_HEX_LENGTH
      then Inl (Format_error Block_hash_format)
      else if \<not> is_fixed_hex (blk_validator b) ADDRESS_HEX_LENGTH
      then Inl (Format_error Block_validator_address_format)
      else if \<not> is_fixed_hex (blk_validator_public_key b) PUBLIC_KEY_HEX_LENGTH
      then Inl (Format_error Block_validator_public_key_format)
      else and_then (ok_or (blk_validator_signature b) (Format_error Block_validator_signature_missing))
             (\<lambda>validator_signature.
                if \<not> is_fixed_hex validator_signature SIGNATURE_HEX_LENGTH
                then Inl (Format_error Block_validator_signature_format)
                else try_fold (\<lambda>_. node_validate_transaction_field_sizes) () (blk_transactions b)))"

text \<open>The validator: selected, owner of the key, registered, signer of the hash.\<close>

definition check_block_validator :: "crypto \<Rightarrow> consensus \<Rightarrow> block \<Rightarrow> unit result" where
  "check_block_validator cr co b =
     and_then (select_validator_from_hash cr co (blk_previous_hash b)) (\<lambda>selected.
     and_then (ok_or selected (Block_check Validator_not_selected)) (\<lambda>expected_validator.
     if blk_validator b \<noteq> val_address expected_validator
     then Inl (Block_check Selected_validator_different)
     else and_then (ok_or (address_from_public_key cr (blk_validator_public_key b))
                      (Block_check Validator_public_key_invalid)) (\<lambda>derived_validator_address.
       if derived_validator_address \<noteq> blk_validator b
       then Inl (Block_check Validator_address_mismatch)
       else if \<not> is_validator_allowed co (blk_validator b)
       then Inl (Block_check Validator_not_registered)
       else and_then (ok_or (blk_validator_signature b) (Block_check Validator_signature_missing))
              (\<lambda>validator_signature.
                 if \<not> wallet_verify cr (blk_validator_public_key b) (as_bytes (blk_hash b))
                        validator_signature
                 then Inl (Block_check Validator_signature_invalid)
                 else Inr ()))))"

text \<open>The variables of the loop over the transactions.\<close>

record block_run =
  br_state :: state
  br_fees :: fee_totals
  br_coinbase :: "transaction option"

definition check_coinbase ::
  "block \<Rightarrow> economy \<Rightarrow> transaction option \<Rightarrow> nat \<Rightarrow> transaction \<Rightarrow> unit result" where
  "check_coinbase b e coinbase position tx =
     (if coinbase \<noteq> None then Inl (Block_check Second_coinbase)
      else if position \<noteq> length (blk_transactions b) - 1 then Inl (Block_check Coinbase_not_last)
      else if tx_from tx \<noteq> SYSTEM_ADDRESS then Inl (Block_check Coinbase_sender_not_system)
      else if tx_public_key tx \<noteq> SYSTEM_PUBLIC_KEY then Inl (Block_check Coinbase_public_key_invalid)
      else if tx_signature tx \<noteq> Some SYSTEM_REWARD_SIGNATURE
      then Inl (Block_check Coinbase_signature_invalid)
      else if tx_to tx \<noteq> blk_validator b then Inl (Block_check Coinbase_recipient_not_validator)
      else if tx_fee tx \<noteq> 0 then Inl (Block_check Coinbase_fee_not_zero)
      else if tx_nonce tx \<noteq> 0 then Inl (Block_check Coinbase_nonce_not_zero)
      else if tx_reward_marker tx \<noteq> ucast (blk_index b)
      then Inl (Block_check Coinbase_marker_not_index)
      else if tx_amount tx \<noteq> ec_block_reward e then Inl (Block_check Coinbase_amount_invalid)
      else Inr ())"

definition run_transaction ::
  "crypto \<Rightarrow> block \<Rightarrow> economy \<Rightarrow> block_run \<Rightarrow> nat \<times> transaction \<Rightarrow> block_run result" where
  "run_transaction cr b e run pt =
     (case pt of (position, tx) \<Rightarrow>
      if tx_id tx \<noteq> calculate_id cr tx then Inl (Block_check Inner_transaction_id_invalid)
      else if tx_coinbase tx then
        and_then (check_coinbase b e (br_coinbase run) position tx)
          (\<lambda>_. Inr (run\<lparr>br_coinbase := Some tx\<rparr>))
      else if tx_reward_marker tx \<noteq> 0 then Inl (Transaction_check Reward_marker_not_zero)
      else and_then (validate_transaction cr tx (br_state run) e) (\<lambda>_.
           and_then (keep_ok apply_transaction (br_state run) tx) (\<lambda>st.
           and_then (add_fee_shares e (br_fees run) tx) (\<lambda>fees.
             Inr (run\<lparr>br_state := st, br_fees := fees\<rparr>)))))"

text \<open>The steps after the loop: fees, minting, the reward.\<close>

definition finish_block ::
  "block \<Rightarrow> economy \<Rightarrow> block_run \<Rightarrow> (economy \<times> state) result" where
  "finish_block b e run =
     and_then (ok_or (br_coinbase run) (Block_check Coinbase_not_found)) (\<lambda>coinbase.
     and_then (settle_fees (blk_validator b) (br_fees run) (br_state run) e) (\<lambda>(st, e).
     and_then (mint e (tx_amount coinbase)) (\<lambda>e.
     and_then (keep_ok apply_transaction st coinbase) (\<lambda>st. Inr (e, st)))))"

definition validate_and_apply_block ::
  "crypto \<Rightarrow> u64 option \<Rightarrow> consensus \<Rightarrow> block \<Rightarrow> blockchain \<Rightarrow> state \<Rightarrow> (blockchain \<times> state) result"
where
  "validate_and_apply_block cr clock co b current_blockchain current_state =
     and_then (check_block_format b) (\<lambda>_.
     if \<not> is_hash_valid cr b then Inl (Chain_error Block_hash_invalid)
     else and_then (add_received_block cr clock current_blockchain b) (\<lambda>candidate_blockchain.
          and_then (check_block_validator cr co b) (\<lambda>_.
          if blk_transactions b = [] then Inl (Block_check Transaction_list_empty)
          else let e = bc_economy current_blockchain;
                   run = \<lparr>br_state = current_state, br_fees = no_fees, br_coinbase = None\<rparr>
               in and_then (try_fold (run_transaction cr b e) run
                              (List.enumerate 0 (blk_transactions b))) (\<lambda>run.
                  and_then (finish_block b e run) (\<lambda>(e, st).
                    Inr (candidate_blockchain\<lparr>bc_economy := e\<rparr>, st))))))"

section \<open>What the transaction checks mean\<close>

lemma node_field_sizes_eq: "node_validate_transaction_field_sizes = validate_transaction_field_sizes"
  by (simp add: fun_eq_iff node_validate_transaction_field_sizes_def
      validate_transaction_field_sizes_def)

lemma field_sizes_ordinary:
  "\<not> tx_coinbase tx \<Longrightarrow> validate_transaction_field_sizes tx = Inr () \<longleftrightarrow>
     is_fixed_hex (tx_id tx) HASH_HEX_LENGTH \<and> is_fixed_hex (tx_from tx) ADDRESS_HEX_LENGTH \<and>
     is_fixed_hex (tx_to tx) ADDRESS_HEX_LENGTH \<and>
     is_fixed_hex (tx_public_key tx) PUBLIC_KEY_HEX_LENGTH \<and>
     (\<exists>s. tx_signature tx = Some s \<and> is_fixed_hex s SIGNATURE_HEX_LENGTH)"
  by (auto simp: validate_transaction_field_sizes_def result_simps)

lemma validate_transaction_base_Inr:
  "validate_transaction_base cr tx e = Inr () \<longleftrightarrow>
     tx_authentic cr tx \<and> validate_fee e (tx_amount tx) (tx_fee tx)" (is "?l \<longleftrightarrow> ?r")
proof
  assume ?l
  then have "\<not> tx_coinbase tx"
    by (auto simp: validate_transaction_base_def result_simps)
  with \<open>?l\<close> show ?r
    by (auto simp: validate_transaction_base_def node_field_sizes_eq field_sizes_ordinary
        tx_authentic_def result_simps)
next
  assume r: ?r
  then have "\<not> tx_coinbase tx" "tx_from tx \<noteq> SYSTEM_ADDRESS"
    using tx_authentic_sender by (auto simp: tx_authentic_def)
  with r show ?l
    by (auto simp: validate_transaction_base_def node_field_sizes_eq field_sizes_ordinary
        tx_authentic_def tx_is_signed_def result_simps split: option.splits)
qed

text \<open>The checks of balance and nonce are those that applying the transaction makes again.\<close>

lemma accepts_validated:
  assumes "accepts st tx" and "\<not> tx_coinbase tx"
  shows "validate_transaction cr tx st e = validate_transaction_base cr tx e"
proof -
  obtain c where c: "checked_add (tx_amount tx) (tx_fee tx) = Some c" "c \<le> balance_of st (tx_from tx)"
    using cost_fits assms by (metis accepts_def)
  have "nonce_of st (tx_from tx) = tx_nonce tx"
    using assms by (simp add: accepts_def)
  then show ?thesis
    using c by (cases "validate_transaction_base cr tx e") (simp_all add: validate_transaction_def not_le[symmetric])
qed

lemma validate_for_mempool_Inr:
  assumes "validate_transaction_for_mempool cr tx st e mp = Inr ()"
  shows "tx_authentic cr tx" and "validate_fee e (tx_amount tx) (tx_fee tx)"
    and "next_nonce mp (tx_from tx) (nonce_of st (tx_from tx)) = Inr (tx_nonce tx)"
    and "cost_sum (filter (\<lambda>t. tx_from t = tx_from tx) (mp_transactions mp)) + cost_sum [tx] \<le>
      unat (balance_of st (tx_from tx))"
proof -
  obtain c r t where
    base: "validate_transaction_base cr tx e = Inr ()"
    and nonce: "next_nonce mp (tx_from tx) (nonce_of st (tx_from tx)) = Inr (tx_nonce tx)"
    and c: "checked_add (tx_amount tx) (tx_fee tx) = Some c"
    and r: "pending_cost mp (tx_from tx) = Inr r" and t: "checked_add r c = Some t"
    and le: "t \<le> balance_of st (tx_from tx)"
    using assms by (auto simp: validate_transaction_for_mempool_def result_simps not_less)
  show "tx_authentic cr tx" "validate_fee e (tx_amount tx) (tx_fee tx)"
    using base by (simp_all add: validate_transaction_base_Inr)
  show "next_nonce mp (tx_from tx) (nonce_of st (tx_from tx)) = Inr (tx_nonce tx)"
    by (rule nonce)
  show "cost_sum (filter (\<lambda>t. tx_from t = tx_from tx) (mp_transactions mp)) + cost_sum [tx] \<le>
      unat (balance_of st (tx_from tx))"
    using unat_checked_add[OF c] unat_checked_add[OF t] pending_cost_exact[OF r] le
    by (simp add: word_le_nat_alt cost_sum_def)
qed

lemma validate_for_mempool_iff:
  "validate_transaction_for_mempool cr tx st e mp = Inr () \<longleftrightarrow>
     tx_authentic cr tx \<and> validate_fee e (tx_amount tx) (tx_fee tx) \<and>
     next_nonce mp (tx_from tx) (nonce_of st (tx_from tx)) = Inr (tx_nonce tx) \<and>
     cost_sum (filter (\<lambda>t. tx_from t = tx_from tx) (mp_transactions mp)) + cost_sum [tx] \<le>
       unat (balance_of st (tx_from tx))" (is "?l \<longleftrightarrow> ?r")
proof
  show "?l \<Longrightarrow> ?r"
    using validate_for_mempool_Inr by blast
  assume r: ?r
  have bound: "unat (balance_of st (tx_from tx)) < 2 ^ 64"
    by (rule order_less_le_trans[OF unsigned_less]) simp
  then obtain p where p: "pending_cost mp (tx_from tx) = Inr p"
    "unat p = cost_sum (filter (\<lambda>t. tx_from t = tx_from tx) (mp_transactions mp))"
    using r pending_cost_ok_iff[of mp "tx_from tx"] pending_cost_exact[of mp "tx_from tx"]
    by (auto simp: is_ok_iff)
  have c: "checked_add (tx_amount tx) (tx_fee tx) = Some (tx_amount tx + tx_fee tx)"
    "unat (tx_amount tx + tx_fee tx) = cost_sum [tx]"
    using r bound by (simp_all add: checked_add_Some unat_add_fits cost_sum_def)
  have t: "checked_add p (tx_amount tx + tx_fee tx) = Some (p + (tx_amount tx + tx_fee tx))"
    "unat (p + (tx_amount tx + tx_fee tx)) = unat p + cost_sum [tx]"
    using r bound by (simp_all add: checked_add_Some unat_add_fits p(2) c(2))
  show ?l
    using r p c(1) t by (simp add: validate_transaction_for_mempool_def word_le_nat_alt not_less
        iffD2[OF validate_transaction_base_Inr])
qed
section \<open>The loop over the transactions\<close>

lemma run_ordinary:
  assumes "\<not> tx_coinbase tx"
  shows "run_transaction cr b e run (position, tx) = Inr run' \<longleftrightarrow>
    tx_authentic cr tx \<and> validate_fee e (tx_amount tx) (tx_fee tx) \<and>
    (\<exists>st fees. apply_transaction (br_state run) tx = (st, Inr ()) \<and>
       add_fee_shares e (br_fees run) tx = Inr fees \<and> run' = run\<lparr>br_state := st, br_fees := fees\<rparr>)"
proof -
  have "validate_transaction cr tx (br_state run) e = Inr () \<longleftrightarrow>
      tx_authentic cr tx \<and> validate_fee e (tx_amount tx) (tx_fee tx)"
    if "apply_transaction (br_state run) tx = (st, Inr ())" for st
    using accepts_validated[OF apply_transaction_accepted(1)[OF that] assms]
    by (simp add: validate_transaction_base_Inr)
  moreover have "tx_id tx = calculate_id cr tx \<and> tx_reward_marker tx = 0" if "tx_authentic cr tx"
    using that by (simp add: tx_authentic_def)
  ultimately show ?thesis
    using assms by (auto simp: run_transaction_def result_simps)
qed

lemma run_ordinary_list:
  assumes "list_all (\<lambda>tx. \<not> tx_coinbase tx) txs"
  shows "try_fold (run_transaction cr b e) run (List.enumerate n txs) = Inr run' \<longleftrightarrow>
    list_all (\<lambda>tx. tx_authentic cr tx \<and> validate_fee e (tx_amount tx) (tx_fee tx)) txs \<and>
    (\<exists>st fees. replay apply_transaction (br_state run) txs = Inr st \<and>
       try_fold (add_fee_shares e) (br_fees run) txs = Inr fees \<and>
       run' = run\<lparr>br_state := st, br_fees := fees\<rparr>)"
  using assms
proof (induction txs arbitrary: n run)
  case Nil
  then show ?case by auto
next
  case (Cons tx txs)
  have head: "\<not> tx_coinbase tx" and tail: "list_all (\<lambda>tx. \<not> tx_coinbase tx) txs"
    using Cons.prems by simp_all
  show ?case
    by (simp add: and_then_Inr run_ordinary[OF head] Cons.IH[OF tail] result_simps del: try_fold.simps)
      (auto simp: and_then_Inr run_ordinary[OF head] Cons.IH[OF tail] result_simps)
qed

text \<open>Before the last position a coinbase is refused.\<close>

lemma run_before_last:
  assumes "try_fold (run_transaction cr b e) run (List.enumerate n txs) = Inr run'"
    and "n + length txs < length (blk_transactions b)"
  shows "list_all (\<lambda>tx. \<not> tx_coinbase tx) txs"
  using assms
proof (induction txs arbitrary: n run)
  case Nil
  then show ?case by simp
next
  case (Cons tx txs)
  then obtain run1 where run1: "run_transaction cr b e run (n, tx) = Inr run1"
    and rest: "try_fold (run_transaction cr b e) run1 (List.enumerate (Suc n) txs) = Inr run'"
    by (auto simp: result_simps)
  have "\<not> tx_coinbase tx"
  proof
    assume "tx_coinbase tx"
    then have "n = length (blk_transactions b) - 1"
      using run1 by (auto simp: run_transaction_def check_coinbase_def result_simps)
    then show False
      using Cons.prems(2) by simp
  qed
  moreover have "list_all (\<lambda>tx. \<not> tx_coinbase tx) txs"
    by (rule Cons.IH[OF rest]) (use Cons.prems(2) in simp)
  ultimately show ?case by simp
qed

text \<open>The checks on a coinbase leave exactly one transaction.\<close>

definition block_coinbase :: "crypto \<Rightarrow> block \<Rightarrow> economy \<Rightarrow> transaction" where
  "block_coinbase cr b e = new_coinbase cr (blk_validator b) (ec_block_reward e) (blk_index b)"

lemma tx_fields_eq:
  assumes "tx_payload t = tx_payload u" and "tx_id t = tx_id u" and "tx_signature t = tx_signature u"
  shows "t = u"
  using assms by (cases t; cases u) (simp add: tx_payload_def)

lemma run_coinbase:
  assumes "tx_coinbase tx"
  shows "run_transaction cr b e run (position, tx) = Inr run' \<longleftrightarrow>
    br_coinbase run = None \<and> position = length (blk_transactions b) - 1 \<and>
    tx = block_coinbase cr b e \<and> run' = run\<lparr>br_coinbase := Some tx\<rparr>"
proof -
  let ?c = "block_coinbase cr b e"
  have sel: "tx_coinbase ?c" "tx_id ?c = calculate_id cr ?c" "tx_from ?c = SYSTEM_ADDRESS"
    "tx_public_key ?c = SYSTEM_PUBLIC_KEY" "tx_signature ?c = Some SYSTEM_REWARD_SIGNATURE"
    "tx_to ?c = blk_validator b" "tx_fee ?c = 0" "tx_nonce ?c = 0"
    "tx_reward_marker ?c = ucast (blk_index b)" "tx_amount ?c = ec_block_reward e"
    by (simp_all add: block_coinbase_def)
  have "tx = ?c" if id: "tx_id tx = calculate_id cr tx" and "check_coinbase b e coinbase position tx = Inr ()"
    for coinbase
  proof (rule tx_fields_eq)
    show payload: "tx_payload tx = tx_payload ?c"
      using that(2) assms by (simp add: check_coinbase_def tx_payload_eq_iff sel result_simps)
    show "tx_signature tx = tx_signature ?c"
      using that(2) by (simp add: check_coinbase_def sel result_simps)
    have "tx_message tx = tx_message ?c"
      using payload by (metis tx_message_payload)
    then show "tx_id tx = tx_id ?c"
      by (simp add: id sel(2) calculate_id_def)
  qed
  moreover have "check_coinbase b e coinbase position ?c = Inr () \<longleftrightarrow>
      coinbase = None \<and> position = length (blk_transactions b) - 1" for coinbase
    by (auto simp: check_coinbase_def sel)
  ultimately show ?thesis
    using assms sel(2) by (auto simp: run_transaction_def result_simps)
qed

lemma enumerate_snoc: "List.enumerate n (xs @ [x]) = List.enumerate n xs @ [(n + length xs, x)]"
  by (simp add: enumerate_append_eq)

text \<open>
  When a block is accepted and what comes out, without the order of the checks: its ordinary
  transactions are authentic, pay the fee and can be applied in their order; then come the one
  coinbase, the fees, the minting.
\<close>

definition block_result ::
  "crypto \<Rightarrow> block \<Rightarrow> economy \<Rightarrow> state \<Rightarrow> transaction list \<Rightarrow> (economy \<times> state) result" where
  "block_result cr b e st txs =
     and_then (replay apply_transaction st txs) (\<lambda>s1.
     and_then (try_fold (add_fee_shares e) no_fees txs) (\<lambda>ft.
     and_then (settle_fees (blk_validator b) ft s1 e) (\<lambda>(s2, e2).
     and_then (mint e2 (ec_block_reward e)) (\<lambda>e3.
     and_then (keep_ok apply_transaction s2 (block_coinbase cr b e)) (\<lambda>s3. Inr (e3, s3))))))"

lemma run_block_parts:
  fixes st :: state
  defines "run0 \<equiv> \<lparr>br_state = st, br_fees = no_fees, br_coinbase = None\<rparr>"
  assumes loop: "try_fold (run_transaction cr b e) run0 (List.enumerate 0 (blk_transactions b)) = Inr run"
    and coinbase: "br_coinbase run \<noteq> None"
  obtains txs s1 ft where "blk_transactions b = txs @ [block_coinbase cr b e]"
    "list_all (\<lambda>tx. tx_authentic cr tx \<and> validate_fee e (tx_amount tx) (tx_fee tx)) txs"
    "replay apply_transaction st txs = Inr s1" "try_fold (add_fee_shares e) no_fees txs = Inr ft"
    "run = \<lparr>br_state = s1, br_fees = ft, br_coinbase = Some (block_coinbase cr b e)\<rparr>"
proof (cases "blk_transactions b" rule: rev_cases)
  case Nil
  with loop coinbase show thesis by (auto simp: run0_def)
next
  case (snoc txs c)
  obtain run1 where run1: "try_fold (run_transaction cr b e) run0 (List.enumerate 0 txs) = Inr run1"
    and last: "run_transaction cr b e run1 (length txs, c) = Inr run"
    using loop snoc by (auto simp: enumerate_snoc try_fold_append result_simps)
  have ordinary: "list_all (\<lambda>tx. \<not> tx_coinbase tx) txs"
    by (rule run_before_last[OF run1]) (simp add: snoc)
  from run1 obtain s1 ft where parts:
    "list_all (\<lambda>tx. tx_authentic cr tx \<and> validate_fee e (tx_amount tx) (tx_fee tx)) txs"
    "replay apply_transaction st txs = Inr s1" "try_fold (add_fee_shares e) no_fees txs = Inr ft"
    "run1 = \<lparr>br_state = s1, br_fees = ft, br_coinbase = None\<rparr>"
    unfolding run_ordinary_list[OF ordinary] by (auto simp: run0_def)
  have "tx_coinbase c"
  proof (rule ccontr)
    assume "\<not> tx_coinbase c"
    with last parts(4) coinbase show False by (auto simp: run_ordinary)
  qed
  then have "c = block_coinbase cr b e \<and> run = run1\<lparr>br_coinbase := Some c\<rparr>"
    using last by (simp add: run_coinbase)
  then show thesis
    using parts snoc by (intro that) auto
qed

lemma run_block_complete:
  assumes "blk_transactions b = txs @ [block_coinbase cr b e]"
    and "list_all (\<lambda>tx. tx_authentic cr tx \<and> validate_fee e (tx_amount tx) (tx_fee tx)) txs"
    and "replay apply_transaction st txs = Inr s1" and "try_fold (add_fee_shares e) no_fees txs = Inr ft"
  shows "try_fold (run_transaction cr b e) \<lparr>br_state = st, br_fees = no_fees, br_coinbase = None\<rparr>
      (List.enumerate 0 (blk_transactions b)) =
    Inr \<lparr>br_state = s1, br_fees = ft, br_coinbase = Some (block_coinbase cr b e)\<rparr>"
proof -
  have ordinary: "list_all (\<lambda>tx. \<not> tx_coinbase tx) txs"
    using assms(2) by (auto simp: list_all_iff tx_authentic_def)
  have "tx_coinbase (block_coinbase cr b e)"
    by (simp add: block_coinbase_def)
  then have "run_transaction cr b e \<lparr>br_state = s1, br_fees = ft, br_coinbase = None\<rparr>
      (length txs, block_coinbase cr b e) =
    Inr \<lparr>br_state = s1, br_fees = ft, br_coinbase = Some (block_coinbase cr b e)\<rparr>"
    by (simp add: run_coinbase assms(1))
  moreover have "try_fold (run_transaction cr b e) \<lparr>br_state = st, br_fees = no_fees, br_coinbase = None\<rparr>
      (List.enumerate 0 txs) = Inr \<lparr>br_state = s1, br_fees = ft, br_coinbase = None\<rparr>"
    unfolding run_ordinary_list[OF ordinary] using assms(2-4) by auto
  ultimately show ?thesis
    by (simp add: assms(1) enumerate_snoc try_fold_append del: append_assoc)
qed

lemma validate_and_apply_block_Inr:
  "validate_and_apply_block cr clock co b bc st = Inr (bc', st') \<longleftrightarrow>
     check_block_format b = Inr () \<and>
     add_received_block cr clock bc b = Inr (bc\<lparr>bc_chain := bc_chain bc @ [b]\<rparr>) \<and>
     check_block_validator cr co b = Inr () \<and>
     (\<exists>txs e'. blk_transactions b = txs @ [block_coinbase cr b (bc_economy bc)] \<and>
        list_all (\<lambda>tx. tx_authentic cr tx \<and>
          validate_fee (bc_economy bc) (tx_amount tx) (tx_fee tx)) txs \<and>
        block_result cr b (bc_economy bc) st txs = Inr (e', st') \<and>
        bc' = bc\<lparr>bc_chain := bc_chain bc @ [b], bc_economy := e'\<rparr>)"
  (is "?l \<longleftrightarrow> ?checks1 \<and> ?checks2 \<and> ?checks3 \<and> ?parts")
proof
  let ?e = "bc_economy bc" and ?c = "block_coinbase cr b (bc_economy bc)"
  have amount: "tx_amount ?c = ec_block_reward ?e"
    by (simp add: block_coinbase_def)
  {
    assume ?l
    then obtain run e' bc1 where checks: ?checks1 "add_received_block cr clock bc b = Inr bc1" ?checks3
      and loop: "try_fold (run_transaction cr b ?e)
        \<lparr>br_state = st, br_fees = no_fees, br_coinbase = None\<rparr>
        (List.enumerate 0 (blk_transactions b)) = Inr run"
      and fin: "finish_block b ?e run = Inr (e', st')" and bc': "bc' = bc1\<lparr>bc_economy := e'\<rparr>"
      by (auto simp: validate_and_apply_block_def result_simps Let_def)
    have "br_coinbase run \<noteq> None"
      using fin by (auto simp: finish_block_def result_simps)
    then obtain txs s1 ft where "blk_transactions b = txs @ [?c]"
      "list_all (\<lambda>tx. tx_authentic cr tx \<and> validate_fee ?e (tx_amount tx) (tx_fee tx)) txs"
      "replay apply_transaction st txs = Inr s1" "try_fold (add_fee_shares ?e) no_fees txs = Inr ft"
      "run = \<lparr>br_state = s1, br_fees = ft, br_coinbase = Some ?c\<rparr>"
      by (rule run_block_parts[OF loop])
    with fin checks bc' show "?checks1 \<and> ?checks2 \<and> ?checks3 \<and> ?parts"
      by (auto simp: block_result_def finish_block_def amount add_received_block_Inr)
  }
  assume r: "?checks1 \<and> ?checks2 \<and> ?checks3 \<and> ?parts"
  then obtain txs e' s1 ft where parts: "blk_transactions b = txs @ [?c]"
    "list_all (\<lambda>tx. tx_authentic cr tx \<and> validate_fee ?e (tx_amount tx) (tx_fee tx)) txs"
    "replay apply_transaction st txs = Inr s1" "try_fold (add_fee_shares ?e) no_fees txs = Inr ft"
    and result: "block_result cr b ?e st txs = Inr (e', st')"
    and bc': "bc' = bc\<lparr>bc_chain := bc_chain bc @ [b], bc_economy := e'\<rparr>"
    by (auto simp: block_result_def result_simps)
  have "is_hash_valid cr b"
    using r by (simp add: add_received_block_Inr is_hash_valid_def)
  with r run_block_complete[OF parts] result bc' show ?l
    by (simp add: validate_and_apply_block_def block_result_def finish_block_def amount parts Let_def)
qed

section \<open>What an accepted block does\<close>

lemma settle_fees_settings: "settle_fees v ft st e = Inr (st', e') \<Longrightarrow> settings e' = settings e"
  by (auto simp: settle_fees_def add_liquidity_reserve_def result_simps split: option.splits)

lemma block_result_Inr:
  assumes "block_result cr b e st txs = Inr (e', st')"
  obtains s1 ft s2 e2 where "replay apply_transaction st txs = Inr s1"
    "try_fold (add_fee_shares e) no_fees txs = Inr ft"
    "settle_fees (blk_validator b) ft s1 e = Inr (s2, e2)"
    "mint e2 (tx_amount (block_coinbase cr b e)) = Inr e'"
    "apply_transaction s2 (block_coinbase cr b e) = (st', Inr ())"
  using assms by (auto simp: block_result_def block_coinbase_def result_simps)

lemma block_coinbase_sel [simp]:
  "tx_coinbase (block_coinbase cr b e)" "tx_amount (block_coinbase cr b e) = ec_block_reward e"
  "tx_to (block_coinbase cr b e) = blk_validator b"
  by (simp_all add: block_coinbase_def)

lemma authentic_ordinary:
  "list_all (\<lambda>tx. tx_authentic cr tx \<and> P tx) txs \<Longrightarrow> list_all (\<lambda>tx. \<not> tx_coinbase tx) txs"
  by (auto simp: list_all_iff tx_authentic_def)

lemma accepted_block_books:
  assumes accepted: "validate_and_apply_block cr clock co b bc st = Inr (bc', st')"
    and books: "books_balanced st (bc_economy bc)"
  shows "books_balanced st' (bc_economy bc')" and "settings (bc_economy bc') = settings (bc_economy bc)"
    and "unat (ec_total_supply (bc_economy bc')) =
      unat (ec_total_supply (bc_economy bc)) + unat (ec_block_reward (bc_economy bc))"
proof -
  obtain txs e' where ok: "list_all (\<lambda>tx. tx_authentic cr tx \<and>
        validate_fee (bc_economy bc) (tx_amount tx) (tx_fee tx)) txs"
    and result: "block_result cr b (bc_economy bc) st txs = Inr (e', st')"
    and e': "bc_economy bc' = e'"
    using accepted by (auto simp: validate_and_apply_block_Inr)
  obtain s1 ft s2 e2 where parts: "replay apply_transaction st txs = Inr s1"
    "try_fold (add_fee_shares (bc_economy bc)) no_fees txs = Inr ft"
    "settle_fees (blk_validator b) ft s1 (bc_economy bc) = Inr (s2, e2)"
    "mint e2 (tx_amount (block_coinbase cr b (bc_economy bc))) = Inr e'"
    "apply_transaction s2 (block_coinbase cr b (bc_economy bc)) = (st', Inr ())"
    by (rule block_result_Inr[OF result])
  note * = settled_books[OF books parts(1) authentic_ordinary[OF ok] parts(2-4) _ parts(5)]
  show "books_balanced st' (bc_economy bc')" "settings (bc_economy bc') = settings (bc_economy bc)"
    "unat (ec_total_supply (bc_economy bc')) =
      unat (ec_total_supply (bc_economy bc)) + unat (ec_block_reward (bc_economy bc))"
    using * by (simp_all add: e')
qed

text \<open>The number of transactions a sender has in a list, and its nonce after a block.\<close>

definition sent_by :: "string \<Rightarrow> transaction list \<Rightarrow> nat" where
  "sent_by a txs = length (filter (\<lambda>tx. \<not> tx_coinbase tx \<and> tx_from tx = a) txs)"

lemma sent_by_append: "sent_by a (xs @ ys) = sent_by a xs + sent_by a ys"
  by (simp add: sent_by_def)

lemma sent_by_sender: "sent_by a txs = length (filter (\<lambda>tx. tx_sender tx = Some a) txs)"
  unfolding sent_by_def by (rule arg_cong[where f = length], rule filter_cong) (auto simp: tx_sender_def)

lemma accepted_block_nonce:
  assumes "validate_and_apply_block cr clock co b bc st = Inr (bc', st')"
    and shares: "shares_ok (bc_economy bc)"
  shows "nonce_of st' a = nonce_of st a + word_of_nat (sent_by a (blk_transactions b))"
proof -
  obtain txs e' where txs: "blk_transactions b = txs @ [block_coinbase cr b (bc_economy bc)]"
    and result: "block_result cr b (bc_economy bc) st txs = Inr (e', st')"
    using assms(1) by (auto simp: validate_and_apply_block_Inr)
  obtain s1 ft s2 e2 where parts: "replay apply_transaction st txs = Inr s1"
    "try_fold (add_fee_shares (bc_economy bc)) no_fees txs = Inr ft"
    "settle_fees (blk_validator b) ft s1 (bc_economy bc) = Inr (s2, e2)"
    "apply_transaction s2 (block_coinbase cr b (bc_economy bc)) = (st', Inr ())"
    by (rule block_result_Inr[OF result])
  have "ft_burn ft = 0"
    using fee_totals_exact[OF shares parts(2)] by simp
  then have "nonce_of s2 a = nonce_of s1 a"
    by (rule settle_fees_Inr(4)[OF parts(3)])
  moreover have "nonce_of st' a = nonce_of s2 a"
    using apply_transaction_accepted(2)[OF parts(4)] by (simp add: transaction_effect_def)
  moreover have "nonce_of s1 a = nonce_of st a + word_of_nat (sent_by a txs)"
    using bank.replay_counter[OF parts(1), of a] by (simp add: sent_by_sender)
  ultimately show ?thesis
    by (simp add: txs sent_by_def)
qed

lemma check_block_validator_Inr:
  "check_block_validator cr co b = Inr () \<longleftrightarrow>
     (\<exists>v s. select_validator_from_hash cr co (blk_previous_hash b) = Inr (Some v) \<and>
        blk_validator b = val_address v \<and>
        address_from_public_key cr (blk_validator_public_key b) = Some (blk_validator b) \<and>
        is_validator_allowed co (blk_validator b) \<and> blk_validator_signature b = Some s \<and>
        wallet_verify cr (blk_validator_public_key b) (as_bytes (blk_hash b)) s)"
  by (auto simp: check_block_validator_def result_simps)

lemma accepted_block_valid:
  assumes accepted: "validate_and_apply_block cr clock co b bc st = Inr (bc', st')"
    and valid: "is_valid cr bc"
  shows "is_valid cr bc'"
proof -
  obtain txs e' where received: "add_received_block cr clock bc b = Inr (bc\<lparr>bc_chain := bc_chain bc @ [b]\<rparr>)"
    and validator: "check_block_validator cr co b = Inr ()"
    and txs: "blk_transactions b = txs @ [block_coinbase cr b (bc_economy bc)]"
    and ok: "list_all (\<lambda>tx. tx_authentic cr tx \<and> validate_fee (bc_economy bc) (tx_amount tx) (tx_fee tx)) txs"
    and chain: "bc_chain bc' = bc_chain bc @ [b]"
    using accepted by (auto simp: validate_and_apply_block_Inr)
  have "list_all (tx_sealed cr (blk_index b)) (blk_transactions b)"
    using ok by (auto simp: txs list_all_iff tx_sealed_def tx_authentic_def block_coinbase_def)
  moreover have "follows cr (bc_chain bc) b"
    using received validator
    by (auto simp: follows_def block_linked_def add_received_block_Inr check_block_validator_Inr
        block_is_signed_def not_le)
  ultimately show ?thesis
    using received valid
    by (simp add: is_valid_snoc[OF chain] block_ok_def add_received_block_Inr uniqueness_Inr)
qed

section \<open>The accepted blocks, spelled out\<close>

lemma field_sizes_coinbase:
  "validate_transaction_field_sizes (block_coinbase cr b e) = Inr () \<longleftrightarrow>
     is_fixed_hex (tx_id (block_coinbase cr b e)) HASH_HEX_LENGTH \<and>
     is_fixed_hex (blk_validator b) ADDRESS_HEX_LENGTH"
  by (auto simp: validate_transaction_field_sizes_def block_coinbase_def simp del: new_coinbase_id)

lemma field_sizes_all:
  assumes "list_all (\<lambda>tx. tx_authentic cr tx \<and> P tx) txs"
  shows "try_fold (\<lambda>_. validate_transaction_field_sizes) () (txs @ [block_coinbase cr b e]) = Inr () \<longleftrightarrow>
    is_fixed_hex (tx_id (block_coinbase cr b e)) HASH_HEX_LENGTH \<and> is_fixed_hex (blk_validator b) ADDRESS_HEX_LENGTH"
proof -
  have "list_all (\<lambda>tx. validate_transaction_field_sizes tx = Inr ()) txs"
    using assms by (auto simp: list_all_iff tx_authentic_def field_sizes_ordinary split: option.splits)
  then show ?thesis
    by (auto simp: try_fold_unit field_sizes_coinbase list_all_iff)
qed

lemma block_formats:
  assumes txs: "blk_transactions b = txs @ [block_coinbase cr b e]"
    and authentic: "list_all (\<lambda>tx. tx_authentic cr tx \<and> P tx) txs"
  shows "check_block_format b = Inr () \<and> validate_block_field_sizes b = Inr () \<longleftrightarrow>
    blk_index b \<noteq> 0 \<and> txs \<noteq> [] \<and> length (blk_transactions b) \<le> MAX_TOTAL_TRANSACTIONS_PER_BLOCK \<and>
    is_fixed_hex (blk_previous_hash b) HASH_HEX_LENGTH \<and> is_fixed_hex (blk_hash b) HASH_HEX_LENGTH \<and>
    is_fixed_hex (blk_validator b) ADDRESS_HEX_LENGTH \<and>
    is_fixed_hex (blk_validator_public_key b) PUBLIC_KEY_HEX_LENGTH \<and>
    (\<exists>s. blk_validator_signature b = Some s \<and> is_fixed_hex s SIGNATURE_HEX_LENGTH) \<and>
    is_fixed_hex (tx_id (block_coinbase cr b e)) HASH_HEX_LENGTH"
proof -
  have "list_ex (\<lambda>tx. \<not> tx_coinbase tx) txs \<longleftrightarrow> txs \<noteq> []"
    using authentic by (cases txs) (auto simp: tx_authentic_def)
  then show ?thesis
    unfolding check_block_format_def validate_block_field_sizes_def node_field_sizes_eq txs
    by (auto simp: field_sizes_all[OF authentic] result_simps not_less)
qed

lemma accepted_block_iff:
  "validate_and_apply_block cr clock co b bc st = Inr (bc', st') \<longleftrightarrow>
     (\<exists>previous now v signature txs coinbase e'.
        bc_chain bc \<noteq> [] \<and> previous = last (bc_chain bc) \<and>
        blk_previous_hash b = blk_hash previous \<and> blk_hash b = calculate_hash cr b \<and>
        blk_index b = word_of_nat (length (bc_chain bc)) \<and> blk_index b \<noteq> 0 \<and>
        clock = Some now \<and> unat now + unat MAX_FUTURE_DRIFT_SECONDS < 2 ^ 64 \<and>
        blk_timestamp previous < blk_timestamp b \<and>
        unat (blk_timestamp b) \<le> unat now + unat MAX_FUTURE_DRIFT_SECONDS \<and>
        select_validator_from_hash cr co (blk_hash previous) = Inr (Some v) \<and>
        v \<in> set (co_validators co) \<and> blk_validator b = val_address v \<and>
        address_from_public_key cr (blk_validator_public_key b) = Some (val_address v) \<and>
        blk_validator_signature b = Some signature \<and>
        wallet_verify cr (blk_validator_public_key b) (as_bytes (blk_hash b)) signature \<and>
        is_fixed_hex (blk_previous_hash b) HASH_HEX_LENGTH \<and> is_fixed_hex (blk_hash b) HASH_HEX_LENGTH \<and>
        is_fixed_hex (blk_validator b) ADDRESS_HEX_LENGTH \<and>
        is_fixed_hex (blk_validator_public_key b) PUBLIC_KEY_HEX_LENGTH \<and>
        is_fixed_hex signature SIGNATURE_HEX_LENGTH \<and>
        blk_transactions b = txs @ [coinbase] \<and> txs \<noteq> [] \<and>
        length (blk_transactions b) \<le> MAX_TOTAL_TRANSACTIONS_PER_BLOCK \<and>
        distinct (map tx_id (blk_transactions b)) \<and>
        tx_id ` set (blk_transactions b) \<inter> tx_id ` set (concat (map blk_transactions (bc_chain bc))) = {} \<and>
        list_all (\<lambda>tx. tx_authentic cr tx \<and> tx_fee tx = calculate_fee (bc_economy bc) (tx_amount tx)) txs \<and>
        coinbase = new_coinbase cr (val_address v) (ec_block_reward (bc_economy bc)) (blk_index b) \<and>
        is_fixed_hex (tx_id coinbase) HASH_HEX_LENGTH \<and>
        block_result cr b (bc_economy bc) st txs = Inr (e', st') \<and>
        bc' = bc\<lparr>bc_chain := bc_chain bc @ [b], bc_economy := e'\<rparr>)"
  (is "?l \<longleftrightarrow> ?r")
proof
  assume ?l
  then obtain txs e' where parts: "check_block_format b = Inr ()"
      "add_received_block cr clock bc b = Inr (bc\<lparr>bc_chain := bc_chain bc @ [b]\<rparr>)"
      "check_block_validator cr co b = Inr ()"
    and txs: "blk_transactions b = txs @ [block_coinbase cr b (bc_economy bc)]"
      "list_all (\<lambda>tx. tx_authentic cr tx \<and> validate_fee (bc_economy bc) (tx_amount tx) (tx_fee tx)) txs"
    and result: "block_result cr b (bc_economy bc) st txs = Inr (e', st')"
      "bc' = bc\<lparr>bc_chain := bc_chain bc @ [b], bc_economy := e'\<rparr>"
    by (auto simp: validate_and_apply_block_Inr)
  from parts(1,2) block_formats[OF txs] have formats: "blk_index b \<noteq> 0 \<and> txs \<noteq> [] \<and>
    length (blk_transactions b) \<le> MAX_TOTAL_TRANSACTIONS_PER_BLOCK \<and>
    is_fixed_hex (blk_previous_hash b) HASH_HEX_LENGTH \<and> is_fixed_hex (blk_hash b) HASH_HEX_LENGTH \<and>
    is_fixed_hex (blk_validator b) ADDRESS_HEX_LENGTH \<and>
    is_fixed_hex (blk_validator_public_key b) PUBLIC_KEY_HEX_LENGTH \<and>
    (\<exists>s. blk_validator_signature b = Some s \<and> is_fixed_hex s SIGNATURE_HEX_LENGTH) \<and>
    is_fixed_hex (tx_id (block_coinbase cr b (bc_economy bc))) HASH_HEX_LENGTH"
    by (simp add: add_received_block_Inr)
  obtain v s where validator: "select_validator_from_hash cr co (blk_previous_hash b) = Inr (Some v)"
      "blk_validator b = val_address v"
      "address_from_public_key cr (blk_validator_public_key b) = Some (blk_validator b)"
      "blk_validator_signature b = Some s"
      "wallet_verify cr (blk_validator_public_key b) (as_bytes (blk_hash b)) s"
    using parts(3) by (auto simp: check_block_validator_Inr)
  note link = parts(2)[unfolded add_received_block_Inr uniqueness_Inr validate_future_timestamp_Inr chain_ids_def]
  then obtain now where now: "clock = Some now \<and> unat now + unat MAX_FUTURE_DRIFT_SECONDS < 2 ^ 64 \<and>
      unat (blk_timestamp b) \<le> unat now + unat MAX_FUTURE_DRIFT_SECONDS"
    by blast
  have signature: "is_fixed_hex s SIGNATURE_HEX_LENGTH"
    using formats validator(4) by simp
  have selected: "select_validator_from_hash cr co (blk_hash (last (bc_chain bc))) = Inr (Some v)"
    using link validator(1) by simp
  show ?r
    using formats signature selected validator(2,4,5) validator(3)[unfolded validator(2)] link now result
      txs[unfolded validate_fee_def] select_validator_member[OF selected]
      block_coinbase_def[of cr b "bc_economy bc", unfolded validator(2)]
    apply (elim conjE)
    apply (rule exI[of _ "last (bc_chain bc)"], rule exI[of _ now], rule exI[of _ v], rule exI[of _ s],
        rule exI[of _ txs], rule exI[of _ "block_coinbase cr b (bc_economy bc)"], rule exI[of _ e'])
    apply (intro conjI)
    apply (rule refl | assumption)+
    done
next
  assume ?r
  then show ?l
  proof (elim exE conjE)
    fix previous now v s txs coinbase e'
    assume r: "bc_chain bc \<noteq> []" "previous = last (bc_chain bc)" "blk_previous_hash b = blk_hash previous"
        "blk_hash b = calculate_hash cr b" "blk_index b = word_of_nat (length (bc_chain bc))" "blk_index b \<noteq> 0"
        "clock = Some now" "unat now + unat MAX_FUTURE_DRIFT_SECONDS < 2 ^ 64"
        "blk_timestamp previous < blk_timestamp b"
        "unat (blk_timestamp b) \<le> unat now + unat MAX_FUTURE_DRIFT_SECONDS"
      and v: "select_validator_from_hash cr co (blk_hash previous) = Inr (Some v)"
        "v \<in> set (co_validators co)" "blk_validator b = val_address v"
        "address_from_public_key cr (blk_validator_public_key b) = Some (val_address v)"
        "blk_validator_signature b = Some s"
        "wallet_verify cr (blk_validator_public_key b) (as_bytes (blk_hash b)) s"
      and f: "is_fixed_hex (blk_previous_hash b) HASH_HEX_LENGTH" "is_fixed_hex (blk_hash b) HASH_HEX_LENGTH"
        "is_fixed_hex (blk_validator b) ADDRESS_HEX_LENGTH"
        "is_fixed_hex (blk_validator_public_key b) PUBLIC_KEY_HEX_LENGTH" "is_fixed_hex s SIGNATURE_HEX_LENGTH"
      and t: "blk_transactions b = txs @ [coinbase]" "txs \<noteq> []"
        "length (blk_transactions b) \<le> MAX_TOTAL_TRANSACTIONS_PER_BLOCK" "distinct (map tx_id (blk_transactions b))"
        "tx_id ` set (blk_transactions b) \<inter> tx_id ` set (concat (map blk_transactions (bc_chain bc))) = {}"
        "list_all (\<lambda>tx. tx_authentic cr tx \<and> tx_fee tx = calculate_fee (bc_economy bc) (tx_amount tx)) txs"
        "coinbase = new_coinbase cr (val_address v) (ec_block_reward (bc_economy bc)) (blk_index b)"
        "is_fixed_hex (tx_id coinbase) HASH_HEX_LENGTH"
      and result: "block_result cr b (bc_economy bc) st txs = Inr (e', st')"
        "bc' = bc\<lparr>bc_chain := bc_chain bc @ [b], bc_economy := e'\<rparr>"
    have c: "coinbase = block_coinbase cr b (bc_economy bc)"
      by (simp only: block_coinbase_def v(3) t(7))
    note txs = t(1)[unfolded c] t(6)[folded validate_fee_def]
    have formats: "check_block_format b = Inr () \<and> validate_block_field_sizes b = Inr ()"
      unfolding block_formats[OF txs] using r(6) t(2,3) t(8)[unfolded c] f v(5) by blast
    have "is_validator_allowed co (blk_validator b)"
      using v(2,3) by (auto simp: is_validator_allowed_def list_ex_iff)
    then have "check_block_validator cr co b = Inr ()"
      using r(3) v by (simp add: check_block_validator_Inr)
    moreover have "add_received_block cr clock bc b = Inr (bc\<lparr>bc_chain := bc_chain bc @ [b]\<rparr>)"
      unfolding add_received_block_Inr uniqueness_Inr validate_future_timestamp_Inr chain_ids_def
      using formats r(1) r(3,9)[unfolded r(2)] r(4,5,7,8,10) t(4,5) by blast
    ultimately show ?l
      unfolding validate_and_apply_block_Inr using formats txs result by blast
  qed
qed

section \<open>A produced block is accepted\<close>

lemma field_sizes_format:
  assumes "validate_block_field_sizes b = Inr ()" and "blk_index b \<noteq> 0"
  shows "check_block_format b = Inr ()"
  using assms
  by (auto simp: validate_block_field_sizes_def check_block_format_def node_field_sizes_eq result_simps)

lemma produced_block_accepted:
  assumes cr: "crypto_spec cr" and w: "wallet_wf cr w"
    and create: "create_block_from_mempool cr clock bc t w mp st = Inr (bc', mp', st', b)"
    and books: "books_balanced st (bc_economy bc)" and wf: "mempool_wf cr mp"
    and len: "length (bc_chain bc) < 2 ^ 64"
    and selected: "select_validator_from_hash cr co (blk_hash (last (bc_chain bc))) = Inr (Some v)"
      "val_address v = w_address w" "is_validator_allowed co (w_address w)"
  shows "validate_and_apply_block cr clock co b bc st = Inr (bc', st')"
proof -
  obtain rest txs e' txs' where ne: "bc_chain bc \<noteq> []"
    and take: "take_valid_transactions mp st = (rest, txs)"
    and exec: "execute_transactions cr bc w txs st = Inr (st', e', txs')"
    and b: "b = make_block cr (bc_chain bc) t w txs'"
    and sizes: "validate_block_field_sizes b = Inr ()"
    and bc': "bc' = bc\<lparr>bc_chain := bc_chain bc @ [b], bc_economy := e'\<rparr>"
    by (rule create_block_Inr[OF create])
  obtain s1 ft s2 e2 coinbase where
    fees: "list_all (\<lambda>tx. validate_fee (bc_economy bc) (tx_amount tx) (tx_fee tx)) txs"
    and parts: "replay apply_transaction st txs = Inr s1"
      "try_fold (add_fee_shares (bc_economy bc)) no_fees txs = Inr ft"
      "settle_fees (w_address w) ft s1 (bc_economy bc) = Inr (s2, e2)"
      "mint e2 (ec_block_reward e2) = Inr e'"
    and coinbase: "coinbase = new_coinbase cr (w_address w) (ec_block_reward e2)
      (word_of_nat (length (bc_chain bc)))" "apply_transaction s2 coinbase = (st', Inr ())"
    and txs': "txs' = txs @ [coinbase]"
    by (rule execute_transactions_Inr[OF exec])
  have reward: "ec_block_reward e2 = ec_block_reward (bc_economy bc)"
    using settings_fields(2)[OF settle_fees_settings[OF parts(3)]] .
  have cb: "coinbase = block_coinbase cr b (bc_economy bc)"
    by (simp add: coinbase(1) reward block_coinbase_def b)
  have "list_all (tx_authentic cr) txs"
    using take_valid_transactions_wf(2)[OF take books_balanced_bound[OF books] wf] .
  with fees have ok: "list_all (\<lambda>tx. tx_authentic cr tx \<and>
      validate_fee (bc_economy bc) (tx_amount tx) (tx_fee tx)) txs"
    by (simp add: list_all_iff)
  have result: "block_result cr b (bc_economy bc) st txs = Inr (e', st')"
  proof -
    have "blk_validator b = w_address w"
      by (simp add: b)
    then show ?thesis
      using parts coinbase(2) by (simp add: block_result_def reward keep_ok_def flip: cb)
  qed
  have "blk_index b \<noteq> 0"
    using ne len word_of_nat64_inject[of "length (bc_chain bc)" 0] by (simp add: b)
  note format = field_sizes_format[OF sizes this]
  have sel: "blk_previous_hash b = blk_hash (last (bc_chain bc))" "blk_validator b = w_address w"
    "blk_validator_public_key b = public_key_hex cr w"
    "blk_validator_signature b = Some (wallet_sign cr w (as_bytes (blk_hash b)))"
    and tx: "blk_transactions b = txs @ [coinbase]"
    unfolding b by (simp_all add: txs' del: make_block_sel(7))
  have "check_block_validator cr co b = Inr ()"
    using selected wallet_address_derived[OF cr w] wallet_signature_verifies[OF cr w]
    by (simp add: check_block_validator_Inr sel)
  then show ?thesis
    unfolding validate_and_apply_block_Inr
    by (intro conjI exI[of _ txs] exI[of _ e'] format create_block_received[OF create] ok result bc'
        tx[unfolded cb])
qed

section \<open>A transaction as a wallet makes it\<close>

text \<open>\<open>Transaction::new\<close>, then \<open>sign\<close> over the message.\<close>

definition signed_transfer :: "crypto \<Rightarrow> wallet \<Rightarrow> string \<Rightarrow> u64 \<Rightarrow> u64 \<Rightarrow> u64 \<Rightarrow> transaction" where
  "signed_transfer cr w receiver amount fee nonce =
     (let t = transaction_new cr (w_address w) (public_key_hex cr w) receiver amount fee nonce
      in tx_sign t (wallet_sign cr w (tx_message t)))"

lemma signed_transfer_sel [simp]:
  "tx_from (signed_transfer cr w a x f n) = w_address w" "tx_to (signed_transfer cr w a x f n) = a"
  "tx_amount (signed_transfer cr w a x f n) = x" "tx_fee (signed_transfer cr w a x f n) = f"
  "tx_nonce (signed_transfer cr w a x f n) = n" "\<not> tx_coinbase (signed_transfer cr w a x f n)"
  "tx_id (signed_transfer cr w a x f n) = calculate_id cr (signed_transfer cr w a x f n)"
  by (simp_all add: signed_transfer_def tx_sign_def Let_def)

lemma signed_transfer_authentic:
  assumes "crypto_spec cr" and "wallet_wf cr w" and "is_fixed_hex a ADDRESS_HEX_LENGTH" and "x \<noteq> 0"
  shows "tx_authentic cr (signed_transfer cr w a x f n)"
proof -
  have "sha256_spec cr"
    using assms(1) by (simp add: crypto_spec_def)
  then show ?thesis
    using assms(3,4) wallet_texts_fixed_hex[OF assms(1,2)] wallet_address_derived[OF assms(1,2)]
      wallet_signature_verifies[OF assms(1,2)] calculate_id_fixed_hex[of cr]
    by (simp add: tx_authentic_def signed_transfer_def tx_sign_def Let_def)
qed

end
