(* ===== verification/Storage.thy ===== *)
theory Storage
  imports Blockchain
begin

text \<open>
  \<open>src/storage.rs\<close>, the part that keeps the chain: a save writes a fresh temporary file and
  renames it over the active one. The file system is a map from paths to contents, a path the
  data directory and a file name. What the operating system answers to each call of a save is
  an argument (\<open>io\<close>), and so is \<open>serde_json\<close> (\<open>json\<close>). The interface \<open>chain_store\<close> states what the
  node relies on: after a successful save the saved chain is loaded, and a save that fails at
  any point leaves the stored chain as it was.
\<close>

type_synonym path = "string \<times> string"
type_synonym file_system = "(path, byte list) fmap"

definition DEFAULT_DATA_DIRECTORY :: string where "DEFAULT_DATA_DIRECTORY = ''data''"
definition BLOCKCHAIN_FILE_NAME :: string where "BLOCKCHAIN_FILE_NAME = ''blockchain.json''"
definition BLOCKCHAIN_TEMP_FILE_NAME :: string where "BLOCKCHAIN_TEMP_FILE_NAME = ''blockchain.tmp''"

record json =
  js_to_vec :: "block list \<Rightarrow> byte list option"     \<comment> \<open>\<open>serde_json::to_vec_pretty\<close>\<close>
  js_from_slice :: "byte list \<Rightarrow> block list option"  \<comment> \<open>\<open>serde_json::from_slice\<close>\<close>

text \<open>The documented behaviour: what is serialized is not empty and reads back.\<close>

definition json_spec :: "json \<Rightarrow> bool" where
  "json_spec js \<longleftrightarrow>
     (\<forall>chain bs. js_to_vec js chain = Some bs \<longrightarrow> bs \<noteq> [] \<and> js_from_slice js bs = Some chain)"

text \<open>
  The answers of the operating system: may the directory be created, the random name, may the
  temporary file be created, after how many bytes does writing fail (\<open>None\<close>: it does not), is
  the file synchronized, is the rename done.
\<close>

record io =
  io_create_dir :: bool
  io_random_name :: string
  io_create_new :: bool
  io_write_fails :: "nat option"
  io_sync :: bool
  io_rename :: bool

record io_read =
  io_open :: bool
  io_read_to_end :: bool

section \<open>Paths\<close>

text \<open>
  Is \<open>trim()\<close> empty? The white space of Unicode, in its one, two and three byte UTF-8 forms.
\<close>

fun is_blank :: "string \<Rightarrow> bool" where
  "is_blank [] = True"
| "is_blank (c # s) =
     (if c \<in> {CHR 0x09, CHR 0x0A, CHR 0x0B, CHR 0x0C, CHR 0x0D, CHR 0x20} then is_blank s
      else case s of [] \<Rightarrow> False | d # s1 \<Rightarrow>
        if c = CHR 0xC2 \<and> d \<in> {CHR 0x85, CHR 0xA0} then is_blank s1
        else case s1 of [] \<Rightarrow> False | e # s2 \<Rightarrow>
          ((c, d, e) \<in> {(CHR 0xE1, CHR 0x9A, CHR 0x80), (CHR 0xE2, CHR 0x80, CHR 0xA8),
             (CHR 0xE2, CHR 0x80, CHR 0xA9), (CHR 0xE2, CHR 0x80, CHR 0xAF),
             (CHR 0xE2, CHR 0x81, CHR 0x9F), (CHR 0xE3, CHR 0x80, CHR 0x80)} \<or>
           c = CHR 0xE2 \<and> d = CHR 0x80 \<and> of_char e \<ge> (128::nat) \<and> of_char e \<le> (138::nat)) \<and>
          is_blank s2)"

text \<open>\<open>KYBERNETES_DATA_DIR\<close>, else \<open>AION_DATA_DIR\<close>, else the default.\<close>

definition data_directory :: "string option \<Rightarrow> string option \<Rightarrow> string" where
  "data_directory kybernetes_dir aion_dir =
     (case (case kybernetes_dir of Some v \<Rightarrow> Some v | None \<Rightarrow> aion_dir) of
        Some v \<Rightarrow> if \<not> is_blank v then v else DEFAULT_DATA_DIRECTORY
      | None \<Rightarrow> DEFAULT_DATA_DIRECTORY)"

definition blockchain_path_in :: "string \<Rightarrow> path" where
  "blockchain_path_in dir = (dir, BLOCKCHAIN_FILE_NAME)"

definition unique_blockchain_temp_path :: "io \<Rightarrow> string \<Rightarrow> path" where
  "unique_blockchain_temp_path io dir =
     (dir, ''.'' @ BLOCKCHAIN_TEMP_FILE_NAME @ ''-'' @ io_random_name io)"

section \<open>Saving and loading\<close>

definition ensure_data_directory_at :: "io \<Rightarrow> unit result" where
  "ensure_data_directory_at io =
     (if io_create_dir io then Inr () else Inl (Storage_error Data_directory_not_created))"

text \<open>\<open>create_new\<close> refuses a file that exists.\<close>

definition create_temp :: "io \<Rightarrow> file_system \<Rightarrow> path \<Rightarrow> file_system \<times> unit result" where
  "create_temp io fs temp_path =
     (if \<not> io_create_new io \<or> fmlookup fs temp_path \<noteq> None
      then (fs, Inl (Storage_error Temp_file_not_created))
      else (fmupd temp_path [] fs, Inr ()))"

definition write_all :: "io \<Rightarrow> file_system \<Rightarrow> path \<Rightarrow> byte list \<Rightarrow> file_system \<times> unit result" where
  "write_all io fs temp_path bytes =
     (case io_write_fails io of
        None \<Rightarrow> (fmupd temp_path bytes fs, Inr ())
      | Some n \<Rightarrow> (fmupd temp_path (take n bytes) fs, Inl (Storage_error Chain_not_written)))"

definition replace_file :: "io \<Rightarrow> file_system \<Rightarrow> path \<Rightarrow> path \<Rightarrow> file_system \<times> unit result" where
  "replace_file io fs temp_path final_path =
     (case fmlookup fs temp_path of
        None \<Rightarrow> (fs, Inl (Storage_error Chain_not_moved))
      | Some bytes \<Rightarrow>
          if \<not> io_rename io then (fs, Inl (Storage_error Chain_not_moved))
          else (fmupd final_path bytes (fmdrop temp_path fs), Inr ()))"

definition save_blockchain_to ::
  "json \<Rightarrow> io \<Rightarrow> file_system \<Rightarrow> string \<Rightarrow> block list \<Rightarrow> file_system \<times> unit result" where
  "save_blockchain_to js io fs dir chain =
     (if chain = [] then (fs, Inl (Storage_error Empty_chain_not_saved))
      else case ensure_data_directory_at io of Inl e \<Rightarrow> (fs, Inl e) | Inr _ \<Rightarrow>
     (case js_to_vec js chain of None \<Rightarrow> (fs, Inl (Storage_error Chain_not_serialized))
      | Some serialized \<Rightarrow>
     (let temp_path = unique_blockchain_temp_path io dir;
          final_path = blockchain_path_in dir
      in case create_temp io fs temp_path of (fs, Inl e) \<Rightarrow> (fs, Inl e) | (fs, Inr _) \<Rightarrow>
     (case write_all io fs temp_path serialized of (fs, Inl e) \<Rightarrow> (fs, Inl e) | (fs, Inr _) \<Rightarrow>
      if \<not> io_sync io then (fs, Inl (Storage_error Chain_not_synchronized))
      else replace_file io fs temp_path final_path))))"

definition load_blockchain_from ::
  "json \<Rightarrow> io_read \<Rightarrow> file_system \<Rightarrow> string \<Rightarrow> block list option result" where
  "load_blockchain_from js io fs dir =
     (case fmlookup fs (blockchain_path_in dir) of
        None \<Rightarrow> Inr None
      | Some bytes \<Rightarrow>
          if \<not> io_open io then Inl (Storage_error Chain_file_not_opened)
          else if \<not> io_read_to_end io then Inl (Storage_error Chain_file_not_read)
          else if bytes = [] then Inl (Storage_error Chain_file_empty)
          else and_then (ok_or (js_from_slice js bytes) (Storage_error Chain_file_invalid_json))
                 (\<lambda>chain. if chain = [] then Inl (Storage_error Stored_chain_empty)
                          else Inr (Some chain)))"

definition blockchain_exists :: "file_system \<Rightarrow> string \<Rightarrow> bool" where
  "blockchain_exists fs dir \<longleftrightarrow> fmlookup fs (blockchain_path_in dir) \<noteq> None"

definition delete_blockchain :: "bool \<Rightarrow> file_system \<Rightarrow> string \<Rightarrow> file_system \<times> unit result" where
  "delete_blockchain remove_ok fs dir =
     (if \<not> blockchain_exists fs dir then (fs, Inr ())
      else if \<not> remove_ok then (fs, Inl (Storage_error Chain_file_not_deleted))
      else (fmdrop (blockchain_path_in dir) fs, Inr ()))"

section \<open>The interface\<close>

locale chain_store =
  fixes save :: "'j \<Rightarrow> 'io \<Rightarrow> 'fs \<Rightarrow> 'c list \<Rightarrow> 'fs \<times> unit result"
    and stored :: "'j \<Rightarrow> 'fs \<Rightarrow> 'c list option result"
    and spec :: "'j \<Rightarrow> bool"
  assumes save_ok: "\<lbrakk>spec j; save j io fs chain = (fs', Inr ())\<rbrakk> \<Longrightarrow> stored j fs' = Inr (Some chain)"
    and save_error: "save j io fs chain = (fs', Inl e) \<Longrightarrow> stored j fs' = stored j fs"
begin

text \<open>After any sequence of saves the last one that succeeded is what is stored.\<close>

fun run_saves :: "'j \<Rightarrow> 'fs \<Rightarrow> ('io \<times> 'c list) list \<Rightarrow> 'fs" where
  "run_saves j fs [] = fs"
| "run_saves j fs ((io, chain) # saves) = run_saves j (fst (save j io fs chain)) saves"

lemma save_cases:
  assumes "spec j"
  shows "stored j (fst (save j io fs chain)) =
    (if is_ok (snd (save j io fs chain)) then Inr (Some chain) else stored j fs)"
proof (cases "save j io fs chain")
  case (Pair fs' r)
  then show ?thesis
    using save_ok[OF assms] save_error by (cases r) auto
qed

lemma stored_after_saves:
  assumes "spec j"
  shows "stored j (run_saves j fs saves) = stored j fs \<or>
    (\<exists>io chain. (io, chain) \<in> set saves \<and> stored j (run_saves j fs saves) = Inr (Some chain))"
proof (induction saves arbitrary: fs)
  case Nil
  then show ?case by simp
next
  case (Cons s saves)
  obtain io chain where s: "s = (io, chain)"
    by fastforce
  show ?case
    using Cons.IH[of "fst (save j io fs chain)"] save_cases[OF assms, of io fs chain]
    by (auto simp: s split: if_splits)
qed

end

text \<open>The stored chain, as a load reads it when the operating system lets it.\<close>

definition stored_chain :: "string \<Rightarrow> json \<Rightarrow> file_system \<Rightarrow> block list option result" where
  "stored_chain dir js fs = load_blockchain_from js \<lparr>io_open = True, io_read_to_end = True\<rparr> fs dir"

lemma temp_path_differs: "unique_blockchain_temp_path io dir \<noteq> blockchain_path_in dir'"
  by (simp add: unique_blockchain_temp_path_def blockchain_path_in_def BLOCKCHAIN_FILE_NAME_def)

lemma save_blockchain_to_ok:
  assumes "save_blockchain_to js io fs dir chain = (fs', Inr ())"
  obtains bytes where "js_to_vec js chain = Some bytes" "chain \<noteq> []"
    "fmlookup fs' (blockchain_path_in dir) = Some bytes"
    "\<And>p. p \<noteq> blockchain_path_in dir \<Longrightarrow> fmlookup fs' p = fmlookup fs p"
proof -
  let ?temp = "unique_blockchain_temp_path io dir"
  obtain bytes where bytes: "js_to_vec js chain = Some bytes" and ne: "chain \<noteq> []"
    and fresh: "fmlookup fs ?temp = None"
    and fs': "fs' = fmupd (blockchain_path_in dir) bytes (fmdrop ?temp (fmupd ?temp bytes (fmupd ?temp [] fs)))"
    using assms
    by (auto simp: save_blockchain_to_def ensure_data_directory_at_def create_temp_def write_all_def
        replace_file_def Let_def split: if_splits option.splits)
  show thesis
    by (rule that[OF bytes ne]) (auto simp: fs' fresh)
qed

text \<open>A failed save changes at most its temporary file.\<close>

lemma save_blockchain_to_error:
  assumes "save_blockchain_to js io fs dir chain = (fs', Inl e)"
    and "p \<noteq> unique_blockchain_temp_path io dir"
  shows "fmlookup fs' p = fmlookup fs p"
  using assms
  by (auto simp: save_blockchain_to_def ensure_data_directory_at_def create_temp_def write_all_def
      replace_file_def Let_def split: if_splits option.splits)

interpretation store: chain_store "\<lambda>(dir, js) io fs. save_blockchain_to js io fs dir"
  "\<lambda>(dir, js). stored_chain dir js" "\<lambda>(dir, js). json_spec js"
proof
  show "(case j of (dir, js) \<Rightarrow> stored_chain dir js) fs' = Inr (Some chain)"
    if "case j of (dir, js) \<Rightarrow> json_spec js"
      "(case j of (dir, js) \<Rightarrow> \<lambda>io fs. save_blockchain_to js io fs dir) io fs chain = (fs', Inr ())"
    for j io fs chain fs'
    using that by (auto simp: stored_chain_def load_blockchain_from_def json_spec_def
        elim!: save_blockchain_to_ok split: prod.splits)
  show "(case j of (dir, js) \<Rightarrow> stored_chain dir js) fs' = (case j of (dir, js) \<Rightarrow> stored_chain dir js) fs"
    if "(case j of (dir, js) \<Rightarrow> \<lambda>io fs. save_blockchain_to js io fs dir) io fs chain = (fs', Inl e)"
    for j io fs chain fs' e
    using that save_blockchain_to_error[OF _ temp_path_differs[symmetric]]
    by (auto simp: stored_chain_def load_blockchain_from_def split: prod.splits)
qed

text \<open>What a failed write leaves behind: the temporary file, with what was written.\<close>

lemma failed_write_leaves_temp:
  assumes "chain \<noteq> []" and "io_create_dir io" and "js_to_vec js chain = Some bytes"
    and "io_create_new io" and "fmlookup fs (unique_blockchain_temp_path io dir) = None"
    and "io_write_fails io = Some n"
  shows "fmlookup (fst (save_blockchain_to js io fs dir chain)) (unique_blockchain_temp_path io dir) =
    Some (take n bytes)"
  using assms by (simp add: save_blockchain_to_def ensure_data_directory_at_def create_temp_def
      write_all_def Let_def)

end
