(* ===== verification/Network.thy ===== *)
theory Network
  imports Core
begin

text \<open>
  \<open>src/network/mod.rs\<close>: the messages between nodes, the checks they pass before they are kept,
  the registry of peers, and the two bounded logs of messages. \<open>msize\<close> is the length of the
  message as \<open>serde_json\<close> writes it (\<open>None\<close>: it does not), \<open>clock\<close> a reading of the system
  clock. The lemmas show the invariant of the registry and the logs, when a peer is
  registered, and that a fresh handshake and its acknowledgement pass the checks.
\<close>

section \<open>Messages\<close>

datatype network_message =
    Handshake string string string string u32 u64 string string
      \<comment> \<open>node id, public key, listen address, network id, protocol version, timestamp, challenge, signature\<close>
  | Handshake_ack string string string u32 u64 string bool string
      \<comment> \<open>node id, public key, network id, protocol version, timestamp, challenge, accepted, signature\<close>
  | Transaction_message transaction
  | Transaction_ack string bool "string option"
      \<comment> \<open>transaction id, accepted, reason\<close>
  | Block_message block
  | Sync_request
  | Chain_chunk_request u64
      \<comment> \<open>start index\<close>
  | Chain_chunk_response u64 u64 "block list"
      \<comment> \<open>start index, total blocks, blocks\<close>
  | Account_state_request string
  | Account_state_response string u64 u64 u64 string
      \<comment> \<open>address, balance, nonce, tip index, tip hash\<close>

record peer_identity =
  pi_node_id :: string
  pi_listen_address :: string

datatype peer_registration_outcome =
    Registered
  | Already_registered
  | One_shot_client
  | Node_id_conflict
  | Listen_address_conflict
  | Peer_limit_reached
  | Invalid_identity

record network =
  nw_peers :: "string list"
  nw_peer_identities :: "peer_identity list"
  nw_messages :: "network_message list"
  nw_inbox :: "network_message list"

definition ONE_SHOT_CLIENT_LISTEN_ADDRESS :: string where
  "ONE_SHOT_CLIENT_LISTEN_ADDRESS = ''127.0.0.1:0''"

definition MAX_TRANSACTION_ACK_REASON_LENGTH :: nat where
  "MAX_TRANSACTION_ACK_REASON_LENGTH = 512"

definition network_new :: network where
  "network_new = \<lparr>nw_peers = [], nw_peer_identities = [], nw_messages = [], nw_inbox = []\<rparr>"

section \<open>Handshakes\<close>

text \<open>\<open>unwrap_or_default\<close>: a clock before the epoch reads 0.\<close>

definition current_timestamp :: "u64 option \<Rightarrow> u64" where
  "current_timestamp clock = (case clock of None \<Rightarrow> 0 | Some t \<Rightarrow> t)"

definition abs_diff :: "u64 \<Rightarrow> u64 \<Rightarrow> u64" where
  "abs_diff a b = (if a < b then b - a else a - b)"

definition handshake_timestamp_valid :: "u64 option \<Rightarrow> u64 \<Rightarrow> bool" where
  "handshake_timestamp_valid clock timestamp \<longleftrightarrow>
     abs_diff (current_timestamp clock) timestamp \<le> MAX_HANDSHAKE_AGE_SECONDS"

definition generate_handshake_challenge :: "crypto \<Rightarrow> byte list \<Rightarrow> string" where
  "generate_handshake_challenge cr random_bytes = hex_encode cr random_bytes"

definition handshake_challenge :: "network_message \<Rightarrow> string option" where
  "handshake_challenge m = (case m of Handshake _ _ _ _ _ _ c _ \<Rightarrow> Some c | _ \<Rightarrow> None)"

definition create_handshake ::
  "crypto \<Rightarrow> u64 option \<Rightarrow> byte list \<Rightarrow> wallet \<Rightarrow> string \<Rightarrow> network_message" where
  "create_handshake cr clock random_bytes w listen_address =
     (let nid = node_id w;
          public_key = public_key_hex cr w;
          timestamp = current_timestamp clock;
          challenge = generate_handshake_challenge cr random_bytes;
          signature = sign_node_handshake cr w listen_address NETWORK_ID NETWORK_PROTOCOL_VERSION
                        timestamp challenge
      in Handshake nid public_key listen_address NETWORK_ID NETWORK_PROTOCOL_VERSION timestamp
           challenge signature)"

definition create_handshake_ack ::
  "crypto \<Rightarrow> u64 option \<Rightarrow> wallet \<Rightarrow> bool \<Rightarrow> string \<Rightarrow> network_message" where
  "create_handshake_ack cr clock w accepted challenge =
     (let nid = node_id w;
          public_key = public_key_hex cr w;
          timestamp = current_timestamp clock;
          signature = sign_node_handshake_ack cr w NETWORK_ID NETWORK_PROTOCOL_VERSION timestamp
                        challenge accepted
      in Handshake_ack nid public_key NETWORK_ID NETWORK_PROTOCOL_VERSION timestamp challenge accepted
           signature)"

definition handshake_fields_valid ::
  "crypto \<Rightarrow> u64 option \<Rightarrow> string \<Rightarrow> string \<Rightarrow> string \<Rightarrow> string \<Rightarrow> u32 \<Rightarrow> u64 \<Rightarrow> string \<Rightarrow> string \<Rightarrow> bool"
where
  "handshake_fields_valid cr clock nid public_key listen_address network_id protocol_version
       timestamp challenge signature \<longleftrightarrow>
     is_fixed_hex nid ADDRESS_HEX_LENGTH \<and>
     is_fixed_hex public_key ADDRESS_HEX_LENGTH \<and>
     listen_address \<noteq> [] \<and>
     length listen_address \<le> MAX_PEER_ADDRESS_LENGTH \<and>
     network_id = NETWORK_ID \<and>
     protocol_version = NETWORK_PROTOCOL_VERSION \<and>
     handshake_timestamp_valid clock timestamp \<and>
     is_fixed_hex challenge 64 \<and>
     verify_node_handshake cr nid public_key listen_address network_id protocol_version timestamp
       challenge signature"

definition handshake_ack_fields_valid :: "string \<Rightarrow> string \<Rightarrow> u32 \<Rightarrow> bool" where
  "handshake_ack_fields_valid nid network_id protocol_version \<longleftrightarrow>
     is_fixed_hex nid ADDRESS_HEX_LENGTH \<and> network_id = NETWORK_ID \<and>
     protocol_version = NETWORK_PROTOCOL_VERSION"

definition transaction_ack_fields_valid :: "string \<Rightarrow> bool \<Rightarrow> string option \<Rightarrow> bool" where
  "transaction_ack_fields_valid transaction_id accepted reason =
     (if \<not> is_fixed_hex transaction_id HASH_HEX_LENGTH then False
      else case (accepted, reason) of
             (True, None) \<Rightarrow> True
           | (False, Some reason) \<Rightarrow>
               reason \<noteq> [] \<and> length reason \<le> MAX_TRANSACTION_ACK_REASON_LENGTH
           | _ \<Rightarrow> False)"

definition message_within_limits ::
  "crypto \<Rightarrow> (network_message \<Rightarrow> nat option) \<Rightarrow> u64 option \<Rightarrow> network_message \<Rightarrow> bool" where
  "message_within_limits cr msize clock message =
     (let serialized_size_ok =
            (case msize message of Some n \<Rightarrow> n \<le> MAX_NETWORK_MESSAGE_BYTES | None \<Rightarrow> False)
      in if \<not> serialized_size_ok then False
         else case message of
           Handshake nid public_key listen_address network_id protocol_version timestamp challenge
               signature \<Rightarrow>
             handshake_fields_valid cr clock nid public_key listen_address network_id
               protocol_version timestamp challenge signature
         | Handshake_ack nid _ network_id protocol_version _ challenge _ _ \<Rightarrow>
             handshake_ack_fields_valid nid network_id protocol_version \<and> is_fixed_hex challenge 64
         | Transaction_ack transaction_id accepted reason \<Rightarrow>
             transaction_ack_fields_valid transaction_id accepted reason
         | Account_state_request address \<Rightarrow> is_fixed_hex address ADDRESS_HEX_LENGTH
         | Account_state_response address _ _ _ tip_hash \<Rightarrow>
             is_fixed_hex address ADDRESS_HEX_LENGTH \<and> is_fixed_hex tip_hash HASH_HEX_LENGTH
         | Chain_chunk_response _ _ blocks \<Rightarrow> length blocks \<le> MAX_SYNC_BLOCKS_PER_MESSAGE
         | Chain_chunk_request _ \<Rightarrow> True
         | _ \<Rightarrow> True)"

definition validate_handshake ::
  "crypto \<Rightarrow> (network_message \<Rightarrow> nat option) \<Rightarrow> u64 option \<Rightarrow> network_message \<Rightarrow> bool" where
  "validate_handshake cr msize clock message \<longleftrightarrow>
     (case message of Handshake _ _ _ _ _ _ _ _ \<Rightarrow> True | _ \<Rightarrow> False) \<and>
     message_within_limits cr msize clock message"

definition validate_handshake_ack ::
  "crypto \<Rightarrow> u64 option \<Rightarrow> network_message \<Rightarrow> string \<Rightarrow> bool" where
  "validate_handshake_ack cr clock message expected_challenge =
     (case message of
        Handshake_ack nid public_key network_id protocol_version timestamp challenge accepted
            signature \<Rightarrow>
          accepted \<and> challenge = expected_challenge \<and>
          handshake_ack_fields_valid nid network_id protocol_version \<and>
          handshake_timestamp_valid clock timestamp \<and>
          verify_node_handshake_ack cr nid public_key network_id protocol_version timestamp
            challenge accepted signature
      | _ \<Rightarrow> False)"

definition validate_transaction_ack ::
  "crypto \<Rightarrow> (network_message \<Rightarrow> nat option) \<Rightarrow> u64 option \<Rightarrow> network_message \<Rightarrow> string \<Rightarrow> bool"
where
  "validate_transaction_ack cr msize clock message expected_transaction_id \<longleftrightarrow>
     (case message of Transaction_ack transaction_id _ _ \<Rightarrow> transaction_id = expected_transaction_id
      | _ \<Rightarrow> False) \<and>
     message_within_limits cr msize clock message"

definition validate_account_state_response ::
  "crypto \<Rightarrow> (network_message \<Rightarrow> nat option) \<Rightarrow> u64 option \<Rightarrow> network_message \<Rightarrow> string \<Rightarrow> bool"
where
  "validate_account_state_response cr msize clock message expected_address \<longleftrightarrow>
     (case message of Account_state_response address _ _ _ _ \<Rightarrow> address = expected_address
      | _ \<Rightarrow> False) \<and>
     message_within_limits cr msize clock message"

section \<open>The registry of peers and the logs\<close>

definition push_message_history :: "network \<Rightarrow> network_message \<Rightarrow> network" where
  "push_message_history nw message =
     (let messages = (if length (nw_messages nw) \<ge> MAX_NETWORK_MESSAGE_HISTORY
                      then tl (nw_messages nw) else nw_messages nw)
      in nw\<lparr>nw_messages := messages @ [message]\<rparr>)"

definition push_inbox :: "network \<Rightarrow> network_message \<Rightarrow> network" where
  "push_inbox nw message =
     (let inbox = (if length (nw_inbox nw) \<ge> MAX_NETWORK_INBOX_MESSAGES
                   then tl (nw_inbox nw) else nw_inbox nw)
      in nw\<lparr>nw_inbox := inbox @ [message]\<rparr>)"

definition network_add_peer :: "network \<Rightarrow> string \<Rightarrow> network \<times> bool" where
  "network_add_peer nw address =
     (if address = [] \<or> address = ONE_SHOT_CLIENT_LISTEN_ADDRESS \<or>
         length address > MAX_PEER_ADDRESS_LENGTH
      then (nw, False)
      else if length (nw_peers nw) \<ge> MAX_NETWORK_PEERS then (nw, False)
      else if address \<in> set (nw_peers nw) then (nw, False)
      else (nw\<lparr>nw_peers := nw_peers nw @ [address]\<rparr>, True))"

definition register_peer_identity ::
  "network \<Rightarrow> string \<Rightarrow> string \<Rightarrow> network \<times> peer_registration_outcome" where
  "register_peer_identity nw nid listen_address =
     (if \<not> is_fixed_hex nid ADDRESS_HEX_LENGTH \<or> listen_address = [] \<or>
         length listen_address > MAX_PEER_ADDRESS_LENGTH
      then (nw, Invalid_identity)
      else if listen_address = ONE_SHOT_CLIENT_LISTEN_ADDRESS then (nw, One_shot_client)
      else if list_ex (\<lambda>peer. pi_node_id peer = nid \<and> pi_listen_address peer = listen_address)
                (nw_peer_identities nw)
      then (nw, Already_registered)
      else if list_ex (\<lambda>peer. pi_node_id peer = nid) (nw_peer_identities nw)
      then (nw, Node_id_conflict)
      else if list_ex (\<lambda>peer. pi_listen_address peer = listen_address) (nw_peer_identities nw)
      then (nw, Listen_address_conflict)
      else if length (nw_peer_identities nw) \<ge> MAX_NETWORK_PEERS \<or>
              (listen_address \<notin> set (nw_peers nw) \<and> length (nw_peers nw) \<ge> MAX_NETWORK_PEERS)
      then (nw, Peer_limit_reached)
      else let nw = (if listen_address \<notin> set (nw_peers nw)
                     then nw\<lparr>nw_peers := nw_peers nw @ [listen_address]\<rparr> else nw)
           in (nw\<lparr>nw_peer_identities := nw_peer_identities nw @
                   [\<lparr>pi_node_id = nid, pi_listen_address = listen_address\<rparr>]\<rparr>, Registered))"

definition add_peer_identity :: "network \<Rightarrow> string \<Rightarrow> string \<Rightarrow> network \<times> bool" where
  "add_peer_identity nw nid listen_address =
     (let (nw, outcome) = register_peer_identity nw nid listen_address
      in (nw, outcome = Registered))"

definition has_peer_node_id :: "network \<Rightarrow> string \<Rightarrow> bool" where
  "has_peer_node_id nw nid \<longleftrightarrow> list_ex (\<lambda>peer. pi_node_id peer = nid) (nw_peer_identities nw)"

definition network_peer_count :: "network \<Rightarrow> nat" where
  "network_peer_count nw = length (nw_peers nw)"

definition identified_peer_count :: "network \<Rightarrow> nat" where
  "identified_peer_count nw = length (nw_peer_identities nw)"

text \<open>\<open>sent\<close> is what \<open>TcpTransport::broadcast_authenticated\<close> answers for the peers.\<close>

definition broadcast_to_peers ::
  "crypto \<Rightarrow> (network_message \<Rightarrow> nat option) \<Rightarrow> u64 option \<Rightarrow>
   (string list \<Rightarrow> network_message \<Rightarrow> nat \<times> nat) \<Rightarrow> network \<Rightarrow> network_message \<Rightarrow>
   network \<times> nat \<times> nat" where
  "broadcast_to_peers cr msize clock sent nw message =
     (if \<not> message_within_limits cr msize clock message then (nw, 0, 0)
      else let result = sent (nw_peers nw) message
           in (push_inbox (push_message_history nw message) message, result))"

definition broadcast ::
  "crypto \<Rightarrow> (network_message \<Rightarrow> nat option) \<Rightarrow> u64 option \<Rightarrow> network \<Rightarrow> network_message \<Rightarrow> network"
where
  "broadcast cr msize clock nw message =
     (if \<not> message_within_limits cr msize clock message then nw
      else push_inbox (push_message_history nw message) message)"

definition network_receive ::
  "crypto \<Rightarrow> (network_message \<Rightarrow> nat option) \<Rightarrow> u64 option \<Rightarrow> network \<Rightarrow> network_message \<Rightarrow> network"
where
  "network_receive cr msize clock nw message =
     (if \<not> message_within_limits cr msize clock message then nw
      else let nw = (case message of
                       Handshake nid _ listen_address _ _ _ _ _ \<Rightarrow>
                         fst (register_peer_identity nw nid listen_address)
                     | _ \<Rightarrow> nw)
           in push_message_history nw message)"

definition fetch_messages :: "network \<Rightarrow> network \<times> network_message list" where
  "fetch_messages nw = (nw\<lparr>nw_inbox := []\<rparr>, nw_inbox nw)"

definition message_count :: "network \<Rightarrow> nat" where
  "message_count nw = length (nw_messages nw)"

section \<open>The invariant of the registry\<close>

definition peer_address_ok :: "string \<Rightarrow> bool" where
  "peer_address_ok a \<longleftrightarrow>
     a \<noteq> [] \<and> a \<noteq> ONE_SHOT_CLIENT_LISTEN_ADDRESS \<and> length a \<le> MAX_PEER_ADDRESS_LENGTH"

definition network_wf :: "network \<Rightarrow> bool" where
  "network_wf nw \<longleftrightarrow>
     distinct (nw_peers nw) \<and> length (nw_peers nw) \<le> MAX_NETWORK_PEERS \<and>
     list_all peer_address_ok (nw_peers nw) \<and>
     distinct (map pi_node_id (nw_peer_identities nw)) \<and>
     distinct (map pi_listen_address (nw_peer_identities nw)) \<and>
     list_all (\<lambda>p. is_fixed_hex (pi_node_id p) ADDRESS_HEX_LENGTH \<and>
       pi_listen_address p \<in> set (nw_peers nw)) (nw_peer_identities nw) \<and>
     length (nw_messages nw) \<le> MAX_NETWORK_MESSAGE_HISTORY \<and>
     length (nw_inbox nw) \<le> MAX_NETWORK_INBOX_MESSAGES"

lemma network_new_wf [simp]: "network_wf network_new"
  by (simp add: network_wf_def network_new_def)

lemma push_wf [simp, intro]:
  "network_wf nw \<Longrightarrow> network_wf (push_message_history nw m)"
  "network_wf nw \<Longrightarrow> network_wf (push_inbox nw m)"
  by (auto simp: network_wf_def push_message_history_def push_inbox_def Let_def
      MAX_NETWORK_MESSAGE_HISTORY_def MAX_NETWORK_INBOX_MESSAGES_def)

lemma network_add_peer_wf: "network_wf nw \<Longrightarrow> network_wf (fst (network_add_peer nw a))"
  by (auto simp: network_add_peer_def network_wf_def peer_address_ok_def list_all_iff)

lemma register_peer_identity_wf:
  "network_wf nw \<Longrightarrow> network_wf (fst (register_peer_identity nw nid a))"
  by (auto simp: register_peer_identity_def network_wf_def peer_address_ok_def list_all_iff
      list_ex_iff Let_def)

text \<open>Only a successful registration changes the network, and it is the last case left.\<close>

lemma register_peer_identity_other:
  "register_peer_identity nw nid a = (nw', r) \<Longrightarrow> r \<noteq> Registered \<Longrightarrow> nw' = nw"
  by (auto simp: register_peer_identity_def Let_def split: if_splits)

lemma register_peer_identity_iff:
  "snd (register_peer_identity nw nid a) = Registered \<longleftrightarrow>
     is_fixed_hex nid ADDRESS_HEX_LENGTH \<and> peer_address_ok a \<and>
     nid \<notin> pi_node_id ` set (nw_peer_identities nw) \<and>
     a \<notin> pi_listen_address ` set (nw_peer_identities nw) \<and>
     length (nw_peer_identities nw) < MAX_NETWORK_PEERS \<and>
     (a \<in> set (nw_peers nw) \<or> length (nw_peers nw) < MAX_NETWORK_PEERS)"
  by (auto simp: register_peer_identity_def peer_address_ok_def list_ex_iff Let_def)

lemma register_peer_identity_effect:
  assumes "register_peer_identity nw nid a = (nw', Registered)"
  shows "nw_peer_identities nw' = nw_peer_identities nw @ [\<lparr>pi_node_id = nid, pi_listen_address = a\<rparr>]"
    and "set (nw_peers nw') = insert a (set (nw_peers nw))"
    and "nw_messages nw' = nw_messages nw" "nw_inbox nw' = nw_inbox nw"
  using assms by (auto simp: register_peer_identity_def Let_def split: if_splits)

lemma network_receive_wf: "network_wf nw \<Longrightarrow> network_wf (network_receive cr msize clock nw m)"
  by (auto simp: network_receive_def register_peer_identity_wf Let_def split: network_message.splits)

lemma broadcast_wf: "network_wf nw \<Longrightarrow> network_wf (broadcast cr msize clock nw m)"
  by (simp add: broadcast_def push_wf)

lemma broadcast_to_peers_wf:
  "network_wf nw \<Longrightarrow> network_wf (fst (broadcast_to_peers cr msize clock sent nw m))"
  by (simp add: broadcast_to_peers_def push_wf Let_def)

lemma fetch_messages_wf: "network_wf nw \<Longrightarrow> network_wf (fst (fetch_messages nw))"
  by (simp add: fetch_messages_def network_wf_def)

section \<open>Fresh handshakes pass\<close>

lemma unat_abs_diff:
  "unat (abs_diff a b) = (if unat a < unat b then unat b - unat a else unat a - unat b)"
  by (auto simp: abs_diff_def unat_sub word_less_nat_alt word_le_nat_alt)

lemma handshake_timestamp_valid_iff:
  "handshake_timestamp_valid (Some now) t \<longleftrightarrow>
     unat t \<le> unat now + 120 \<and> unat now \<le> unat t + 120"
  by (auto simp: handshake_timestamp_valid_def current_timestamp_def MAX_HANDSHAKE_AGE_SECONDS_def
      word_le_nat_alt unat_abs_diff)

lemma create_handshake_valid:
  assumes cr: "crypto_spec cr" and w: "wallet_wf cr w"
    and address: "address \<noteq> []" "length address \<le> MAX_PEER_ADDRESS_LENGTH"
    and random: "length random = 32"
    and sent: "create_handshake cr (Some t) random w address = m"
    and fits: "msize m = Some n" "n \<le> MAX_NETWORK_MESSAGE_BYTES"
    and clock: "unat t \<le> unat now + 120" "unat now \<le> unat t + 120"
  shows "validate_handshake cr msize (Some now) m"
    and "handshake_challenge m = Some (hex_encode cr random)"
proof -
  have "is_fixed_hex (hex_encode cr random) 64"
    using cr random by (simp add: crypto_spec_def hex_spec_def lower_hex_of_fixed)
  moreover have "is_fixed_hex (public_key_hex cr w) ADDRESS_HEX_LENGTH"
    using wallet_texts_fixed_hex(2)[OF cr w] by (simp add: hex_lengths)
  moreover have "verify_node_handshake cr (node_id w) (public_key_hex cr w) address NETWORK_ID
      NETWORK_PROTOCOL_VERSION t c
      (sign_node_handshake cr w address NETWORK_ID NETWORK_PROTOCOL_VERSION t c)" for c
    by (simp add: verify_node_handshake_def sign_node_handshake_def node_id_def
        wallet_address_derived[OF cr w] wallet_signature_verifies[OF cr w])
  ultimately show "validate_handshake cr msize (Some now) m"
    using fits clock address wallet_texts_fixed_hex(1)[OF cr w] sent
    by (auto simp: create_handshake_def current_timestamp_def generate_handshake_challenge_def
        validate_handshake_def message_within_limits_def handshake_fields_valid_def node_id_def
        handshake_timestamp_valid_iff Let_def)
  show "handshake_challenge m = Some (hex_encode cr random)"
    by (simp add: create_handshake_def handshake_challenge_def generate_handshake_challenge_def
        Let_def flip: sent)
qed

lemma create_handshake_ack_valid:
  assumes cr: "crypto_spec cr" and w: "wallet_wf cr w"
    and clock: "unat t \<le> unat now + 120" "unat now \<le> unat t + 120"
  shows "validate_handshake_ack cr (Some now) (create_handshake_ack cr (Some t) w accepted c) c' \<longleftrightarrow>
    accepted \<and> c' = c"
proof -
  have "verify_node_handshake_ack cr (node_id w) (public_key_hex cr w) NETWORK_ID
      NETWORK_PROTOCOL_VERSION t c a
      (sign_node_handshake_ack cr w NETWORK_ID NETWORK_PROTOCOL_VERSION t c a)" for a
    by (simp add: verify_node_handshake_ack_def sign_node_handshake_ack_def node_id_def
        wallet_address_derived[OF cr w] wallet_signature_verifies[OF cr w])
  then show ?thesis
    using clock wallet_texts_fixed_hex(1)[OF cr w]
    by (auto simp: create_handshake_ack_def validate_handshake_ack_def current_timestamp_def
        handshake_ack_fields_valid_def handshake_timestamp_valid_iff node_id_def Let_def)
qed

text \<open>What an accepted handshake proves: the holder of the key behind the node id signed it.\<close>

lemma validate_handshake_authentic:
  assumes "validate_handshake cr msize clock m"
  obtains nid pk a t c s where
    "m = Handshake nid pk a NETWORK_ID NETWORK_PROTOCOL_VERSION t c s"
    "address_from_public_key cr pk = Some nid"
    "wallet_verify cr pk (node_handshake_message nid pk a NETWORK_ID NETWORK_PROTOCOL_VERSION t c) s"
    "handshake_timestamp_valid clock t" "is_fixed_hex c 64"
  using assms
  by (auto simp: validate_handshake_def message_within_limits_def handshake_fields_valid_def
      verify_node_handshake_def Let_def split: network_message.splits if_splits option.splits)

end
