(* ===== verification/Node.thy ===== *)
theory Node
  imports Validation Storage Network
begin

text \<open>
  The second half of \<open>src/node/mod.rs\<close>: the node and its handlers. A handler takes the third-party
  code it runs on (\<open>platform\<close>), what the operating system answers during the call (\<open>effects\<close>), the
  file system and the node, and returns the last two with its result. The clock is a function,
  because replaying a chain reads it once per block. A panic is not an error text, so
  a handler that swallows errors still passes a \<open>Panic\<close> on.
\<close>

record platform =
  pf_crypto :: crypto
  pf_json :: json
  pf_message_size :: "network_message \<Rightarrow> nat option"

record effects =
  ef_clock :: "nat \<Rightarrow> u64 option"
  ef_io :: io

record node =
  nd_blockchain :: blockchain
  nd_state :: state
  nd_mempool :: mempool
  nd_consensus :: consensus
  nd_network :: network
  nd_genesis_state :: state
  nd_genesis_economy :: economy
  nd_storage_directory :: string
  nd_sync_buffer :: "block list"
  nd_sync_expected_total :: "u64 option"

definition node_new_with_data_directory ::
  "blockchain \<Rightarrow> state \<Rightarrow> consensus \<Rightarrow> string \<Rightarrow> node" where
  "node_new_with_data_directory bc st co dir = \<lparr>
     nd_blockchain = bc,
     nd_state = st,
     nd_mempool = mempool_new,
     nd_consensus = co,
     nd_network = network_new,
     nd_genesis_state = st,
     nd_genesis_economy = bc_economy bc,
     nd_storage_directory = dir,
     nd_sync_buffer = [],
     nd_sync_expected_total = None\<rparr>"

definition node_new ::
  "string option \<Rightarrow> string option \<Rightarrow> blockchain \<Rightarrow> state \<Rightarrow> consensus \<Rightarrow> node" where
  "node_new kybernetes_dir aion_dir bc st co =
     node_new_with_data_directory bc st co (data_directory kybernetes_dir aion_dir)"

definition is_panic :: "error \<Rightarrow> bool" where
  "is_panic e = (case e of Panic _ \<Rightarrow> True | _ \<Rightarrow> False)"

abbreviation node_save ::
  "platform \<Rightarrow> effects \<Rightarrow> file_system \<Rightarrow> node \<Rightarrow> block list \<Rightarrow> file_system \<times> unit result" where
  "node_save pf ef fs nd chain \<equiv>
     save_blockchain_to (pf_json pf) (ef_io ef) fs (nd_storage_directory nd) chain"

section \<open>Transactions\<close>

definition insert_transaction_into_mempool ::
  "platform \<Rightarrow> node \<Rightarrow> transaction \<Rightarrow> node \<times> unit result" where
  "insert_transaction_into_mempool pf nd tx =
     (case validate_transaction_for_mempool (pf_crypto pf) tx (nd_state nd)
             (bc_economy (nd_blockchain nd)) (nd_mempool nd) of
        Inl e \<Rightarrow> (nd, Inl e)
      | Inr _ \<Rightarrow>
          (case mempool_add (pf_crypto pf) (nd_mempool nd) tx of
             (mp, added) \<Rightarrow>
               if \<not> added then (nd\<lparr>nd_mempool := mp\<rparr>, Inl (Transaction_check Mempool_limit_or_duplicate))
               else (nd\<lparr>nd_mempool := mp\<rparr>, Inr ())))"

definition receive_transaction_with_result ::
  "platform \<Rightarrow> node \<Rightarrow> transaction \<Rightarrow> node \<times> unit result" where
  "receive_transaction_with_result pf nd tx = insert_transaction_into_mempool pf nd tx"

definition node_broadcast :: "platform \<Rightarrow> effects \<Rightarrow> node \<Rightarrow> network_message \<Rightarrow> node" where
  "node_broadcast pf ef nd message =
     nd\<lparr>nd_network := broadcast (pf_crypto pf) (pf_message_size pf) (ef_clock ef 0) (nd_network nd)
                         message\<rparr>"

definition node_network_receive :: "platform \<Rightarrow> effects \<Rightarrow> node \<Rightarrow> network_message \<Rightarrow> node" where
  "node_network_receive pf ef nd message =
     nd\<lparr>nd_network := network_receive (pf_crypto pf) (pf_message_size pf) (ef_clock ef 0)
                         (nd_network nd) message\<rparr>"

definition node_add_transaction ::
  "platform \<Rightarrow> effects \<Rightarrow> node \<Rightarrow> transaction \<Rightarrow> node \<times> bool" where
  "node_add_transaction pf ef nd tx =
     (case insert_transaction_into_mempool pf nd tx of
        (nd, Inr _) \<Rightarrow> (node_broadcast pf ef nd (Transaction_message tx), True)
      | (nd, Inl _) \<Rightarrow> (nd, False))"

section \<open>Blocks\<close>

definition remove_confirmed_transactions :: "mempool \<Rightarrow> block \<Rightarrow> mempool" where
  "remove_confirmed_transactions mp b =
     mp\<lparr>mp_transactions := filter (\<lambda>pending. \<not> list_ex (\<lambda>confirmed. \<not> tx_coinbase confirmed \<and>
          tx_id confirmed = tx_id pending) (blk_transactions b)) (mp_transactions mp)\<rparr>"

definition receive_block ::
  "platform \<Rightarrow> effects \<Rightarrow> file_system \<Rightarrow> node \<Rightarrow> block \<Rightarrow> file_system \<times> node \<times> bool result" where
  "receive_block pf ef fs nd b =
     (case validate_and_apply_block (pf_crypto pf) (ef_clock ef 0) (nd_consensus nd) b
             (nd_blockchain nd) (nd_state nd) of
        Inr (candidate_blockchain, rebuilt_state) \<Rightarrow>
          (case node_save pf ef fs nd (bc_chain candidate_blockchain) of
             (fs, Inl _) \<Rightarrow> (fs, nd, Inr False)
           | (fs, Inr _) \<Rightarrow>
               (fs, nd\<lparr>nd_blockchain := candidate_blockchain, nd_state := rebuilt_state,
                       nd_mempool := remove_confirmed_transactions (nd_mempool nd) b\<rparr>, Inr True))
      | Inl e \<Rightarrow> (fs, nd, if is_panic e then Inl e else Inr False))"

definition apply_block_to_sync_candidate ::
  "platform \<Rightarrow> effects \<Rightarrow> node \<Rightarrow> block \<Rightarrow> node \<times> unit result" where
  "apply_block_to_sync_candidate pf ef nd b =
     (case validate_and_apply_block (pf_crypto pf) (ef_clock ef 0) (nd_consensus nd) b
             (nd_blockchain nd) (nd_state nd) of
        Inl e \<Rightarrow> (nd, Inl e)
      | Inr (candidate_blockchain, rebuilt_state) \<Rightarrow>
          (nd\<lparr>nd_blockchain := candidate_blockchain, nd_state := rebuilt_state,
              nd_mempool := remove_confirmed_transactions (nd_mempool nd) b\<rparr>, Inr ()))"

text \<open>\<open>PathBuf::new()\<close> is the empty path.\<close>

definition sync_candidate_snapshot :: "node \<Rightarrow> node" where
  "sync_candidate_snapshot nd =
     node_new_with_data_directory (nd_blockchain nd) (nd_state nd) (nd_consensus nd) []"

definition adopt_validated_sync_candidate ::
  "platform \<Rightarrow> effects \<Rightarrow> file_system \<Rightarrow> node \<Rightarrow> blockchain \<Rightarrow> state \<Rightarrow>
   file_system \<times> node \<times> unit result" where
  "adopt_validated_sync_candidate pf ef fs nd candidate_blockchain candidate_state =
     (let local_chain = bc_chain (nd_blockchain nd); candidate = bc_chain candidate_blockchain
      in if local_chain = [] then (fs, nd, Inl (Sync_error Local_genesis_missing))
         else if candidate = [] then (fs, nd, Inl (Sync_error Candidate_genesis_missing))
         else if blk_hash (hd candidate) \<noteq> blk_hash (hd local_chain)
         then (fs, nd, Inl (Sync_error Candidate_genesis_mismatch))
         else if length candidate < length local_chain
         then (fs, nd, Inl (Sync_error Candidate_chain_shorter))
         else if length candidate = length local_chain then
           (if blk_hash (last candidate) \<noteq> blk_hash (last local_chain)
            then (fs, nd, Inl (Sync_error Candidate_equal_length_fork))
            else (fs, nd, Inr ()))
         else case node_save pf ef fs nd candidate of
                (fs, Inl (Storage_error e)) \<Rightarrow>
                  (fs, nd, Inl (Storage_error (Synchronized_chain_not_saved e)))
              | (fs, Inl e) \<Rightarrow> (fs, nd, Inl e)
              | (fs, Inr _) \<Rightarrow>
                  (fs, nd\<lparr>nd_blockchain := candidate_blockchain, nd_state := candidate_state,
                          nd_mempool := mempool_new\<rparr>, Inr ()))"

section \<open>Synchronizing a chain\<close>

text \<open>A chain as long as the local one: accepted, without effect, when it is the same chain.\<close>

definition compare_equal_chain :: "platform \<Rightarrow> node \<Rightarrow> block list \<Rightarrow> unit result" where
  "compare_equal_chain pf nd chain =
     (let local_chain = bc_chain (nd_blockchain nd)
      in if local_chain = [] then Inl (Sync_error Local_chain_empty)
         else if chain = [] then Inl (Sync_error Incoming_chain_empty)
         else if blk_hash (last chain) = blk_hash (last local_chain) then
           (let remote_blockchain = \<lparr>bc_chain = chain, bc_economy = nd_genesis_economy nd\<rparr>
            in if \<not> is_valid (pf_crypto pf) remote_blockchain
               then Inl (Sync_error Equal_length_chain_invalid)
               else if blk_hash (hd chain) \<noteq> blk_hash (hd local_chain)
               then Inl (Sync_error Genesis_mismatch)
               else Inr ())
         else Inl (Sync_error Equal_length_fork))"

definition check_incoming_genesis :: "platform \<Rightarrow> node \<Rightarrow> block list \<Rightarrow> block result" where
  "check_incoming_genesis pf nd chain =
     (if bc_chain (nd_blockchain nd) = [] then Inl (Sync_error Local_genesis_missing)
      else if chain = [] then Inl (Sync_error Incoming_genesis_missing)
      else let local_genesis = hd (bc_chain (nd_blockchain nd)); remote_genesis = hd chain
           in if blk_index remote_genesis \<noteq> 0 then Inl (Sync_error Genesis_index_invalid)
              else if blk_previous_hash remote_genesis \<noteq> ''0''
              then Inl (Sync_error Genesis_previous_hash_invalid)
              else if blk_hash remote_genesis \<noteq> calculate_hash (pf_crypto pf) remote_genesis
              then Inl (Sync_error Genesis_hash_invalid)
              else if blk_hash remote_genesis \<noteq> blk_hash local_genesis
              then Inl (Sync_error Genesis_mismatch)
              else Inr remote_genesis)"

text \<open>The loop that applies the blocks after the first, from the state of the genesis on.\<close>

definition replay_block ::
  "crypto \<Rightarrow> (nat \<Rightarrow> u64 option) \<Rightarrow> consensus \<Rightarrow> blockchain \<times> state \<Rightarrow> nat \<times> block \<Rightarrow>
   (blockchain \<times> state) result" where
  "replay_block cr clock co rebuilt ib =
     (case rebuilt of (bc, st) \<Rightarrow> case ib of (i, b) \<Rightarrow>
        validate_and_apply_block cr (clock i) co b bc st)"

definition replay_chain ::
  "crypto \<Rightarrow> (nat \<Rightarrow> u64 option) \<Rightarrow> node \<Rightarrow> block list \<Rightarrow> (blockchain \<times> state) result" where
  "replay_chain cr clock nd chain =
     try_fold (replay_block cr clock (nd_consensus nd))
       ((blockchain_new (hd chain))\<lparr>bc_economy := nd_genesis_economy nd\<rparr>, nd_genesis_state nd)
       (List.enumerate 0 (tl chain))"

definition synchronize_chain ::
  "platform \<Rightarrow> effects \<Rightarrow> file_system \<Rightarrow> node \<Rightarrow> block list \<Rightarrow> file_system \<times> node \<times> unit result"
where
  "synchronize_chain pf ef fs nd chain =
     (if chain = [] then (fs, nd, Inl (Sync_error Incoming_chain_empty))
      else if length chain < length (bc_chain (nd_blockchain nd))
      then (fs, nd, Inl (Sync_error Incoming_chain_shorter))
      else if length chain = length (bc_chain (nd_blockchain nd))
      then (fs, nd, compare_equal_chain pf nd chain)
      else case and_then (check_incoming_genesis pf nd chain)
                  (\<lambda>_. replay_chain (pf_crypto pf) (ef_clock ef) nd chain) of
             Inl e \<Rightarrow> (fs, nd, Inl e)
           | Inr (rebuilt_blockchain, rebuilt_state) \<Rightarrow>
               (case node_save pf ef fs nd (bc_chain rebuilt_blockchain) of
                  (fs, Inl (Storage_error e)) \<Rightarrow>
                    (fs, nd, Inl (Storage_error (Synchronized_chain_not_saved e)))
                | (fs, Inl e) \<Rightarrow> (fs, nd, Inl e)
                | (fs, Inr _) \<Rightarrow>
                    (fs, nd\<lparr>nd_blockchain := rebuilt_blockchain, nd_state := rebuilt_state,
                            nd_mempool := mempool_new\<rparr>, Inr ())))"

definition restore_chain_from_storage ::
  "platform \<Rightarrow> effects \<Rightarrow> file_system \<Rightarrow> node \<Rightarrow> block list \<Rightarrow> file_system \<times> node \<times> unit result"
where
  "restore_chain_from_storage pf ef fs nd chain = synchronize_chain pf ef fs nd chain"

definition verify_equal_chain ::
  "platform \<Rightarrow> effects \<Rightarrow> file_system \<Rightarrow> node \<Rightarrow> block list \<Rightarrow> file_system \<times> node \<times> unit result"
where
  "verify_equal_chain pf ef fs nd chain =
     (if length chain \<noteq> length (bc_chain (nd_blockchain nd))
      then (fs, nd, Inl (Sync_error Remote_chain_length_differs))
      else synchronize_chain pf ef fs nd chain)"

section \<open>Chains in chunks\<close>

definition check_chunk_bounds :: "u64 \<Rightarrow> u64 \<Rightarrow> block list \<Rightarrow> unit result" where
  "check_chunk_bounds start_index total_blocks blocks =
     (if length blocks > MAX_SYNC_BLOCKS_PER_MESSAGE then Inl (Sync_error Chunk_block_limit)
      else if unat total_blocks = 0 then Inl (Sync_error Chunk_total_zero)
      else if unat start_index > unat total_blocks then Inl (Sync_error Chunk_start_exceeds_total)
      else if unat start_index + length blocks \<ge> 2 ^ 64 then Inl (Sync_error Chunk_index_overflow)
      else if unat start_index + length blocks > unat total_blocks
      then Inl (Sync_error Chunk_exceeds_total)
      else Inr ())"

text \<open>A chunk that starts at 0 begins a new transfer; any other continues the current one.\<close>

definition open_chunk :: "node \<Rightarrow> u64 \<Rightarrow> u64 \<Rightarrow> node \<times> unit result" where
  "open_chunk nd start_index total_blocks =
     (if unat start_index = 0
      then (nd\<lparr>nd_sync_buffer := [], nd_sync_expected_total := Some total_blocks\<rparr>, Inr ())
      else if nd_sync_expected_total nd \<noteq> Some total_blocks
      then (nd, Inl (Sync_error Chunk_total_changed))
      else if length (nd_sync_buffer nd) \<noteq> unat start_index
      then (nd, Inl (Sync_error Chunk_order_invalid))
      else (nd, Inr ()))"

definition check_chunk_index :: "u64 \<Rightarrow> unit \<Rightarrow> nat \<times> block \<Rightarrow> unit result" where
  "check_chunk_index start_index _ ob =
     (case ob of (offset, b) \<Rightarrow>
      let expected_index = word_of_nat (unat start_index + offset)
      in if blk_index b \<noteq> expected_index
         then Inl (Sync_error (Chunk_block_index expected_index (blk_index b))) else Inr ())"

definition accept_chain_chunk ::
  "platform \<Rightarrow> effects \<Rightarrow> file_system \<Rightarrow> node \<Rightarrow> u64 \<Rightarrow> u64 \<Rightarrow> block list \<Rightarrow>
   file_system \<times> node \<times> u64 option result" where
  "accept_chain_chunk pf ef fs nd start_index total_blocks blocks =
     (case check_chunk_bounds start_index total_blocks blocks of
        Inl e \<Rightarrow> (fs, nd, Inl e)
      | Inr _ \<Rightarrow>
     (case open_chunk nd start_index total_blocks of
        (nd, Inl e) \<Rightarrow> (fs, nd, Inl e)
      | (nd, Inr _) \<Rightarrow>
     (case try_fold (check_chunk_index start_index) () (List.enumerate 0 blocks) of
        Inl e \<Rightarrow> (fs, nd, Inl e)
      | Inr _ \<Rightarrow>
          if blocks = [] \<and> unat start_index < unat total_blocks
          then (fs, nd, Inl (Sync_error Chunk_unexpectedly_empty))
          else let nd = nd\<lparr>nd_sync_buffer := nd_sync_buffer nd @ blocks\<rparr>;
                   buffer = nd_sync_buffer nd
               in if length buffer < unat total_blocks
                  then (fs, nd, Inr (Some (word_of_nat (length buffer))))
                  else if length buffer \<noteq> unat total_blocks
                  then (fs, nd, Inl (Sync_error Sync_buffer_length_invalid))
                  else let nd = nd\<lparr>nd_sync_buffer := [], nd_sync_expected_total := None\<rparr>
                       in case synchronize_chain pf ef fs nd buffer of
                            (fs, nd, Inl e) \<Rightarrow> (fs, nd, Inl e)
                          | (fs, nd, Inr _) \<Rightarrow> (fs, nd, Inr None))))"

definition apply_chain_chunk ::
  "platform \<Rightarrow> effects \<Rightarrow> file_system \<Rightarrow> node \<Rightarrow> u64 \<Rightarrow> u64 \<Rightarrow> block list \<Rightarrow>
   file_system \<times> node \<times> u64 option result" where
  "apply_chain_chunk pf ef fs nd start_index total_blocks blocks =
     accept_chain_chunk pf ef fs nd start_index total_blocks blocks"

definition request_chain :: "platform \<Rightarrow> effects \<Rightarrow> node \<Rightarrow> node" where
  "request_chain pf ef nd =
     node_broadcast pf ef (nd\<lparr>nd_sync_buffer := [], nd_sync_expected_total := None\<rparr>)
       (Chain_chunk_request 0)"

text \<open>The answer to a request for a chunk.\<close>

definition answer_chunk_request :: "platform \<Rightarrow> effects \<Rightarrow> node \<Rightarrow> u64 \<Rightarrow> node \<times> unit result" where
  "answer_chunk_request pf ef nd start_index =
     (let start = unat start_index;
          chain = bc_chain (nd_blockchain nd);
          total_blocks = length chain
      in if start > total_blocks then (nd, Inr ())
         else let end_index = min (start + MAX_SYNC_BLOCKS_PER_MESSAGE) total_blocks
              in (case slice_range chain start end_index of
                    Inl e \<Rightarrow> (nd, Inl e)
                  | Inr blocks \<Rightarrow>
                      (node_broadcast pf ef nd
                         (Chain_chunk_response start_index (word_of_nat total_blocks) blocks), Inr ())))"

section \<open>Messages\<close>

definition receive_message ::
  "platform \<Rightarrow> effects \<Rightarrow> file_system \<Rightarrow> node \<Rightarrow> network_message \<Rightarrow>
   file_system \<times> node \<times> unit result" where
  "receive_message pf ef fs nd message =
     (case message of
        Handshake _ _ _ _ _ _ _ _ \<Rightarrow> (fs, node_network_receive pf ef nd message, Inr ())
      | Handshake_ack _ _ _ _ _ _ _ _ \<Rightarrow> (fs, node_network_receive pf ef nd message, Inr ())
      | Transaction_ack _ _ _ \<Rightarrow> (fs, node_network_receive pf ef nd message, Inr ())
      | Account_state_request _ \<Rightarrow> (fs, node_network_receive pf ef nd message, Inr ())
      | Account_state_response _ _ _ _ _ \<Rightarrow> (fs, node_network_receive pf ef nd message, Inr ())
      | Transaction_message tx \<Rightarrow> (fs, fst (insert_transaction_into_mempool pf nd tx), Inr ())
      | Block_message b \<Rightarrow>
          if list_ex (\<lambda>known. blk_hash known = blk_hash b) (bc_chain (nd_blockchain nd))
          then (fs, nd, Inr ())
          else (case receive_block pf ef fs nd b of
                  (fs, nd, Inl e) \<Rightarrow> (fs, nd, Inl e)
                | (fs, nd, Inr _) \<Rightarrow> (fs, nd, Inr ()))
      | Sync_request \<Rightarrow> (fs, node_network_receive pf ef nd message, Inr ())
      | Chain_chunk_request start_index \<Rightarrow> (fs, answer_chunk_request pf ef nd start_index)
      | Chain_chunk_response start_index total_blocks blocks \<Rightarrow>
          (case accept_chain_chunk pf ef fs nd start_index total_blocks blocks of
             (fs, nd, Inr (Some next_index)) \<Rightarrow>
               (fs, node_broadcast pf ef nd (Chain_chunk_request next_index), Inr ())
           | (fs, nd, Inr None) \<Rightarrow> (fs, nd, Inr ())
           | (fs, nd, Inl e) \<Rightarrow> (fs, nd, if is_panic e then Inl e else Inr ())))"

section \<open>Producing a block\<close>

definition produce_block ::
  "platform \<Rightarrow> effects \<Rightarrow> file_system \<Rightarrow> node \<Rightarrow> u64 \<Rightarrow> wallet \<Rightarrow>
   file_system \<times> node \<times> block result" where
  "produce_block pf ef fs nd timestamp w =
     (case and_then
          (if \<not> is_validator_allowed (nd_consensus nd) (w_address w)
           then Inl (Block_check Validator_not_registered)
           else and_then (last_block (bc_chain (nd_blockchain nd))) (\<lambda>previous.
                and_then (select_validator_from_hash (pf_crypto pf) (nd_consensus nd) (blk_hash previous))
                  (\<lambda>selected.
                and_then (ok_or selected (Block_check Validator_not_selected))
                  (\<lambda>selected_validator.
                     if val_address selected_validator \<noteq> w_address w
                     then Inl (Block_check Selected_validator_different) else Inr ()))))
          (\<lambda>_. create_block_from_mempool (pf_crypto pf) (ef_clock ef 0) (nd_blockchain nd) timestamp w
                 (nd_mempool nd) (nd_state nd)) of
        Inl e \<Rightarrow> (fs, nd, Inl e)
      | Inr (candidate_blockchain, candidate_mempool, candidate_state, block) \<Rightarrow>
          (case node_save pf ef fs nd (bc_chain candidate_blockchain) of
             (fs, Inl (Storage_error e)) \<Rightarrow>
               (fs, nd, Inl (Storage_error (Produced_chain_not_saved e)))
           | (fs, Inl e) \<Rightarrow> (fs, nd, Inl e)
           | (fs, Inr _) \<Rightarrow>
               (fs, nd\<lparr>nd_blockchain := candidate_blockchain, nd_state := candidate_state,
                       nd_mempool := candidate_mempool\<rparr>, Inr block)))"

definition node_select_validator :: "platform \<Rightarrow> node \<Rightarrow> string \<Rightarrow> string option result" where
  "node_select_validator pf nd seed =
     and_then (select_validator_from_hash (pf_crypto pf) (nd_consensus nd) seed)
       (\<lambda>selected. Inr (map_option val_address selected))"

definition node_add_peer :: "node \<Rightarrow> string \<Rightarrow> node \<times> bool" where
  "node_add_peer nd peer =
     (case network_add_peer (nd_network nd) peer of (nw, ok) \<Rightarrow> (nd\<lparr>nd_network := nw\<rparr>, ok))"

definition node_peer_count :: "node \<Rightarrow> nat" where
  "node_peer_count nd = network_peer_count (nd_network nd)"

end
