(* ===== verification/Node_Replay.thy ===== *)
theory Node_Replay
  imports Node
begin

text \<open>
  Replaying a chain from its genesis, the loop of \<open>synchronize_chain\<close>, and what holds of
  its result. The invariant of the node (next theory) is that its blockchain and state are such
  a result; balanced books, a valid chain, the amount of coins and the nonces follow from
  it here by induction over the replay.
\<close>

definition replay_blocks ::
  "crypto \<Rightarrow> (nat \<Rightarrow> u64 option) \<Rightarrow> consensus \<Rightarrow> blockchain \<times> state \<Rightarrow> nat \<Rightarrow> block list \<Rightarrow>
   (blockchain \<times> state) result" where
  "replay_blocks cr clock co start n bs =
     try_fold (replay_block cr clock co) start (List.enumerate n bs)"

lemma replay_blocks_simps [simp]:
  "replay_blocks cr clock co start n [] = Inr start"
  "replay_blocks cr clock co (bc, st) n (b # bs) =
     and_then (validate_and_apply_block cr (clock n) co b bc st)
       (\<lambda>r. replay_blocks cr clock co r (Suc n) bs)"
  by (simp_all add: replay_blocks_def replay_block_def)

lemma replay_blocks_append:
  "replay_blocks cr clock co start n (bs @ cs) =
     and_then (replay_blocks cr clock co start n bs) (\<lambda>r. replay_blocks cr clock co r (n + length bs) cs)"
  by (simp add: replay_blocks_def enumerate_append_eq try_fold_append)

lemma replay_blocks_induct [consumes 1, case_names start step]:
  assumes "replay_blocks cr clock co (bc, st) n bs = Inr (bc', st')"
    and "P bc st"
    and "\<And>bc st b i bc1 st1. P bc st \<Longrightarrow> b \<in> set bs \<Longrightarrow>
      validate_and_apply_block cr (clock i) co b bc st = Inr (bc1, st1) \<Longrightarrow> P bc1 st1"
  shows "P bc' st'"
  using assms
proof (induction bs arbitrary: bc st n)
  case Nil
  then show ?case by simp
next
  case (Cons b bs)
  from Cons.prems(1) obtain bc1 st1 where first: "validate_and_apply_block cr (clock n) co b bc st = Inr (bc1, st1)"
    and rest: "replay_blocks cr clock co (bc1, st1) (Suc n) bs = Inr (bc', st')"
    by (auto simp: result_simps)
  have "P bc1 st1"
    by (rule Cons.prems(3)[OF Cons.prems(2) _ first]) simp
  then show ?case
    by (rule Cons.IH[OF rest]) (auto intro: Cons.prems(3))
qed

text \<open>The clock matters only for the bound on timestamps.\<close>

definition clock_allows :: "(nat \<Rightarrow> u64 option) \<Rightarrow> nat \<Rightarrow> block list \<Rightarrow> bool" where
  "clock_allows clock n bs \<longleftrightarrow>
     (\<forall>i<length bs. validate_future_timestamp (clock (n + i)) (blk_timestamp (bs ! i)) = Inr ())"

lemma clock_allows_simps [simp]:
  "clock_allows clock n []"
  "clock_allows clock n (b # bs) \<longleftrightarrow>
     validate_future_timestamp (clock n) (blk_timestamp b) = Inr () \<and> clock_allows clock (Suc n) bs"
  by (simp_all add: clock_allows_def All_less_Suc2)

lemma clock_allows_snoc:
  "clock_allows clock n (bs @ [b]) \<longleftrightarrow>
     clock_allows clock n bs \<and>
     validate_future_timestamp (clock (n + length bs)) (blk_timestamp b) = Inr ()"
  by (induction bs arbitrary: n) simp_all

text \<open>A clock that allows given blocks: it reads their own timestamps, or the latest time it may.\<close>

definition willing_clock :: "block list \<Rightarrow> nat \<Rightarrow> u64 option" where
  "willing_clock bs i = Some (min (blk_timestamp (bs ! i)) (- 121))"

lemma willing_clock_allows: "clock_allows (willing_clock bs) 0 bs"
proof -
  have "unat (- 121 :: u64) = 18446744073709551495"
    by simp
  then have "unat (min t (- 121 :: u64)) + 120 < 2 ^ 64 \<and> unat t \<le> unat (min t (- 121 :: u64)) + 120"
    for t :: u64
    using unsigned_less[of t, where 'a = nat] by (auto simp: min_def word_le_nat_alt)
  then show ?thesis
    by (simp add: clock_allows_def willing_clock_def validate_future_timestamp_Inr
        MAX_FUTURE_DRIFT_SECONDS_def)
qed

lemma validate_other_clock:
  assumes "validate_and_apply_block cr clock co b bc st = Inr r"
    and "validate_future_timestamp clock' (blk_timestamp b) = Inr ()"
  shows "validate_and_apply_block cr clock' co b bc st = Inr r"
  using assms by (cases r) (simp add: validate_and_apply_block_Inr add_received_block_Inr)

lemma replay_other_clock:
  assumes "replay_blocks cr clock co start n bs = Inr r" and "clock_allows clock' n bs"
  shows "replay_blocks cr clock' co start n bs = Inr r"
  using assms
proof (induction bs arbitrary: start n)
  case Nil
  then show ?case by simp
next
  case (Cons b bs)
  obtain bc st where start: "start = (bc, st)"
    by fastforce
  with Cons.prems(1) obtain r1 where first: "validate_and_apply_block cr (clock n) co b bc st = Inr r1"
    and rest: "replay_blocks cr clock co r1 (Suc n) bs = Inr r"
    by (auto simp: result_simps)
  have "validate_and_apply_block cr (clock' n) co b bc st = Inr r1"
    using validate_other_clock[OF first] Cons.prems(2) by simp
  then show ?case
    using Cons.IH[OF rest] Cons.prems(2) start by simp
qed

lemma replay_allows:
  assumes "replay_blocks cr clock co start n bs = Inr r"
  shows "clock_allows clock n bs"
  using assms
proof (induction bs arbitrary: start n)
  case Nil
  then show ?case by simp
next
  case (Cons b bs)
  obtain bc st where start: "start = (bc, st)"
    by fastforce
  with Cons.prems obtain bc1 st1 where first: "validate_and_apply_block cr (clock n) co b bc st = Inr (bc1, st1)"
    and rest: "replay_blocks cr clock co (bc1, st1) (Suc n) bs = Inr r"
    by (auto simp: result_simps)
  have "validate_future_timestamp (clock n) (blk_timestamp b) = Inr ()"
    using first by (simp add: validate_and_apply_block_Inr add_received_block_Inr)
  with Cons.IH[OF rest] show ?case by simp
qed

section \<open>What a replay keeps\<close>

lemma replay_chain_blocks:
  "replay_blocks cr clock co (bc, st) n bs = Inr (bc', st') \<Longrightarrow> bc_chain bc' = bc_chain bc @ bs"
proof (induction bs arbitrary: bc st n)
  case Nil
  then show ?case by simp
next
  case (Cons b bs)
  then obtain bc1 st1 where first: "validate_and_apply_block cr (clock n) co b bc st = Inr (bc1, st1)"
    and rest: "replay_blocks cr clock co (bc1, st1) (Suc n) bs = Inr (bc', st')"
    by (auto simp: result_simps)
  have "bc_chain bc1 = bc_chain bc @ [b]"
    using first by (auto simp: validate_and_apply_block_Inr)
  with Cons.IH[OF rest] show ?case by simp
qed

lemma replay_books:
  assumes "replay_blocks cr clock co (bc, st) n bs = Inr (bc', st')"
    and "books_balanced st (bc_economy bc)"
  shows "books_balanced st' (bc_economy bc') \<and> settings (bc_economy bc') = settings (bc_economy bc)"
  using assms(1)
proof (induction rule: replay_blocks_induct)
  case start
  with assms(2) show ?case by simp
next
  case (step bc1 st1 b i bc2 st2)
  then show ?case
    using accepted_block_books(1,2)[OF step(3)] by simp
qed

lemma replay_supply:
  assumes "replay_blocks cr clock co (bc, st) n bs = Inr (bc', st')"
    and "books_balanced st (bc_economy bc)"
  shows "unat (ec_total_supply (bc_economy bc')) =
    unat (ec_total_supply (bc_economy bc)) + length bs * unat (ec_block_reward (bc_economy bc))"
  using assms
proof (induction bs arbitrary: bc st n)
  case Nil
  then show ?case by simp
next
  case (Cons b bs)
  then obtain bc1 st1 where first: "validate_and_apply_block cr (clock n) co b bc st = Inr (bc1, st1)"
    and rest: "replay_blocks cr clock co (bc1, st1) (Suc n) bs = Inr (bc', st')"
    by (auto simp: result_simps)
  note books = accepted_block_books[OF first Cons.prems(2)]
  have "ec_block_reward (bc_economy bc1) = ec_block_reward (bc_economy bc)"
    using settings_fields(2)[OF books(2)] .
  then show ?case
    using Cons.IH[OF rest books(1)] books(3) by simp
qed

lemma replay_valid:
  assumes "replay_blocks cr clock co (bc, st) n bs = Inr (bc', st')" and "is_valid cr bc"
  shows "is_valid cr bc'"
  using assms(1)
  by (induction rule: replay_blocks_induct) (simp_all add: assms(2) accepted_block_valid)

lemma sent_by_concat: "sent_by a (concat xss) = sum_list (map (sent_by a) xss)"
  by (induction xss) (simp_all add: sent_by_append, simp add: sent_by_def)

text \<open>A sender's nonce counts its transactions in the chain.\<close>

lemma replay_nonce:
  assumes "replay_blocks cr clock co (bc, st) n bs = Inr (bc', st')"
    and "books_balanced st (bc_economy bc)"
  shows "nonce_of st' a = nonce_of st a + word_of_nat (sent_by a (concat (map blk_transactions bs)))"
  using assms
proof (induction bs arbitrary: bc st n)
  case Nil
  then show ?case by (simp add: sent_by_def)
next
  case (Cons b bs)
  then obtain bc1 st1 where first: "validate_and_apply_block cr (clock n) co b bc st = Inr (bc1, st1)"
    and rest: "replay_blocks cr clock co (bc1, st1) (Suc n) bs = Inr (bc', st')"
    by (auto simp: result_simps)
  have "nonce_of st1 a = nonce_of st a + word_of_nat (sent_by a (blk_transactions b))"
    using accepted_block_nonce[OF first] Cons.prems(2) by (simp add: books_balanced_def)
  then show ?case
    using Cons.IH[OF rest accepted_block_books(1)[OF first Cons.prems(2)]]
    by (simp add: sent_by_append add.assoc)
qed

text \<open>So every transaction carries the number of its sender's transactions before it.\<close>

lemma split_element:
  "T @ R = xs @ t # ys \<longleftrightarrow>
     (\<exists>us. T = xs @ t # us \<and> ys = us @ R) \<or> (\<exists>ws. xs = T @ ws \<and> R = ws @ t # ys)"
  by (auto simp: append_eq_append_conv2 append_eq_Cons_conv)

lemma accepted_block_number:
  assumes "validate_and_apply_block cr clock co b bc st = Inr (bc', st')"
    and "blk_transactions b = xs @ t # us" and "\<not> tx_coinbase t"
  shows "tx_nonce t = nonce_of st (tx_from t) + word_of_nat (sent_by (tx_from t) xs)"
proof -
  obtain txs e' where txs: "blk_transactions b = txs @ [block_coinbase cr b (bc_economy bc)]"
    and result: "block_result cr b (bc_economy bc) st txs = Inr (e', st')"
    using assms(1) by (auto simp: validate_and_apply_block_Inr)
  obtain s1 where replay: "replay apply_transaction st txs = Inr s1"
    by (rule block_result_Inr[OF result])
  obtain vs where vs: "txs = xs @ t # vs"
    using txs assms(2,3) by (cases us rule: rev_cases) auto
  have "tx_sender t = Some (tx_from t)"
    using assms(3) by (simp add: tx_sender_def)
  from bank.replay_number[OF replay[unfolded vs] this] show ?thesis
    by (simp add: sent_by_sender)
qed

lemma chain_nonce_sequence:
  assumes "replay_blocks cr clock co (bc, st) n bs = Inr (bc', st')"
    and "books_balanced st (bc_economy bc)"
    and "concat (map blk_transactions bs) = xs @ t # ys" and "\<not> tx_coinbase t"
  shows "tx_nonce t = nonce_of st (tx_from t) + word_of_nat (sent_by (tx_from t) xs)"
  using assms
proof (induction bs arbitrary: bc st n xs)
  case Nil
  then show ?case by simp
next
  case (Cons b bs)
  then obtain bc1 st1 where first: "validate_and_apply_block cr (clock n) co b bc st = Inr (bc1, st1)"
    and rest: "replay_blocks cr clock co (bc1, st1) (Suc n) bs = Inr (bc', st')"
    by (auto simp: result_simps)
  from Cons.prems(3) consider (here) us where "blk_transactions b = xs @ t # us"
    | (later) ws where "xs = blk_transactions b @ ws" "concat (map blk_transactions bs) = ws @ t # ys"
    by (auto simp: split_element)
  then show ?case
  proof cases
    case here
    then show ?thesis
      using accepted_block_number[OF first _ Cons.prems(4)] by simp
  next
    case later
    have "nonce_of st1 (tx_from t) =
        nonce_of st (tx_from t) + word_of_nat (sent_by (tx_from t) (blk_transactions b))"
      using accepted_block_nonce[OF first] Cons.prems(2) by (simp add: books_balanced_def)
    then show ?thesis
      using Cons.IH[OF rest accepted_block_books(1)[OF first Cons.prems(2)] later(2) Cons.prems(4)]
      by (simp add: later(1) sent_by_append add.assoc)
  qed
qed

lemma replay_no_double_spend:
  assumes replay: "replay_blocks cr clock co (bc, st) n bs = Inr (bc', st')"
    and books: "books_balanced st (bc_economy bc)"
    and split: "concat (map blk_transactions bs) = xs @ t # ys @ u # zs"
    and ordinary: "\<not> tx_coinbase t" "\<not> tx_coinbase u" and same: "tx_from t = tx_from u"
    and short: "length ys < 2 ^ 64 - 1"
  shows "tx_nonce t \<noteq> tx_nonce u"
proof
  assume eq: "tx_nonce t = tx_nonce u"
  let ?n = "sent_by (tx_from u)"
  have "concat (map blk_transactions bs) = (xs @ t # ys) @ u # zs"
    using split by simp
  from chain_nonce_sequence[OF replay books this ordinary(2)] chain_nonce_sequence[OF replay books split ordinary(1)] eq same
  have "(word_of_nat (?n xs) :: u64) = word_of_nat (?n (xs @ t # ys))"
    by simp
  moreover have "?n (xs @ t # ys) = ?n xs + Suc (?n ys)"
    using ordinary(1) same by (simp add: sent_by_def)
  ultimately have "(word_of_nat (Suc (?n ys)) :: u64) = 0"
    by (metis add_cancel_right_right of_nat_add)
  moreover have "?n ys \<le> length ys"
    by (simp add: sent_by_def)
  then have "Suc (?n ys) < 2 ^ 64"
    using short by linarith
  ultimately show False
    using word_of_nat64_inject[of "Suc (?n ys)" 0] by simp
qed

end
