(* ===== verification/Node_Invariant.thy ===== *)
theory Node_Invariant
  imports Node_Replay
begin

text \<open>
  The invariant of the node and its preservation by every handler: the blockchain and the state
  are the replay of the chain from the state of the genesis, under any clock that allows its
  timestamps; the pool and the registry of peers keep their own invariants. Handlers that fail
  leave blockchain and state alone, and what is on disk is never behind what is in memory.
\<close>

definition genesis_start :: "node \<Rightarrow> block \<Rightarrow> blockchain \<times> state" where
  "genesis_start nd genesis =
     ((blockchain_new genesis)\<lparr>bc_economy := nd_genesis_economy nd\<rparr>, nd_genesis_state nd)"

lemma genesis_start_sel [simp]:
  "bc_chain (fst (genesis_start nd g)) = [g]"
  "bc_economy (fst (genesis_start nd g)) = nd_genesis_economy nd"
  "snd (genesis_start nd g) = nd_genesis_state nd"
  by (simp_all add: genesis_start_def blockchain_new_def)

lemma replay_chain_eq:
  "replay_chain cr clock nd chain =
     replay_blocks cr clock (nd_consensus nd) (genesis_start nd (hd chain)) 0 (tl chain)"
  by (simp add: replay_chain_def replay_blocks_def genesis_start_def)

text \<open>The result of replaying a chain, for every clock that allows it.\<close>

definition rebuilds :: "crypto \<Rightarrow> node \<Rightarrow> block list \<Rightarrow> blockchain \<times> state \<Rightarrow> bool" where
  "rebuilds cr nd chain r \<longleftrightarrow>
     chain \<noteq> [] \<and>
     (\<forall>clock. clock_allows clock 0 (tl chain) \<longrightarrow> replay_chain cr clock nd chain = Inr r)"

definition node_wf :: "crypto \<Rightarrow> node \<Rightarrow> bool" where
  "node_wf cr nd \<longleftrightarrow>
     books_balanced (nd_genesis_state nd) (nd_genesis_economy nd) \<and>
     ec_block_reward (nd_genesis_economy nd) \<noteq> 0 \<and>
     rebuilds cr nd (bc_chain (nd_blockchain nd)) (nd_blockchain nd, nd_state nd) \<and>
     mempool_wf cr (nd_mempool nd) \<and> network_wf (nd_network nd)"

lemma rebuilds_upd [simp]:
  "rebuilds cr (nd\<lparr>nd_blockchain := bc\<rparr>) = rebuilds cr nd"
  "rebuilds cr (nd\<lparr>nd_state := st\<rparr>) = rebuilds cr nd"
  "rebuilds cr (nd\<lparr>nd_mempool := mp\<rparr>) = rebuilds cr nd"
  "rebuilds cr (nd\<lparr>nd_network := nw\<rparr>) = rebuilds cr nd"
  "rebuilds cr (nd\<lparr>nd_sync_buffer := buffer\<rparr>) = rebuilds cr nd"
  "rebuilds cr (nd\<lparr>nd_sync_expected_total := expected\<rparr>) = rebuilds cr nd"
  by (simp_all add: rebuilds_def replay_chain_def fun_eq_iff)

lemma rebuilds_chain:
  assumes "rebuilds cr nd chain (bc, st)"
  shows "bc_chain bc = chain"
proof -
  obtain bc0 st0 where start: "genesis_start nd (hd chain) = (bc0, st0)"
    by fastforce
  then have "bc_chain bc0 = [hd chain]"
    using genesis_start_sel(1)[of nd "hd chain"] by simp
  moreover have "replay_chain cr (willing_clock (tl chain)) nd chain = Inr (bc, st)" and "chain \<noteq> []"
    using assms willing_clock_allows by (auto simp: rebuilds_def)
  ultimately show ?thesis
    using replay_chain_blocks[of cr _ _ bc0 st0 0 "tl chain" bc st]
    by (simp add: replay_chain_eq start)
qed

lemma rebuilds_replay:
  assumes "replay_chain cr clock nd chain = Inr r" and "chain \<noteq> []"
  shows "rebuilds cr nd chain r"
  using assms by (auto simp: rebuilds_def replay_chain_eq intro: replay_other_clock)

text \<open>What follows for a rebuilt chain.\<close>

lemma rebuilds_facts:
  assumes "rebuilds cr nd chain (bc, st)"
    and "books_balanced (nd_genesis_state nd) (nd_genesis_economy nd)"
  shows "books_balanced st (bc_economy bc)" and "settings (bc_economy bc) = settings (nd_genesis_economy nd)"
    and "unat (ec_total_supply (bc_economy bc)) = unat (ec_total_supply (nd_genesis_economy nd)) +
      (length chain - 1) * unat (ec_block_reward (nd_genesis_economy nd))"
    and "nonce_of st a = nonce_of (nd_genesis_state nd) a +
      word_of_nat (sent_by a (concat (map blk_transactions (tl chain))))"
proof -
  obtain bc0 st0 where start: "genesis_start nd (hd chain) = (bc0, st0)"
    by fastforce
  then have sel: "bc_economy bc0 = nd_genesis_economy nd" "st0 = nd_genesis_state nd"
    by (auto simp: genesis_start_def)
  have replay: "replay_blocks cr (willing_clock (tl chain)) (nd_consensus nd) (bc0, st0) 0 (tl chain) =
      Inr (bc, st)"
    using assms(1) willing_clock_allows by (simp add: rebuilds_def replay_chain_eq flip: start)
  show "books_balanced st (bc_economy bc)" "settings (bc_economy bc) = settings (nd_genesis_economy nd)"
    using replay_books[OF replay] assms(2) sel by simp_all
  show "unat (ec_total_supply (bc_economy bc)) = unat (ec_total_supply (nd_genesis_economy nd)) +
      (length chain - 1) * unat (ec_block_reward (nd_genesis_economy nd))"
    using replay_supply[OF replay] assms(2) sel by simp
  show "nonce_of st a = nonce_of (nd_genesis_state nd) a +
      word_of_nat (sent_by a (concat (map blk_transactions (tl chain))))"
    using replay_nonce[OF replay] assms(2) sel by simp
qed

lemma node_wf_chain: "node_wf cr nd \<Longrightarrow> bc_chain (nd_blockchain nd) \<noteq> []"
  by (simp add: node_wf_def rebuilds_def)

lemma node_wf_books:
  assumes "node_wf cr nd"
  shows "books_balanced (nd_state nd) (bc_economy (nd_blockchain nd))"
  using assms rebuilds_facts(1) by (auto simp: node_wf_def)

text \<open>Appending an accepted block keeps a rebuilt chain rebuilt.\<close>

lemma rebuilds_snoc:
  assumes "rebuilds cr nd (bc_chain bc) (bc, st)"
    and "validate_and_apply_block cr clock (nd_consensus nd) b bc st = Inr (bc', st')"
  shows "rebuilds cr nd (bc_chain bc') (bc', st')"
proof -
  have chain: "bc_chain bc' = bc_chain bc @ [b]" and ne: "bc_chain bc \<noteq> []"
    using assms by (auto simp: validate_and_apply_block_Inr rebuilds_def)
  have "replay_chain cr clock' nd (bc_chain bc @ [b]) = Inr (bc', st')"
    if "clock_allows clock' 0 (tl (bc_chain bc @ [b]))" for clock'
  proof -
    have allows: "clock_allows clock' 0 (tl (bc_chain bc))"
      "validate_future_timestamp (clock' (length (tl (bc_chain bc)))) (blk_timestamp b) = Inr ()"
      using that ne by (simp_all add: clock_allows_snoc)
    have "replay_chain cr clock' nd (bc_chain bc) = Inr (bc, st)"
      using assms(1) allows(1) by (simp add: rebuilds_def)
    then show ?thesis
      using validate_other_clock[OF assms(2) allows(2)] ne
      by (simp add: replay_chain_eq replay_blocks_append)
  qed
  then show ?thesis
    using ne by (simp add: rebuilds_def chain)
qed

section \<open>Every handler keeps the invariant\<close>

lemma node_wf_commit:
  assumes "node_wf cr nd" and "rebuilds cr nd (bc_chain bc) (bc, st)" and "mempool_wf cr mp"
  shows "node_wf cr (nd\<lparr>nd_blockchain := bc, nd_state := st, nd_mempool := mp\<rparr>)"
  using assms by (simp add: node_wf_def)

lemma node_wf_other [simp]:
  "node_wf cr (nd\<lparr>nd_sync_buffer := buffer\<rparr>) = node_wf cr nd"
  "node_wf cr (nd\<lparr>nd_sync_expected_total := expected\<rparr>) = node_wf cr nd"
  by (simp_all add: node_wf_def)

lemma node_wf_network:
  "node_wf cr nd \<Longrightarrow> network_wf nw \<Longrightarrow> node_wf cr (nd\<lparr>nd_network := nw\<rparr>)"
  by (simp add: node_wf_def)

lemma node_wf_mempool:
  "node_wf cr nd \<Longrightarrow> mempool_wf cr mp \<Longrightarrow> node_wf cr (nd\<lparr>nd_mempool := mp\<rparr>)"
  by (simp add: node_wf_def)

lemma node_broadcast_wf: "node_wf cr nd \<Longrightarrow> node_wf cr (node_broadcast pf ef nd m)"
  unfolding node_broadcast_def
  by (rule node_wf_network) (simp_all add: broadcast_wf node_wf_def)

lemma node_network_receive_wf: "node_wf cr nd \<Longrightarrow> node_wf cr (node_network_receive pf ef nd m)"
  unfolding node_network_receive_def
  by (rule node_wf_network) (simp_all add: network_receive_wf node_wf_def)

lemma insert_transaction_wf:
  assumes "node_wf (pf_crypto pf) nd"
  shows "node_wf (pf_crypto pf) (fst (insert_transaction_into_mempool pf nd tx))"
proof -
  have "mempool_wf (pf_crypto pf) (nd_mempool nd)"
    using assms by (simp add: node_wf_def)
  then show ?thesis
    using assms by (auto simp: insert_transaction_into_mempool_def
        intro!: node_wf_mempool dest: mempool_add_wf split: sum.splits prod.splits)
qed

lemma filter_mempool_wf:
  "mempool_wf cr mp \<Longrightarrow> mempool_wf cr (mp\<lparr>mp_transactions := filter P (mp_transactions mp)\<rparr>)"
  by (erule mempool_wf_subset) simp

lemma receive_block_wf:
  assumes wf: "node_wf (pf_crypto pf) nd"
  shows "node_wf (pf_crypto pf) (fst (snd (receive_block pf ef fs nd b)))"
proof -
  have "mempool_wf (pf_crypto pf) (remove_confirmed_transactions (nd_mempool nd) b)"
    using wf unfolding remove_confirmed_transactions_def
    by (intro filter_mempool_wf) (simp add: node_wf_def)
  moreover have "rebuilds (pf_crypto pf) nd (bc_chain bc') (bc', st')"
    if "validate_and_apply_block (pf_crypto pf) (ef_clock ef 0) (nd_consensus nd) b
      (nd_blockchain nd) (nd_state nd) = Inr (bc', st')" for bc' st'
    using rebuilds_snoc[OF _ that] wf by (simp add: node_wf_def)
  ultimately show ?thesis
    using wf by (auto simp: receive_block_def intro!: node_wf_commit split: sum.splits prod.splits)
qed

lemma apply_block_to_sync_candidate_wf:
  assumes wf: "node_wf (pf_crypto pf) nd"
  shows "node_wf (pf_crypto pf) (fst (apply_block_to_sync_candidate pf ef nd b))"
proof -
  have "mempool_wf (pf_crypto pf) (remove_confirmed_transactions (nd_mempool nd) b)"
    using wf unfolding remove_confirmed_transactions_def
    by (intro filter_mempool_wf) (simp add: node_wf_def)
  moreover have "rebuilds (pf_crypto pf) nd (bc_chain bc') (bc', st')"
    if "validate_and_apply_block (pf_crypto pf) (ef_clock ef 0) (nd_consensus nd) b
      (nd_blockchain nd) (nd_state nd) = Inr (bc', st')" for bc' st'
    using rebuilds_snoc[OF _ that] wf by (simp add: node_wf_def)
  ultimately show ?thesis
    using wf by (auto simp: apply_block_to_sync_candidate_def intro!: node_wf_commit
        split: sum.splits prod.splits)
qed

lemma synchronize_chain_wf:
  assumes wf: "node_wf (pf_crypto pf) nd"
  shows "node_wf (pf_crypto pf) (fst (snd (synchronize_chain pf ef fs nd chain)))"
proof -
  have "rebuilds (pf_crypto pf) nd (bc_chain bc') (bc', st')"
    if "replay_chain (pf_crypto pf) (ef_clock ef) nd chain = Inr (bc', st')" "chain \<noteq> []" for bc' st'
    using rebuilds_replay[OF that] rebuilds_chain[OF rebuilds_replay[OF that]] by simp
  then show ?thesis
    using wf by (auto simp: synchronize_chain_def result_simps intro!: node_wf_commit
        split: sum.splits prod.splits error.splits)
qed

lemma accept_chain_chunk_wf:
  assumes wf: "node_wf (pf_crypto pf) nd"
  shows "node_wf (pf_crypto pf) (fst (snd (accept_chain_chunk pf ef fs nd start total_blocks blocks)))"
proof -
  have sync: "node_wf (pf_crypto pf) nd'"
    if "node_wf (pf_crypto pf) nd1" "synchronize_chain pf ef fs nd1 chain = (fs', nd', r)"
    for nd1 chain fs' nd' r
    using synchronize_chain_wf[OF that(1), of ef fs chain] that(2) by simp
  show ?thesis
    using wf by (auto simp: accept_chain_chunk_def open_chunk_def Let_def
        elim!: sync[rotated] split: sum.splits prod.splits if_splits)
qed

lemma retain_unconfirmed_wf: "mempool_wf cr mp \<Longrightarrow> mempool_wf cr (retain_unconfirmed mp ids)"
  unfolding retain_unconfirmed_def by (rule filter_mempool_wf)

text \<open>
  Producing a block. The number of blocks stays below \<open>2 ^ 64\<close> because each of them mints a
  reward and the supply is a 64-bit number.
\<close>

lemma node_chain_length:
  assumes wf: "node_wf cr nd"
    and create: "create_block_from_mempool cr clock (nd_blockchain nd) t w (nd_mempool nd) (nd_state nd) =
      Inr (bc', mp', st', b)"
  shows "length (bc_chain (nd_blockchain nd)) < 2 ^ 64"
proof -
  let ?n = "length (bc_chain (nd_blockchain nd))" and ?r = "unat (ec_block_reward (nd_genesis_economy nd))"
  have rebuilt: "rebuilds cr nd (bc_chain (nd_blockchain nd)) (nd_blockchain nd, nd_state nd)"
    and genesis: "books_balanced (nd_genesis_state nd) (nd_genesis_economy nd)"
    and mp: "mempool_wf cr (nd_mempool nd)" and reward: "?r \<noteq> 0"
    using wf by (simp_all add: node_wf_def unat_eq_zero)
  note facts = rebuilds_facts[OF rebuilt genesis]
  have "unat (ec_total_supply (bc_economy bc')) =
      unat (ec_total_supply (nd_genesis_economy nd)) + (?n - 1) * ?r + ?r"
    using create_block_books(3)[OF create node_wf_books[OF wf] mp] facts(3)
      settings_fields(2)[OF facts(2)] by simp
  moreover have "unat (ec_total_supply (bc_economy bc')) < 2 ^ 64"
    by (rule order_less_le_trans[OF unsigned_less]) simp
  moreover have "?n \<le> (?n - 1) * ?r + ?r"
  proof -
    have "?n - 1 \<le> (?n - 1) * ?r" "1 \<le> ?r"
      using reward by simp_all
    then show ?thesis by linarith
  qed
  ultimately show ?thesis by linarith
qed

lemma produce_block_accepted:
  assumes cr: "crypto_spec (pf_crypto pf)" and w: "wallet_wf (pf_crypto pf) w"
    and wf: "node_wf (pf_crypto pf) nd"
    and produced: "produce_block pf ef fs nd t w = (fs', nd', Inr b)"
  shows "validate_and_apply_block (pf_crypto pf) (ef_clock ef 0) (nd_consensus nd) b
      (nd_blockchain nd) (nd_state nd) = Inr (nd_blockchain nd', nd_state nd')"
    and "node_wf (pf_crypto pf) nd'"
proof -
  obtain v bc' mp' st' where
    allowed: "is_validator_allowed (nd_consensus nd) (w_address w)"
    and selected: "select_validator_from_hash (pf_crypto pf) (nd_consensus nd)
      (blk_hash (last (bc_chain (nd_blockchain nd)))) = Inr (Some v)" "val_address v = w_address w"
    and create: "create_block_from_mempool (pf_crypto pf) (ef_clock ef 0) (nd_blockchain nd) t w
      (nd_mempool nd) (nd_state nd) = Inr (bc', mp', st', b)"
    and nd': "nd' = nd\<lparr>nd_blockchain := bc', nd_state := st', nd_mempool := mp'\<rparr>"
    using produced by (auto simp: produce_block_def last_block_def result_simps
        split: sum.splits prod.splits error.splits if_splits)
  have mp: "mempool_wf (pf_crypto pf) (nd_mempool nd)"
    using wf by (simp add: node_wf_def)
  have valid: "validate_and_apply_block (pf_crypto pf) (ef_clock ef 0) (nd_consensus nd) b
      (nd_blockchain nd) (nd_state nd) = Inr (bc', st')"
    by (rule produced_block_accepted[OF cr w create node_wf_books[OF wf] mp node_chain_length[OF wf create]
          selected allowed])
  then show "validate_and_apply_block (pf_crypto pf) (ef_clock ef 0) (nd_consensus nd) b
      (nd_blockchain nd) (nd_state nd) = Inr (nd_blockchain nd', nd_state nd')"
    by (simp add: nd')
  have "mempool_wf (pf_crypto pf) mp'"
    by (rule create_block_Inr[OF create]) (simp add: retain_unconfirmed_wf mp)
  moreover have "rebuilds (pf_crypto pf) nd (bc_chain bc') (bc', st')"
    using rebuilds_snoc[OF _ valid] wf by (simp add: node_wf_def)
  ultimately show "node_wf (pf_crypto pf) nd'"
    unfolding nd' by (intro node_wf_commit wf)
qed

lemma produce_block_wf:
  assumes "crypto_spec (pf_crypto pf)" and "wallet_wf (pf_crypto pf) w" and "node_wf (pf_crypto pf) nd"
  shows "node_wf (pf_crypto pf) (fst (snd (produce_block pf ef fs nd t w)))"
proof (cases "produce_block pf ef fs nd t w")
  case (fields fs' nd' r)
  show ?thesis
  proof (cases r)
    case (Inl e)
    then have "nd' = nd"
      using fields by (auto simp: produce_block_def split: sum.splits prod.splits error.splits)
    then show ?thesis
      using assms(3) fields by simp
  next
    case (Inr b)
    then show ?thesis
      using produce_block_accepted(2)[OF assms] fields by simp
  qed
qed

lemma receive_message_wf:
  assumes "node_wf (pf_crypto pf) nd"
  shows "node_wf (pf_crypto pf) (fst (snd (receive_message pf ef fs nd m)))"
proof -
  have chunk: "node_wf (pf_crypto pf) nd'"
    if "accept_chain_chunk pf ef fs nd s t bs = (fs', nd', r)" for s t bs fs' nd' r
    using accept_chain_chunk_wf[OF assms, of ef fs s t bs] that by simp
  have block: "node_wf (pf_crypto pf) nd'" if "receive_block pf ef fs nd b = (fs', nd', r)" for b fs' nd' r
    using receive_block_wf[OF assms, of ef fs b] that by simp
  show ?thesis
    using assms
    by (cases m) (auto simp: receive_message_def answer_chunk_request_def Let_def
        intro: node_network_receive_wf node_broadcast_wf insert_transaction_wf chunk block
        split: sum.splits prod.splits option.splits)
qed

end
