(* ===== verification/Node_Steps.thy ===== *)
theory Node_Steps
  imports Node_Invariant
begin

text \<open>
  The node over time: candidates of a synchronization, what reaches the disk, handlers that fail,
  transfers in chunks, restarts, and the step relation whose reachable states satisfy
  the invariant.
\<close>

section \<open>Candidates of a synchronization\<close>

definition candidate_of :: "crypto \<Rightarrow> node \<Rightarrow> node \<Rightarrow> bool" where
  "candidate_of cr nd candidate \<longleftrightarrow>
     nd_consensus candidate = nd_consensus nd \<and>
     rebuilds cr nd (bc_chain (nd_blockchain candidate)) (nd_blockchain candidate, nd_state candidate)"

lemma snapshot_candidate: "node_wf cr nd \<Longrightarrow> candidate_of cr nd (sync_candidate_snapshot nd)"
  by (simp add: candidate_of_def sync_candidate_snapshot_def node_new_with_data_directory_def node_wf_def)

lemma apply_block_candidate:
  assumes "candidate_of (pf_crypto pf) nd candidate"
  shows "candidate_of (pf_crypto pf) nd (fst (apply_block_to_sync_candidate pf ef candidate b))"
proof -
  have "rebuilds (pf_crypto pf) nd (bc_chain bc') (bc', st')"
    if "validate_and_apply_block (pf_crypto pf) (ef_clock ef 0) (nd_consensus candidate) b
      (nd_blockchain candidate) (nd_state candidate) = Inr (bc', st')" for bc' st'
    using rebuilds_snoc[of "pf_crypto pf" nd "nd_blockchain candidate" "nd_state candidate"] assms that
    by (simp add: candidate_of_def)
  then show ?thesis
    using assms by (auto simp: apply_block_to_sync_candidate_def candidate_of_def
        split: sum.splits prod.splits)
qed

lemma adopt_candidate_wf:
  assumes wf: "node_wf (pf_crypto pf) nd" and candidate: "candidate_of (pf_crypto pf) nd candidate"
  shows "node_wf (pf_crypto pf)
    (fst (snd (adopt_validated_sync_candidate pf ef fs nd (nd_blockchain candidate) (nd_state candidate))))"
  using wf candidate
  by (auto simp: adopt_validated_sync_candidate_def candidate_of_def Let_def intro!: node_wf_commit
      split: sum.splits prod.splits error.splits)

section \<open>Memory and disk\<close>

text \<open>
  A handler either leaves the blockchain in memory and the stored chain alone or it has stored
  the blockchain it commits.
\<close>

definition disk_follows :: "platform \<Rightarrow> file_system \<Rightarrow> node \<Rightarrow> file_system \<Rightarrow> node \<Rightarrow> bool" where
  "disk_follows pf fs nd fs' nd' \<longleftrightarrow>
     nd_storage_directory nd' = nd_storage_directory nd \<and>
     (let stored = stored_chain (nd_storage_directory nd) (pf_json pf) in
      stored fs' = stored fs \<and> nd_blockchain nd' = nd_blockchain nd \<and> nd_state nd' = nd_state nd \<or>
      stored fs' = Inr (Some (bc_chain (nd_blockchain nd'))))"

lemma disk_follows_same:
  "\<lbrakk>nd_storage_directory nd' = nd_storage_directory nd; nd_blockchain nd' = nd_blockchain nd;
    nd_state nd' = nd_state nd\<rbrakk> \<Longrightarrow> disk_follows pf fs nd fs nd'"
  by (simp add: disk_follows_def Let_def)

lemma disk_follows_failed_save:
  assumes "node_save pf ef fs nd chain = (fs', Inl e)"
  shows "disk_follows pf fs nd fs' nd"
  using store.save_error[of "(nd_storage_directory nd, pf_json pf)"] assms
  by (simp add: disk_follows_def Let_def)

lemma disk_follows_commit:
  assumes "json_spec (pf_json pf)" and "node_save pf ef fs nd (bc_chain bc) = (fs', Inr ())"
  shows "disk_follows pf fs nd fs' (nd\<lparr>nd_blockchain := bc, nd_state := st, nd_mempool := mp\<rparr>)"
  using store.save_ok[of "(nd_storage_directory nd, pf_json pf)"] assms
  by (simp add: disk_follows_def Let_def)

lemmas disk_rules = disk_follows_same disk_follows_failed_save disk_follows_commit

lemma receive_block_disk:
  assumes "json_spec (pf_json pf)" and "receive_block pf ef fs nd b = (fs', nd', r)"
  shows "disk_follows pf fs nd fs' nd'"
  using assms by (auto simp: receive_block_def intro: disk_rules split: sum.splits prod.splits)

lemma synchronize_chain_disk:
  assumes "json_spec (pf_json pf)" and "synchronize_chain pf ef fs nd chain = (fs', nd', r)"
  shows "disk_follows pf fs nd fs' nd'"
  using assms
  by (auto simp: synchronize_chain_def intro: disk_rules
      split: if_splits sum.splits prod.splits error.splits)

lemma produce_block_disk:
  assumes "json_spec (pf_json pf)" and "produce_block pf ef fs nd t w = (fs', nd', r)"
  shows "disk_follows pf fs nd fs' nd'"
  using assms
  by (auto simp: produce_block_def intro: disk_rules split: sum.splits prod.splits error.splits)

lemma adopt_candidate_disk:
  assumes "json_spec (pf_json pf)"
    and "adopt_validated_sync_candidate pf ef fs nd bc st = (fs', nd', r)"
  shows "disk_follows pf fs nd fs' nd'"
  using assms
  by (auto simp: adopt_validated_sync_candidate_def Let_def intro: disk_rules
      split: if_splits sum.splits prod.splits error.splits)

lemma disk_follows_buffers:
  "disk_follows pf fs (nd\<lparr>nd_sync_buffer := x, nd_sync_expected_total := y\<rparr>) fs' nd' = disk_follows pf fs nd fs' nd'"
  "disk_follows pf fs (nd\<lparr>nd_sync_buffer := x\<rparr>) fs' nd' = disk_follows pf fs nd fs' nd'"
  by (simp_all add: disk_follows_def Let_def)

lemma accept_chain_chunk_disk:
  assumes "json_spec (pf_json pf)"
    and "accept_chain_chunk pf ef fs nd start_index total_blocks blocks = (fs', nd', r)"
  shows "disk_follows pf fs nd fs' nd'"
proof -
  have sync: "disk_follows pf fs nd fs1 nd1"
    if "synchronize_chain pf ef fs (nd\<lparr>nd_sync_buffer := x, nd_sync_expected_total := y\<rparr>) chain =
      (fs1, nd1, r1)" for x y chain fs1 nd1 r1
    using synchronize_chain_disk[OF assms(1) that] by (simp add: disk_follows_buffers)
  show ?thesis
    using assms(2)
    by (auto simp: accept_chain_chunk_def open_chunk_def Let_def intro: disk_follows_same dest: sync
        split: if_splits sum.splits prod.splits)
qed

lemma disk_follows_network:
  "disk_follows pf fs nd fs' (node_broadcast pf ef nd' m) = disk_follows pf fs nd fs' nd'"
  "disk_follows pf fs nd fs' (node_network_receive pf ef nd' m) = disk_follows pf fs nd fs' nd'"
  by (simp_all add: disk_follows_def node_broadcast_def node_network_receive_def)

lemma disk_follows_insert:
  "disk_follows pf fs nd fs (fst (insert_transaction_into_mempool pf nd tx))"
  by (rule disk_follows_same)
    (auto simp: insert_transaction_into_mempool_def split: sum.splits prod.splits)

lemma receive_message_disk:
  assumes "json_spec (pf_json pf)" and "receive_message pf ef fs nd m = (fs', nd', r)"
  shows "disk_follows pf fs nd fs' nd'"
  using assms
  by (cases m) (auto simp: receive_message_def answer_chunk_request_def Let_def disk_follows_network
      intro: disk_follows_same disk_follows_insert
      dest: receive_block_disk accept_chain_chunk_disk
      split: if_splits sum.splits prod.splits option.splits)

section \<open>Failures and growth\<close>

definition node_frame :: "node \<Rightarrow> node \<Rightarrow> bool" where
  "node_frame nd nd' \<longleftrightarrow>
     nd_consensus nd' = nd_consensus nd \<and> nd_genesis_state nd' = nd_genesis_state nd \<and>
     nd_genesis_economy nd' = nd_genesis_economy nd \<and>
     length (bc_chain (nd_blockchain nd)) \<le> length (bc_chain (nd_blockchain nd'))"

lemma node_frame_refl [simp]: "node_frame nd nd"
  by (simp add: node_frame_def)

lemma node_frame_trans: "node_frame a b \<Longrightarrow> node_frame b c \<Longrightarrow> node_frame a c"
  by (simp add: node_frame_def)

lemma synchronize_chain_error:
  "synchronize_chain pf ef fs nd chain = (fs', nd', Inl e) \<Longrightarrow> nd' = nd"
  by (auto simp: synchronize_chain_def split: if_splits sum.splits prod.splits error.splits)

text \<open>A successful synchronization: the local chain was the same one, or shorter and now replaced.\<close>

lemma synchronize_chain_ok:
  assumes "synchronize_chain pf ef fs nd chain = (fs', nd', Inr u)"
  shows "(length chain = length (bc_chain (nd_blockchain nd)) \<and> nd' = nd \<and>
      compare_equal_chain pf nd chain = Inr ()) \<or>
    (length (bc_chain (nd_blockchain nd)) < length chain \<and>
      (\<exists>bc st. check_incoming_genesis pf nd chain = Inr (hd chain) \<and>
        replay_chain (pf_crypto pf) (ef_clock ef) nd chain = Inr (bc, st) \<and> bc_chain bc = chain \<and>
        nd' = nd\<lparr>nd_blockchain := bc, nd_state := st, nd_mempool := mempool_new\<rparr>))"
proof -
  have chain: "bc_chain bc = chain"
    if "replay_chain (pf_crypto pf) (ef_clock ef) nd chain = Inr (bc, st)" "chain \<noteq> []" for bc st
    using rebuilds_chain[OF rebuilds_replay[OF that]] .
  have genesis: "g = hd chain" if "check_incoming_genesis pf nd chain = Inr g" for g
    using that by (auto simp: check_incoming_genesis_def Let_def result_simps)
  show ?thesis
    using assms chain genesis
    by (auto simp: synchronize_chain_def result_simps split: if_splits sum.splits prod.splits error.splits)
qed

lemma synchronize_chain_frame:
  "synchronize_chain pf ef fs nd chain = (fs', nd', r) \<Longrightarrow> node_frame nd nd'"
  using synchronize_chain_ok[of pf ef fs nd chain fs' nd'] synchronize_chain_error[of pf ef fs nd chain fs' nd']
  by (cases r) (auto simp: node_frame_def)

lemma receive_block_cases:
  assumes "receive_block pf ef fs nd b = (fs', nd', r)"
  obtains (accepted) bc st where "r = Inr True"
      "validate_and_apply_block (pf_crypto pf) (ef_clock ef 0) (nd_consensus nd) b
        (nd_blockchain nd) (nd_state nd) = Inr (bc, st)"
      "nd' = nd\<lparr>nd_blockchain := bc, nd_state := st,
        nd_mempool := remove_confirmed_transactions (nd_mempool nd) b\<rparr>"
  | (refused) "r \<noteq> Inr True" "nd' = nd"
  using assms by (auto simp: receive_block_def split: sum.splits prod.splits)

lemma receive_block_frame: "receive_block pf ef fs nd b = (fs', nd', r) \<Longrightarrow> node_frame nd nd'"
  by (erule receive_block_cases) (auto simp: node_frame_def validate_and_apply_block_Inr)

lemma produce_block_error: "produce_block pf ef fs nd t w = (fs', nd', Inl e) \<Longrightarrow> nd' = nd"
  by (auto simp: produce_block_def split: sum.splits prod.splits error.splits)

lemma produce_block_frame:
  assumes "produce_block pf ef fs nd t w = (fs', nd', r)"
  shows "node_frame nd nd'"
proof (cases r)
  case (Inl e)
  show ?thesis
    using produce_block_error[OF assms[unfolded Inl]] by simp
next
  case (Inr b)
  then show ?thesis
    using assms by (auto simp: produce_block_def node_frame_def result_simps
        elim!: create_block_Inr split: sum.splits prod.splits error.splits if_splits)
qed

lemma accept_chain_chunk_frame:
  assumes "accept_chain_chunk pf ef fs nd start_index total_blocks blocks = (fs', nd', r)"
  shows "node_frame nd nd'"
proof -
  have sync: "node_frame nd nd1"
    if "synchronize_chain pf ef fs (nd\<lparr>nd_sync_buffer := x, nd_sync_expected_total := y\<rparr>) chain =
      (fs1, nd1, r1)" for x y chain fs1 nd1 r1
    using synchronize_chain_frame[OF that] by (simp add: node_frame_def)
  show ?thesis
    using assms by (auto simp: accept_chain_chunk_def open_chunk_def Let_def node_frame_def
        dest: sync[unfolded node_frame_def] split: if_splits sum.splits prod.splits)
qed

lemma insert_transaction_frame: "node_frame nd (fst (insert_transaction_into_mempool pf nd tx))"
  by (auto simp: insert_transaction_into_mempool_def node_frame_def split: sum.splits prod.splits)

lemma node_frame_network:
  "node_frame nd (node_broadcast pf ef nd' m) = node_frame nd nd'"
  "node_frame nd (node_network_receive pf ef nd' m) = node_frame nd nd'"
  by (simp_all add: node_frame_def node_broadcast_def node_network_receive_def)

lemma receive_message_frame:
  "receive_message pf ef fs nd m = (fs', nd', r) \<Longrightarrow> node_frame nd nd'"
  by (cases m) (auto simp: receive_message_def answer_chunk_request_def Let_def node_frame_network
      insert_transaction_frame dest: receive_block_frame accept_chain_chunk_frame
      split: if_splits sum.splits prod.splits option.splits)

section \<open>Steps and reachable states\<close>

text \<open>One call of a handler, with any answers of the operating system.\<close>

inductive node_step :: "platform \<Rightarrow> file_system \<times> node \<Rightarrow> file_system \<times> node \<Rightarrow> bool"
  for pf :: platform where
  step_message: "receive_message pf ef fs nd m = (fs', nd', r) \<Longrightarrow> node_step pf (fs, nd) (fs', nd')"
| step_submit: "node_add_transaction pf ef nd tx = (nd', r) \<Longrightarrow> node_step pf (fs, nd) (fs, nd')"
| step_relay: "receive_transaction_with_result pf nd tx = (nd', q) \<Longrightarrow> node_step pf (fs, nd) (fs, nd')"
| step_block: "receive_block pf ef fs nd b = (fs', nd', p) \<Longrightarrow> node_step pf (fs, nd) (fs', nd')"
| step_produce: "\<lbrakk>wallet_wf (pf_crypto pf) w; produce_block pf ef fs nd t w = (fs', nd', b)\<rbrakk> \<Longrightarrow>
    node_step pf (fs, nd) (fs', nd')"
| step_chunk: "apply_chain_chunk pf ef fs nd i n bs = (fs', nd', c) \<Longrightarrow>
    node_step pf (fs, nd) (fs', nd')"
| step_restore: "restore_chain_from_storage pf ef fs nd chain = (fs', nd', r) \<Longrightarrow>
    node_step pf (fs, nd) (fs', nd')"
| step_verify: "verify_equal_chain pf ef fs nd chain = (fs', nd', r) \<Longrightarrow>
    node_step pf (fs, nd) (fs', nd')"
| step_adopt: "\<lbrakk>candidate_of (pf_crypto pf) nd candidate;
    adopt_validated_sync_candidate pf ef fs nd (nd_blockchain candidate) (nd_state candidate) =
      (fs', nd', r)\<rbrakk> \<Longrightarrow> node_step pf (fs, nd) (fs', nd')"
| step_request: "request_chain pf ef nd = nd' \<Longrightarrow> node_step pf (fs, nd) (fs, nd')"
| step_peer: "node_add_peer nd peer = (nd', ok) \<Longrightarrow> node_step pf (fs, nd) (fs, nd')"

inductive reachable :: "platform \<Rightarrow> file_system \<times> node \<Rightarrow> file_system \<times> node \<Rightarrow> bool"
  for pf :: platform and start :: "file_system \<times> node" where
  reachable_start: "reachable pf start start"
| reachable_step: "\<lbrakk>reachable pf start s; node_step pf s s'\<rbrakk> \<Longrightarrow> reachable pf start s'"

inductive_cases node_stepE: "node_step pf (fs, nd) (fs', nd')"

lemma verify_equal_chain_eq:
  "verify_equal_chain pf ef fs nd chain = (fs', nd', r) \<Longrightarrow>
     (fs' = fs \<and> nd' = nd) \<or> synchronize_chain pf ef fs nd chain = (fs', nd', r)"
  by (auto simp: verify_equal_chain_def split: if_splits)

lemma node_add_transaction_wf:
  assumes "node_wf (pf_crypto pf) nd" and "node_add_transaction pf ef nd tx = (nd', r)"
  shows "node_wf (pf_crypto pf) nd'"
  using insert_transaction_wf[OF assms(1), of tx] assms(2)
  by (auto simp: node_add_transaction_def intro: node_broadcast_wf split: prod.splits sum.splits)

lemma request_chain_wf: "node_wf (pf_crypto pf) nd \<Longrightarrow> node_wf (pf_crypto pf) (request_chain pf ef nd)"
  by (simp add: request_chain_def node_broadcast_wf)

lemma node_add_peer_wf: "node_wf cr nd \<Longrightarrow> node_wf cr (fst (node_add_peer nd peer))"
  using network_add_peer_wf[of "nd_network nd" peer]
  by (auto simp: node_add_peer_def node_wf_def intro!: node_wf_network split: prod.splits)

lemma node_step_wf:
  assumes "crypto_spec (pf_crypto pf)" and "node_step pf (fs, nd) (fs', nd')"
    and wf: "node_wf (pf_crypto pf) nd"
  shows "node_wf (pf_crypto pf) nd'"
proof (rule node_stepE[OF assms(2)], goal_cases)
  case (1 ef m r)
  then show ?case using receive_message_wf[OF wf, of ef fs m] by simp
next
  case (2 ef tx r)
  then show ?case using node_add_transaction_wf[OF wf] by blast
next
  case (3 tx q)
  then show ?case
    using insert_transaction_wf[OF wf, of tx] by (simp add: receive_transaction_with_result_def)
next
  case (4 ef b p)
  then show ?case using receive_block_wf[OF wf, of ef fs b] by simp
next
  case (5 w ef t b)
  then show ?case using produce_block_wf[OF assms(1) 5(1) wf, of ef fs t] by simp
next
  case (6 ef i n bs c)
  then show ?case
    using accept_chain_chunk_wf[OF wf, of ef fs i n bs] by (simp add: apply_chain_chunk_def)
next
  case (7 ef chain r)
  then show ?case
    using synchronize_chain_wf[OF wf, of ef fs chain] by (simp add: restore_chain_from_storage_def)
next
  case (8 ef chain r)
  then show ?case
    using synchronize_chain_wf[OF wf, of ef fs chain] wf verify_equal_chain_eq by fastforce
next
  case (9 candidate ef r)
  then show ?case using adopt_candidate_wf[OF wf 9(1), of ef fs] by simp
next
  case (10 ef)
  then show ?case using request_chain_wf[OF wf, of ef] by simp
next
  case (11 peer ok)
  then show ?case using node_add_peer_wf[OF wf, of peer] by simp
qed

lemma reachable_wf:
  assumes "reachable pf (fs0, nd0) s" and "crypto_spec (pf_crypto pf)"
    and "node_wf (pf_crypto pf) nd0"
  shows "node_wf (pf_crypto pf) (snd s)"
  using assms(1)
proof induction
  case reachable_start
  then show ?case using assms(3) by simp
next
  case (reachable_step s s')
  then show ?case
    using node_step_wf[OF assms(2), of "fst s" "snd s" "fst s'" "snd s'"] by simp
qed

text \<open>The frame and the disk, over any number of steps.\<close>

lemma adopt_candidate_frame:
  "adopt_validated_sync_candidate pf ef fs nd bc st = (fs', nd', r) \<Longrightarrow> node_frame nd nd'"
  by (auto simp: adopt_validated_sync_candidate_def node_frame_def Let_def
      split: if_splits sum.splits prod.splits error.splits)

lemma node_add_transaction_frame:
  "node_add_transaction pf ef nd tx = (nd', r) \<Longrightarrow> node_frame nd nd' \<and> disk_follows pf fs nd fs nd'"
  using insert_transaction_frame[of nd pf tx] disk_follows_insert[of pf fs nd tx]
  by (auto simp: node_add_transaction_def node_frame_network disk_follows_network
      split: prod.splits sum.splits)

lemma node_step_frame:
  assumes "node_step pf (fs, nd) (fs', nd')"
  shows "node_frame nd nd'"
proof (rule node_stepE[OF assms], goal_cases)
  case (3 tx q)
  then show ?case
    using insert_transaction_frame[of nd pf tx] by (simp add: receive_transaction_with_result_def)
next
  case (8 ef chain r)
  then show ?case
    using verify_equal_chain_eq synchronize_chain_frame node_frame_refl by metis
next
  case (10 ef)
  then show ?case
    by (auto simp: request_chain_def node_frame_network) (simp add: node_frame_def)
next
  case (11 peer ok)
  then show ?case
    by (auto simp: node_add_peer_def node_frame_def split: prod.splits)
qed (auto simp: apply_chain_chunk_def restore_chain_from_storage_def
    dest: receive_message_frame receive_block_frame produce_block_frame synchronize_chain_frame
      accept_chain_chunk_frame adopt_candidate_frame node_add_transaction_frame)

lemma node_step_disk:
  assumes json: "json_spec (pf_json pf)" and "node_step pf (fs, nd) (fs', nd')"
  shows "disk_follows pf fs nd fs' nd'"
proof (rule node_stepE[OF assms(2)], goal_cases)
  case (3 tx q)
  then show ?case
    using disk_follows_insert[of pf fs nd tx] by (simp add: receive_transaction_with_result_def)
next
  case (8 ef chain r)
  then show ?case
    using verify_equal_chain_eq synchronize_chain_disk[OF json] disk_follows_same by metis
next
  case (10 ef)
  then show ?case
    by (auto simp: request_chain_def node_broadcast_def intro!: disk_follows_same)
next
  case (11 peer ok)
  then show ?case
    by (auto simp: node_add_peer_def intro!: disk_follows_same split: prod.splits)
qed (use json in \<open>auto simp: apply_chain_chunk_def restore_chain_from_storage_def
    dest: receive_message_disk receive_block_disk produce_block_disk synchronize_chain_disk
      accept_chain_chunk_disk adopt_candidate_disk node_add_transaction_frame\<close>)

lemma disk_follows_trans:
  assumes "disk_follows pf fs0 nd0 fs nd" and "disk_follows pf fs nd fs' nd'"
  shows "disk_follows pf fs0 nd0 fs' nd'"
  using assms by (auto simp: disk_follows_def Let_def)

lemma reachable_frame:
  assumes "reachable pf (fs0, nd0) s"
  shows "node_frame nd0 (snd s)"
  using assms
proof induction
  case reachable_start
  show ?case by simp
next
  case (reachable_step s s')
  then show ?case
    using node_step_frame[of pf "fst s" "snd s" "fst s'" "snd s'"] node_frame_trans by simp
qed

lemma reachable_disk:
  assumes "reachable pf (fs0, nd0) s" and "json_spec (pf_json pf)"
  shows "disk_follows pf fs0 nd0 (fst s) (snd s)"
  using assms(1)
proof induction
  case reachable_start
  show ?case by (simp add: disk_follows_same)
next
  case (reachable_step s s')
  then show ?case
    using node_step_disk[OF assms(2), of "fst s" "snd s" "fst s'" "snd s'"] disk_follows_trans by simp
qed

end
