(* ===== verification/Node_Transfer.thy ===== *)
theory Node_Transfer
  imports Node_Steps
begin

text \<open>
  A chain sent in chunks, a node started again, and two ways a chain can arrive that deserve a
  theorem: an equally long fork, and a copy of the chain whose genesis carries a signature.
\<close>

section \<open>Chunks\<close>

text \<open>The blocks a node sends for a start index, and those of a whole transfer.\<close>

definition chunk_of :: "block list \<Rightarrow> nat \<Rightarrow> block list" where
  "chunk_of chain start = take MAX_SYNC_BLOCKS_PER_MESSAGE (drop start chain)"

lemma answer_chunk_request_eq:
  assumes "unat start_index \<le> length (bc_chain (nd_blockchain nd))"
  shows "answer_chunk_request pf ef nd start_index =
    (node_broadcast pf ef nd (Chain_chunk_response start_index
      (word_of_nat (length (bc_chain (nd_blockchain nd)))) (chunk_of (bc_chain (nd_blockchain nd)) (unat start_index))), Inr ())"
proof -
  have "take (min (unat start_index + n) (length xs) - unat start_index) (drop (unat start_index) xs) =
      take n (drop (unat start_index) xs)" for n and xs :: "block list"
    by (simp add: min_def)
  then show ?thesis
    using assms by (simp add: answer_chunk_request_def chunk_of_def Let_def not_le)
qed

text \<open>The receiver's side: accept a chunk, ask for the next one, until the transfer ends.\<close>

fun transfer ::
  "nat \<Rightarrow> platform \<Rightarrow> effects \<Rightarrow> block list \<Rightarrow> file_system \<Rightarrow> node \<Rightarrow> u64 \<Rightarrow>
   (file_system \<times> node \<times> unit result) option" where
  "transfer 0 pf ef chain fs nd start_index = None"
| "transfer (Suc rounds) pf ef chain fs nd start_index =
     (case accept_chain_chunk pf ef fs nd start_index (word_of_nat (length chain))
             (chunk_of chain (unat start_index)) of
        (fs, nd, Inl e) \<Rightarrow> Some (fs, nd, Inl e)
      | (fs, nd, Inr None) \<Rightarrow> Some (fs, nd, Inr ())
      | (fs, nd, Inr (Some next_index)) \<Rightarrow> transfer rounds pf ef chain fs nd next_index)"

definition well_indexed :: "block list \<Rightarrow> bool" where
  "well_indexed chain \<longleftrightarrow> (\<forall>i<length chain. blk_index (chain ! i) = word_of_nat i)"

lemma check_indices:
  assumes "well_indexed chain" and "start < 2 ^ 64" and "start + offset + length bs \<le> length chain"
    and "bs = take (length bs) (drop (start + offset) chain)"
  shows "try_fold (check_chunk_index (word_of_nat start)) () (List.enumerate offset bs) = Inr ()"
  using assms(3,4)
proof (induction bs arbitrary: offset)
  case Nil
  then show ?case by simp
next
  case (Cons b bs)
  then have "start + offset < length chain"
    by simp
  then have "drop (start + offset) chain = chain ! (start + offset) # drop (start + Suc offset) chain"
    by (simp add: Cons_nth_drop_Suc)
  with Cons.prems(2) have b: "b = chain ! (start + offset)"
    and bs: "bs = take (length bs) (drop (start + Suc offset) chain)"
    by simp_all
  have "blk_index b = word_of_nat (start + offset)"
    using assms(1) b \<open>start + offset < length chain\<close> by (simp add: well_indexed_def)
  then have "check_chunk_index (word_of_nat start) () (offset, b) = Inr ()"
    using assms(2) by (simp add: check_chunk_index_def unat_word_of_nat64)
  moreover have "try_fold (check_chunk_index (word_of_nat start)) () (List.enumerate (Suc offset) bs) = Inr ()"
    by (rule Cons.IH) (use Cons.prems(1) bs in simp_all)
  ultimately show ?case
    by simp
qed

lemma length_chunk_of: "length (chunk_of chain s) = min MAX_SYNC_BLOCKS_PER_MESSAGE (length chain - s)"
  by (simp add: chunk_of_def)

definition receiving :: "block list \<Rightarrow> nat \<Rightarrow> node \<Rightarrow> bool" where
  "receiving chain s nd \<longleftrightarrow> s < length chain \<and>
     (s = 0 \<or> nd_sync_expected_total nd = Some (word_of_nat (length chain)) \<and>
      nd_sync_buffer nd = take s chain)"

definition clear_transfer :: "node \<Rightarrow> node" where
  "clear_transfer nd = nd\<lparr>nd_sync_buffer := [], nd_sync_expected_total := None\<rparr>"

text \<open>A part of at most 256 blocks that continues the transfer.\<close>

lemma accept_next_part:
  assumes indexed: "well_indexed chain" and short: "length chain < 2 ^ 64" and s: "receiving chain s nd"
    and n: "0 < n" "n \<le> MAX_SYNC_BLOCKS_PER_MESSAGE"
  shows "accept_chain_chunk pf ef fs nd (word_of_nat s) (word_of_nat (length chain)) (take n (drop s chain)) =
    (if s + n < length chain
     then (fs, nd\<lparr>nd_sync_buffer := take (s + n) chain,
                  nd_sync_expected_total := Some (word_of_nat (length chain))\<rparr>,
           Inr (Some (word_of_nat (s + n))))
     else case synchronize_chain pf ef fs (clear_transfer nd) chain of
            (fs, nd, Inl e) \<Rightarrow> (fs, nd, Inl e)
          | (fs, nd, Inr _) \<Rightarrow> (fs, nd, Inr None))"
proof -
  define part where "part = take n (drop s chain)"
  have lt: "s < length chain" and s64: "s < 2 ^ 64"
    using s short by (simp_all add: receiving_def)
  have start: "unat (word_of_nat s :: u64) = s"
    and count: "unat (word_of_nat (length chain) :: u64) = length chain"
    using s64 short by (simp_all only: unat_word_of_nat64)
  have len: "length part = min n (length chain - s)"
    by (simp add: part_def)
  have bounds: "check_chunk_bounds (word_of_nat s) (word_of_nat (length chain)) part = Inr ()"
    using lt short n unfolding check_chunk_bounds_def start count len by (auto simp: min_def)
  have "part = take (length part) (drop (s + 0) chain)"
    unfolding len by (simp add: part_def min_def)
  then have indices: "try_fold (check_chunk_index (word_of_nat s)) () (List.enumerate 0 part) = Inr ()"
    by (intro check_indices[OF indexed s64]) (use lt in \<open>simp_all add: len\<close>)
  have opened: "open_chunk nd (word_of_nat s) (word_of_nat (length chain)) =
      (nd\<lparr>nd_sync_buffer := take s chain,
          nd_sync_expected_total := Some (word_of_nat (length chain))\<rparr>, Inr ())"
    using s lt by (auto simp: open_chunk_def start receiving_def)
  have ne: "part \<noteq> []"
    using lt n by (simp add: part_def)
  have buffer: "take s chain @ part = take (s + n) chain"
    by (simp add: part_def take_add)
  have "min (length chain) s + length part = min (length chain) (s + n)"
    using arg_cong[OF buffer, of length] by simp
  then show ?thesis
    unfolding accept_chain_chunk_def part_def[symmetric] bounds opened
    using ne by (auto simp: indices Let_def buffer count clear_transfer_def)
qed

lemma accept_next_chunk:
  assumes indexed: "well_indexed chain" and short: "length chain < 2 ^ 64" and s: "receiving chain s nd"
  defines "m \<equiv> s + MAX_SYNC_BLOCKS_PER_MESSAGE"
  shows "accept_chain_chunk pf ef fs nd (word_of_nat s) (word_of_nat (length chain)) (chunk_of chain s) =
    (if m < length chain
     then (fs, nd\<lparr>nd_sync_buffer := take m chain,
                  nd_sync_expected_total := Some (word_of_nat (length chain))\<rparr>,
           Inr (Some (word_of_nat m)))
     else case synchronize_chain pf ef fs (clear_transfer nd) chain of
            (fs, nd, Inl e) \<Rightarrow> (fs, nd, Inl e)
          | (fs, nd, Inr _) \<Rightarrow> (fs, nd, Inr None))"
  unfolding m_def chunk_of_def
  by (rule accept_next_part[OF assms(1-3)]) (simp_all add: MAX_SYNC_BLOCKS_PER_MESSAGE_def)

lemma transfer_assembles:
  assumes indexed: "well_indexed chain" and short: "length chain < 2 ^ 64"
    and "receiving chain s nd" and "length chain - s < rounds * MAX_SYNC_BLOCKS_PER_MESSAGE + 1"
  shows "transfer rounds pf ef chain fs nd (word_of_nat s) =
    Some (synchronize_chain pf ef fs (clear_transfer nd) chain)"
  using assms(3,4)
proof (induction rounds arbitrary: s nd)
  case 0
  then show ?case by (simp add: receiving_def)
next
  case (Suc rounds)
  let ?m = "s + MAX_SYNC_BLOCKS_PER_MESSAGE"
  have s: "s < length chain" "unat (word_of_nat s :: u64) = s"
    using Suc.prems(1) short by (simp_all add: receiving_def unat_word_of_nat64)
  note accept = accept_next_chunk[OF indexed short Suc.prems(1), of pf ef fs]
  show ?case
  proof (cases "?m < length chain")
    case True
    let ?nd = "nd\<lparr>nd_sync_buffer := take ?m chain,
      nd_sync_expected_total := Some (word_of_nat (length chain))\<rparr>"
    have "transfer rounds pf ef chain fs ?nd (word_of_nat ?m) =
        Some (synchronize_chain pf ef fs (clear_transfer ?nd) chain)"
      by (rule Suc.IH) (use True Suc.prems(2) in \<open>simp_all add: receiving_def\<close>)
    with accept True s(2) show ?thesis
      by (simp add: clear_transfer_def)
  next
    case False
    with accept s(2) show ?thesis
      by (simp split: prod.split sum.split)
  qed
qed

section \<open>Starting again\<close>

lemma valid_genesis:
  assumes "is_valid cr bc" and "bc_chain bc \<noteq> []"
  shows "blk_index (hd (bc_chain bc)) = 0" "blk_previous_hash (hd (bc_chain bc)) = ''0''"
    "blk_hash (hd (bc_chain bc)) = calculate_hash cr (hd (bc_chain bc))"
    "validate_block_field_sizes (hd (bc_chain bc)) = Inr ()"
    "is_valid cr \<lparr>bc_chain = [hd (bc_chain bc)], bc_economy = e\<rparr>"
proof -
  have "bc_chain bc = [] @ hd (bc_chain bc) # tl (bc_chain bc)"
    using assms(2) by simp
  then have ok: "block_ok cr 0 (hd (bc_chain bc))" "follows cr [] (hd (bc_chain bc))"
    using assms(1) unfolding is_valid_iff by (metis list.size(3))+
  then show "blk_index (hd (bc_chain bc)) = 0" "blk_previous_hash (hd (bc_chain bc)) = ''0''"
    "blk_hash (hd (bc_chain bc)) = calculate_hash cr (hd (bc_chain bc))"
    and sizes: "validate_block_field_sizes (hd (bc_chain bc)) = Inr ()"
    by (auto simp: block_ok_def follows_def is_ok_iff)
  then have "blk_transactions (hd (bc_chain bc)) = []"
    by (auto simp: validate_block_field_sizes_def result_simps split: if_splits)
  then show "is_valid cr \<lparr>bc_chain = [hd (bc_chain bc)], bc_economy = e\<rparr>"
    using ok is_valid_snoc[of "\<lparr>bc_chain = [hd (bc_chain bc)], bc_economy = e\<rparr>"
        "\<lparr>bc_chain = [], bc_economy = e\<rparr>" "hd (bc_chain bc)" cr]
    by (simp add: is_valid_iff)
qed

lemma rebuilds_valid:
  assumes "rebuilds cr nd chain (bc, st)"
    and "is_valid cr \<lparr>bc_chain = [hd chain], bc_economy = nd_genesis_economy nd\<rparr>"
  shows "is_valid cr bc"
proof -
  have "replay_blocks cr (willing_clock (tl chain)) (nd_consensus nd)
      (\<lparr>bc_chain = [hd chain], bc_economy = nd_genesis_economy nd\<rparr>, nd_genesis_state nd) 0 (tl chain) =
      Inr (bc, st)"
    using assms(1) willing_clock_allows
    by (simp add: rebuilds_def replay_chain_eq genesis_start_def blockchain_new_def)
  from replay_valid[OF this assms(2)] show ?thesis .
qed

text \<open>
  A node that starts from the genesis and restores the stored chain ends in the blockchain and
  state it had, provided its clock is not behind the chain by more than the allowed drift.
\<close>

lemma clock_allows_later:
  assumes "\<forall>b\<in>set bs. unat (blk_timestamp b) \<le> unat now + 120" and "unat now + 120 < 2 ^ 64"
  shows "clock_allows (\<lambda>_. Some now) n bs"
  using assms by (simp add: clock_allows_def validate_future_timestamp_Inr MAX_FUTURE_DRIFT_SECONDS_def)

definition started :: "node \<Rightarrow> node" where
  "started nd =
     node_new_with_data_directory
       \<lparr>bc_chain = [hd (bc_chain (nd_blockchain nd))], bc_economy = nd_genesis_economy nd\<rparr>
       (nd_genesis_state nd) (nd_consensus nd) (nd_storage_directory nd)"

lemma restart_restores:
  assumes wf: "node_wf (pf_crypto pf) nd" and valid: "is_valid (pf_crypto pf) (nd_blockchain nd)"
    and long: "1 < length (bc_chain (nd_blockchain nd))"
    and clock: "clock_allows (ef_clock ef) 0 (tl (bc_chain (nd_blockchain nd)))"
    and save: "node_save pf ef fs nd (bc_chain (nd_blockchain nd)) = (fs', Inr ())"
  shows "restore_chain_from_storage pf ef fs (started nd) (bc_chain (nd_blockchain nd)) =
    (fs', (started nd)\<lparr>nd_blockchain := nd_blockchain nd, nd_state := nd_state nd\<rparr>, Inr ())"
proof -
  let ?chain = "bc_chain (nd_blockchain nd)"
  have ne: "?chain \<noteq> []"
    using long by auto
  note genesis = valid_genesis(1-3)[OF valid ne]
  have "check_incoming_genesis pf (started nd) ?chain = Inr (hd ?chain)"
    using ne genesis
    by (simp add: check_incoming_genesis_def started_def node_new_with_data_directory_def)
  moreover have "replay_chain (pf_crypto pf) (ef_clock ef) (started nd) ?chain = Inr (nd_blockchain nd, nd_state nd)"
    using wf clock
    by (simp add: node_wf_def rebuilds_def replay_chain_def started_def node_new_with_data_directory_def)
  ultimately show ?thesis
    using long save ne
    by (simp add: restore_chain_from_storage_def synchronize_chain_def started_def
        node_new_with_data_directory_def)
qed

section \<open>Equally long chains\<close>

lemma compare_equal_chain_same:
  assumes "compare_equal_chain pf nd chain = Inr ()"
    and "sha256_spec (pf_crypto pf)" and "is_valid (pf_crypto pf) (nd_blockchain nd)"
    and "list_all block_fits chain" and "list_all block_fits (bc_chain (nd_blockchain nd))"
    and "length chain < 2 ^ 64" and "length (bc_chain (nd_blockchain nd)) < 2 ^ 64"
  shows "map block_payload chain = map block_payload (bc_chain (nd_blockchain nd)) \<or>
    collision_between (pf_crypto pf) chain (bc_chain (nd_blockchain nd))"
proof -
  let ?remote = "\<lparr>bc_chain = chain, bc_economy = nd_genesis_economy nd\<rparr>"
  have "is_valid (pf_crypto pf) ?remote" "chain \<noteq> []" "bc_chain (nd_blockchain nd) \<noteq> []"
    "blk_hash (last chain) = blk_hash (last (bc_chain (nd_blockchain nd)))"
    using assms(1) by (auto simp: compare_equal_chain_def Let_def result_simps split: if_splits)
  then show ?thesis
    using tip_determines_chain[OF assms(2), of ?remote "nd_blockchain nd"] assms(3-) by simp
qed

section \<open>The signature of the genesis\<close>

text \<open>
  The hash of a block does not cover its signature, and \<open>synchronize_chain\<close> does not check
  the format of the genesis it receives. A copy of a chain with a signature on the
  genesis is therefore taken like the original, but the chain is not valid afterwards.
\<close>

definition sign_genesis :: "string \<Rightarrow> block list \<Rightarrow> block list" where
  "sign_genesis s chain = (case chain of [] \<Rightarrow> [] | g # bs \<Rightarrow> block_sign g s # bs)"

lemma sign_genesis_simps [simp]:
  "sign_genesis s (g # bs) = block_sign g s # bs"
  "chain \<noteq> [] \<Longrightarrow> sign_genesis s (chain @ bs) = sign_genesis s chain @ bs"
  "length (sign_genesis s chain) = length chain"
  "sign_genesis s chain = [] \<longleftrightarrow> chain = []"
  "chain_ids (sign_genesis s chain) = chain_ids chain"
  "tl (sign_genesis s chain) = tl chain"
  by (cases chain; simp add: sign_genesis_def chain_ids_def)+

lemma sign_genesis_last:
  "chain \<noteq> [] \<Longrightarrow> blk_hash (last (sign_genesis s chain)) = blk_hash (last chain) \<and>
     blk_timestamp (last (sign_genesis s chain)) = blk_timestamp (last chain)"
  by (cases chain) (simp_all add: sign_genesis_def)

definition genesis_signed :: "string \<Rightarrow> blockchain \<Rightarrow> blockchain" where
  "genesis_signed s bc = bc\<lparr>bc_chain := sign_genesis s (bc_chain bc)\<rparr>"

lemma genesis_signed_validate:
  assumes "validate_and_apply_block cr clock co b bc st = Inr (bc', st')"
  shows "validate_and_apply_block cr clock co b (genesis_signed s bc) st = Inr (genesis_signed s bc', st')"
proof -
  have "bc_chain bc \<noteq> []"
    using assms by (simp add: validate_and_apply_block_Inr add_received_block_Inr)
  then show ?thesis
    using assms sign_genesis_last[of "bc_chain bc" s]
    by (auto simp: validate_and_apply_block_Inr add_received_block_Inr uniqueness_Inr genesis_signed_def)
qed

lemma genesis_signed_replay:
  "replay_blocks cr clock co (bc, st) n bs = Inr (bc', st') \<Longrightarrow>
     replay_blocks cr clock co (genesis_signed s bc, st) n bs = Inr (genesis_signed s bc', st')"
proof (induction bs arbitrary: bc st n)
  case Nil
  then show ?case by simp
next
  case (Cons b bs)
  then obtain bc1 st1 where first: "validate_and_apply_block cr (clock n) co b bc st = Inr (bc1, st1)"
    and rest: "replay_blocks cr clock co (bc1, st1) (Suc n) bs = Inr (bc', st')"
    by (auto simp: result_simps)
  show ?case
    using genesis_signed_validate[OF first] Cons.IH[OF rest] by simp
qed

lemma signed_genesis_accepted:
  assumes sync: "synchronize_chain pf ef fs nd chain = (fs', nd', Inr ())"
    and long: "length (bc_chain (nd_blockchain nd)) < length chain"
    and save: "node_save pf ef fs nd (sign_genesis s chain) = (fs2, Inr ())"
  shows "synchronize_chain pf ef fs nd (sign_genesis s chain) =
      (fs2, nd'\<lparr>nd_blockchain := genesis_signed s (nd_blockchain nd')\<rparr>, Inr ())"
    and "\<not> is_valid (pf_crypto pf) (genesis_signed s (nd_blockchain nd'))"
proof -
  obtain g bs where chain: "chain = g # bs"
    using long by (cases chain) auto
  obtain bc st where genesis: "check_incoming_genesis pf nd chain = Inr g"
    and replay: "replay_chain (pf_crypto pf) (ef_clock ef) nd chain = Inr (bc, st)" and bc: "bc_chain bc = chain"
    and nd': "nd' = nd\<lparr>nd_blockchain := bc, nd_state := st, nd_mempool := mempool_new\<rparr>"
    using synchronize_chain_ok[OF sync] long chain by auto
  have signed: "genesis_start nd (block_sign g s) =
      (genesis_signed s (fst (genesis_start nd g)), snd (genesis_start nd g))"
    by (simp add: genesis_start_def genesis_signed_def blockchain_new_def)
  have replayed: "replay_chain (pf_crypto pf) (ef_clock ef) nd (sign_genesis s chain) =
      Inr (genesis_signed s bc, st)"
  proof -
    have "replay_blocks (pf_crypto pf) (ef_clock ef) (nd_consensus nd)
        (fst (genesis_start nd g), snd (genesis_start nd g)) 0 bs = Inr (bc, st)"
      unfolding prod.collapse using replay by (simp add: replay_chain_eq chain)
    from genesis_signed_replay[OF this, of s] signed show ?thesis
      by (simp add: replay_chain_eq chain)
  qed
  have "check_incoming_genesis pf nd (sign_genesis s chain) = Inr (block_sign g s)"
    using genesis by (auto simp: check_incoming_genesis_def chain Let_def result_simps split: if_splits)
  with replayed save long show "synchronize_chain pf ef fs nd (sign_genesis s chain) =
      (fs2, nd'\<lparr>nd_blockchain := genesis_signed s (nd_blockchain nd')\<rparr>, Inr ())"
    by (simp add: synchronize_chain_def chain nd' bc genesis_signed_def)
  have "blk_index g = 0"
    using genesis by (auto simp: check_incoming_genesis_def chain Let_def result_simps split: if_splits)
  then have "validate_block_field_sizes (block_sign g s) \<noteq> Inr ()"
    by (simp add: validate_block_field_sizes_def)
  then show "\<not> is_valid (pf_crypto pf) (genesis_signed s (nd_blockchain nd'))"
    using valid_genesis(4)[of "pf_crypto pf" "genesis_signed s bc"]
    by (auto simp: nd' genesis_signed_def bc chain)
qed

end
