(* ===== verification/Node_Production.thy ===== *)
theory Node_Production
  imports Node_Transfer
begin

text \<open>
  When block production goes through. The error paths of \<open>create_block_from_mempool\<close> and of
  \<open>produce_block\<close> that come from overflow checks (fee totals, validator balance, treasury,
  liquidity reserve, coinbase) are shown unreachable while the books of a node are balanced:
  what is left are the refusals the code means, and a selected validator with an applicable
  transaction in its mempool does produce a block.
\<close>

section \<open>Fees and reward fit\<close>

lemma checked_add_fits64: "unat a + unat b < 2 ^ 64 \<Longrightarrow> checked_add (a :: u64) b = Some (a + b)"
  by (simp add: checked_add_Some unat_add_fits)

lemma add_balance_ok:
  assumes "fmlookup (st_accounts st) a \<noteq> None" and "unat (balance_of st a) + unat x < 2 ^ 64"
  shows "\<exists>st'. add_balance st a x = Inr st'"
proof -
  obtain acc where acc: "fmlookup (st_accounts st) a = Some acc"
    using assms(1) by auto
  then have "checked_add (acc_balance acc) x = Some (acc_balance acc + x)"
    using assms(2) by (simp add: checked_add_fits64 balance_of_def)
  with acc show ?thesis
    by (simp add: add_balance_def)
qed

lemma fee_totals_ok:
  assumes shares: "shares_ok e" and "ft_sum ft + fee_sum txs < 2 ^ 64" and "ft_burn ft = 0"
  shows "\<exists>ft'. try_fold (add_fee_shares e) ft txs = Inr ft'"
  using assms(2,3)
proof (induction txs arbitrary: ft)
  case Nil
  then show ?case by simp
next
  case (Cons tx txs)
  obtain v l t where d: "distribute_fee e (tx_fee tx) = Inr (v, l, t, 0)"
    and exact: "unat v + unat l + unat t = unat (tx_fee tx)"
    using distribute_fee_exact[OF shares] by blast
  have "checked_add (ft_validator ft) v \<noteq> None" "checked_add (ft_liquidity ft) l \<noteq> None"
    "checked_add (ft_treasury ft) t \<noteq> None"
    using Cons.prems(1) exact by (simp_all add: checked_add_None ft_sum_def fee_sum_def not_le)
  then obtain ft1 where ft1: "add_fee_shares e ft tx = Inr ft1"
    using d Cons.prems(2) by (auto simp: add_fee_shares_def)
  have "ft_sum ft1 + fee_sum txs < 2 ^ 64" "ft_burn ft1 = 0"
    using add_fee_shares_Inr[OF shares ft1] Cons.prems by (simp_all add: fee_sum_def)
  then show ?case
    using Cons.IH ft1 by simp
qed

lemma settle_fees_ok:
  assumes "total_balance st + unat (ft_validator ft) < 2 ^ 64"
    and "unat (st_treasury_balance st) + unat (ft_treasury ft) < 2 ^ 64"
    and "unat (ec_liquidity_reserve e) + unat (ft_liquidity ft) < 2 ^ 64" and "ft_burn ft = 0"
  shows "\<exists>st' e'. settle_fees v ft st e = Inr (st', e')"
proof -
  have "fmlookup (st_accounts (ensure_account st v)) v \<noteq> None"
    by (auto simp: ensure_account_def create_account_def)
  moreover have "unat (balance_of (ensure_account st v) v) + unat (ft_validator ft) < 2 ^ 64"
    using assms(1) balance_of_le_total[of st v] by simp
  ultimately obtain s1 where s1: "add_balance (ensure_account st v) v (ft_validator ft) = Inr s1"
    using add_balance_ok by blast
  moreover have "st_treasury_balance s1 = st_treasury_balance st"
    using add_balance_Inr(5)[OF s1] by simp
  ultimately show ?thesis
    using assms(2-4)
    by (simp add: settle_fees_def add_treasury_def add_liquidity_reserve_def state_burn_def checked_add_fits64)
qed

lemma coinbase_applies:
  assumes "tx_coinbase tx" and "total_balance st + unat (tx_amount tx) < 2 ^ 64"
  shows "\<exists>st'. apply_transaction st tx = (st', Inr ())"
  using assms balance_of_le_total[of st "tx_to tx"] by (intro accepts_applies) (simp add: accepts_def)

lemma execute_transactions_ok:
  assumes books: "books_balanced st (bc_economy bc)"
    and replay: "replay apply_transaction st txs = Inr s1"
    and ordinary: "list_all (\<lambda>tx. \<not> tx_coinbase tx) txs"
    and fees: "list_all (\<lambda>tx. validate_fee (bc_economy bc) (tx_amount tx) (tx_fee tx)) txs"
    and supply_left: "unat (ec_total_supply (bc_economy bc)) + unat (ec_block_reward (bc_economy bc)) \<le>
      unat (ec_max_supply (bc_economy bc))"
  shows "\<exists>st' e'. execute_transactions cr bc w txs st =
    Inr (st', e', txs @ [new_coinbase cr (w_address w) (ec_block_reward (bc_economy bc))
      (word_of_nat (length (bc_chain bc)))])"
proof -
  let ?e = "bc_economy bc"
  have max: "unat (ec_max_supply ?e) < 2 ^ 64"
    by (rule order_less_le_trans[OF unsigned_less]) simp
  have shares: "shares_ok ?e" and all: "money st ?e = unat (ec_total_supply ?e)"
    using books by (simp_all add: books_balanced_def)
  have paid: "total_balance s1 + fee_sum txs = total_balance st"
    using replay_ordinary_funds[OF replay ordinary] by (simp add: fee_sum_def)
  then obtain ft where ft: "try_fold (add_fee_shares ?e) no_fees txs = Inr ft"
    using fee_totals_ok[OF shares, of no_fees txs] books_balanced_bound[OF books] by auto
  have sum: "ft_sum ft = fee_sum txs" "ft_burn ft = 0"
    using fee_totals_exact[OF shares ft] by simp_all
  have treasury: "st_treasury_balance s1 = st_treasury_balance st"
    using replay_treasury[OF replay] by simp
  have room: "total_balance s1 + unat (st_treasury_balance s1) + unat (ec_liquidity_reserve ?e) + ft_sum ft +
      unat (ec_block_reward ?e) < 2 ^ 64"
    using all paid sum(1) supply_left max by (simp add: money_def treasury)
  then obtain s2 e2 where settle: "settle_fees (w_address w) ft s1 ?e = Inr (s2, e2)"
    using settle_fees_ok[of s1 ft ?e "w_address w"] sum(2) by (auto simp: ft_sum_def)
  note s2 = settle_fees_Inr[OF settle sum(2)]
  have reward: "ec_block_reward e2 = ec_block_reward ?e" "ec_max_supply e2 = ec_max_supply ?e"
    using settings_fields[OF s2(9)] by simp_all
  obtain e3 where e3: "mint e2 (ec_block_reward e2) = Inr e3"
    using supply_left mint_iff[of e2 "ec_block_reward e2"] s2(8) reward by (auto simp: is_ok_iff)
  let ?cb = "new_coinbase cr (w_address w) (ec_block_reward ?e) (word_of_nat (length (bc_chain bc)))"
  obtain s3 where s3: "apply_transaction s2 ?cb = (s3, Inr ())"
    using coinbase_applies[of ?cb s2] room s2(1) by (auto simp: ft_sum_def)
  have "try_fold (check_fee ?e) () txs = Inr ()"
    using fees by (simp add: check_fees_Inr)
  moreover have "apply_transactions_atomically st txs = (s1, Inr ())"
    using replay by (simp add: apply_transactions_atomically_Inr)
  ultimately show ?thesis
    using ft settle e3 s3 reward
    by (simp add: execute_transactions_def reward_validator_def Let_def keep_ok_def)
qed

section \<open>The block\<close>

lemma coinbase_field_sizes:
  assumes "sha256_spec cr" and "is_fixed_hex a ADDRESS_HEX_LENGTH"
  shows "validate_transaction_field_sizes (new_coinbase cr a reward marker) = Inr ()"
  using assms calculate_id_fixed_hex[OF assms(1)]
  by (simp add: validate_transaction_field_sizes_def)

lemma authentic_field_sizes: "tx_authentic cr tx \<Longrightarrow> validate_transaction_field_sizes tx = Inr ()"
  by (auto simp: tx_authentic_def field_sizes_ordinary split: option.splits)

lemma made_block_sizes:
  assumes cr: "crypto_spec cr" and w: "wallet_wf cr w"
    and chain: "chain \<noteq> []" "length chain < 2 ^ 64" "is_fixed_hex (blk_hash (last chain)) HASH_HEX_LENGTH"
    and txs: "txs \<noteq> []" "length txs \<le> MAX_NORMAL_TRANSACTIONS_PER_BLOCK" "list_all (tx_authentic cr) txs"
  shows "validate_block_field_sizes
    (make_block cr chain t w (txs @ [new_coinbase cr (w_address w) reward marker])) = Inr ()"
proof -
  let ?txs = "txs @ [new_coinbase cr (w_address w) reward marker]"
  let ?b = "make_block cr chain t w ?txs"
  have sha: "sha256_spec cr"
    using cr by (simp add: crypto_spec_def)
  have "blk_index ?b \<noteq> 0"
    using chain(1,2) word_of_nat64_inject[of "length chain" 0] by simp
  moreover have "is_fixed_hex (blk_hash ?b) HASH_HEX_LENGTH"
    using calculate_hash_fixed_hex[OF sha] by simp
  moreover have "list_ex (\<lambda>tx. \<not> tx_coinbase tx) ?txs"
    using txs(1,3) by (cases txs) (simp_all add: tx_authentic_def)
  moreover have "try_fold (\<lambda>_. validate_transaction_field_sizes) () ?txs = Inr ()"
    using txs(3) coinbase_field_sizes[OF sha wallet_texts_fixed_hex(1)[OF cr w]]
    by (auto simp: try_fold_unit list_all_iff authentic_field_sizes)
  moreover have "length ?txs \<le> MAX_TOTAL_TRANSACTIONS_PER_BLOCK"
    using txs(2) by (simp add: MAX_TOTAL_TRANSACTIONS_PER_BLOCK_def)
  ultimately show ?thesis
    using chain(3) wallet_texts_fixed_hex[OF cr w]
    by (simp add: validate_block_field_sizes_def)
qed

lemma something_taken:
  assumes "take_valid_transactions mp st = (mp', txs)" and "total_balance st < 2 ^ 64"
    and "mempool_wf cr mp" and "tx \<in> set (mp_transactions mp)" and "accepts st tx"
  shows "txs \<noteq> []"
proof
  assume none: "txs = []"
  note taken = take_valid_transactions_contract[OF assms(1,2) mempool_wf_ordinary[OF assms(3)]]
  have "set (mp_transactions mp') = set (mp_transactions mp)"
    using taken(2) none by (metis add_0 mset.simps(1) set_mset_mset)
  then show False
    using taken(1) none assms(4,5) by (auto simp: MAX_NORMAL_TRANSACTIONS_PER_BLOCK_def)
qed

section \<open>Production goes through\<close>

text \<open>
  A transaction that can be applied now is pending, and every pending transaction carries a fee
  the economy takes; no identifier of the new block is in use.
\<close>

definition pool_ready :: "mempool \<Rightarrow> state \<Rightarrow> economy \<Rightarrow> bool" where
  "pool_ready mp st e \<longleftrightarrow>
     (\<exists>tx\<in>set (mp_transactions mp). accepts st tx) \<and>
     (\<forall>tx\<in>set (mp_transactions mp). validate_fee e (tx_amount tx) (tx_fee tx))"

definition ids_unused :: "crypto \<Rightarrow> blockchain \<Rightarrow> wallet \<Rightarrow> mempool \<Rightarrow> bool" where
  "ids_unused cr bc w mp \<longleftrightarrow>
     (let coinbase = new_coinbase cr (w_address w) (ec_block_reward (bc_economy bc))
            (word_of_nat (length (bc_chain bc)))
      in tx_id ` set (mp_transactions mp) \<inter> chain_ids (bc_chain bc) = {} \<and>
         tx_id coinbase \<notin> chain_ids (bc_chain bc) \<union> tx_id ` set (mp_transactions mp))"

lemma create_block_ok:
  assumes cr: "crypto_spec cr" and w: "wallet_wf cr w"
    and books: "books_balanced st (bc_economy bc)" and wf: "mempool_wf cr mp"
    and chain: "bc_chain bc \<noteq> []" "length (bc_chain bc) < 2 ^ 64"
      "is_fixed_hex (blk_hash (last (bc_chain bc))) HASH_HEX_LENGTH"
    and time: "blk_timestamp (last (bc_chain bc)) < t" "validate_future_timestamp clock t = Inr ()"
    and ready: "pool_ready mp st (bc_economy bc)" and fresh: "ids_unused cr bc w mp"
    and supply_left: "unat (ec_total_supply (bc_economy bc)) + unat (ec_block_reward (bc_economy bc)) \<le>
      unat (ec_max_supply (bc_economy bc))"
  shows "\<exists>bc' mp' st' b. create_block_from_mempool cr clock bc t w mp st = Inr (bc', mp', st', b)"
proof -
  let ?cb = "new_coinbase cr (w_address w) (ec_block_reward (bc_economy bc)) (word_of_nat (length (bc_chain bc)))"
  note bound = books_balanced_bound[OF books]
  obtain rest txs where take: "take_valid_transactions mp st = (rest, txs)"
    by fastforce
  note taken = take_valid_transactions_contract[OF take bound mempool_wf_ordinary[OF wf]]
    take_valid_transactions_wf[OF take bound wf]
  have sub: "set txs \<subseteq> set (mp_transactions mp)"
    using taken(2) by (metis mset_subset_eq_add_left set_mset_mono set_mset_mset)
  have ids: "distinct (map tx_id txs)"
    using wf taken(2) distinct_map_mset_subset[of tx_id "mp_transactions mp" txs]
    by (metis mempool_wf_def mset_subset_eq_add_left)
  have ne: "txs \<noteq> []"
    using ready something_taken[OF take bound wf] by (auto simp: pool_ready_def)
  obtain s1 where s1: "replay apply_transaction st txs = Inr s1"
    using taken(1) by blast
  have "list_all (\<lambda>tx. \<not> tx_coinbase tx) txs"
    using taken(5) by (auto simp: list_all_iff tx_authentic_def)
  moreover have "list_all (\<lambda>tx. validate_fee (bc_economy bc) (tx_amount tx) (tx_fee tx)) txs"
    using ready sub by (auto simp: pool_ready_def list_all_iff)
  ultimately obtain s2 e' where exec: "execute_transactions cr bc w txs st = Inr (s2, e', txs @ [?cb])"
    using execute_transactions_ok[OF books s1 _ _ supply_left] by blast
  let ?b = "make_block cr (bc_chain bc) t w (txs @ [?cb])"
  have "validate_block_field_sizes ?b = Inr ()"
    using made_block_sizes[OF cr w chain ne taken(3,5)] .
  moreover have "validate_transaction_id_uniqueness bc ?b = Inr ()"
    using fresh sub ids by (auto simp: uniqueness_Inr ids_unused_def Let_def)
  moreover have "\<not> mempool_is_empty mp"
    using ready by (auto simp: mempool_is_empty_def pool_ready_def)
  ultimately show ?thesis
    using chain(1) time take ne exec
    by (simp add: create_block_from_mempool_def last_block_def Let_def not_le)
qed

lemma valid_tip_hash:
  assumes "is_valid cr bc" and "bc_chain bc \<noteq> []"
  shows "is_fixed_hex (blk_hash (last (bc_chain bc))) HASH_HEX_LENGTH"
proof -
  have "bc_chain bc = butlast (bc_chain bc) @ [last (bc_chain bc)]"
    using assms(2) by simp
  then have "block_ok cr (length (butlast (bc_chain bc))) (last (bc_chain bc))"
    using assms(1) unfolding is_valid_iff by blast
  then show ?thesis
    by (auto simp: block_ok_def validate_block_field_sizes_def is_ok_iff result_simps)
qed

lemma chain_length_below_supply:
  assumes wf: "node_wf cr nd"
    and supply_left: "unat (ec_total_supply (bc_economy (nd_blockchain nd))) +
      unat (ec_block_reward (bc_economy (nd_blockchain nd))) \<le> unat (ec_max_supply e)"
  shows "length (bc_chain (nd_blockchain nd)) < 2 ^ 64"
proof -
  let ?n = "length (bc_chain (nd_blockchain nd))" and ?r = "unat (ec_block_reward (nd_genesis_economy nd))"
  have rebuilt: "rebuilds cr nd (bc_chain (nd_blockchain nd)) (nd_blockchain nd, nd_state nd)"
    and genesis: "books_balanced (nd_genesis_state nd) (nd_genesis_economy nd)"
    and reward: "?r \<noteq> 0"
    using wf by (simp_all add: node_wf_def unat_eq_zero)
  note facts = rebuilds_facts[OF rebuilt genesis]
  have "(?n - 1) * ?r + ?r \<le> unat (ec_max_supply e)"
    using supply_left facts(3) settings_fields(2)[OF facts(2)] by simp
  moreover have "unat (ec_max_supply e) < 2 ^ 64"
    by (rule order_less_le_trans[OF unsigned_less]) simp
  moreover have "?n - 1 \<le> (?n - 1) * ?r" "1 \<le> ?r"
    using reward by simp_all
  ultimately show ?thesis
    by linarith
qed

lemma produce_block_ok:
  assumes cr: "crypto_spec (pf_crypto pf)" and w: "wallet_wf (pf_crypto pf) w"
    and wf: "node_wf (pf_crypto pf) nd" and valid: "is_valid (pf_crypto pf) (nd_blockchain nd)"
    and selected: "is_validator_allowed (nd_consensus nd) (w_address w)"
      "node_select_validator pf nd (blk_hash (last (bc_chain (nd_blockchain nd)))) = Inr (Some (w_address w))"
    and time: "blk_timestamp (last (bc_chain (nd_blockchain nd))) < t"
      "validate_future_timestamp (ef_clock ef 0) t = Inr ()"
    and ready: "pool_ready (nd_mempool nd) (nd_state nd) (bc_economy (nd_blockchain nd))"
    and fresh: "ids_unused (pf_crypto pf) (nd_blockchain nd) w (nd_mempool nd)"
    and supply_left: "unat (ec_total_supply (bc_economy (nd_blockchain nd))) +
      unat (ec_block_reward (bc_economy (nd_blockchain nd))) \<le>
      unat (ec_max_supply (bc_economy (nd_blockchain nd)))"
    and disk: "\<And>chain. chain \<noteq> [] \<Longrightarrow> \<exists>fs'. node_save pf ef fs nd chain = (fs', Inr ())"
  shows "\<exists>fs' nd' b. produce_block pf ef fs nd t w = (fs', nd', Inr b) \<and>
    bc_chain (nd_blockchain nd') = bc_chain (nd_blockchain nd) @ [b] \<and> blk_validator b = w_address w"
proof -
  let ?bc = "nd_blockchain nd"
  note ne = node_wf_chain[OF wf]
  have mp: "mempool_wf (pf_crypto pf) (nd_mempool nd)"
    using wf by (simp add: node_wf_def)
  obtain bc' mp' st' b where
    create: "create_block_from_mempool (pf_crypto pf) (ef_clock ef 0) ?bc t w (nd_mempool nd) (nd_state nd) =
      Inr (bc', mp', st', b)"
    using create_block_ok[OF cr w node_wf_books[OF wf] mp ne chain_length_below_supply[OF wf supply_left]
        valid_tip_hash[OF valid ne] time ready fresh supply_left] by blast
  have b: "bc_chain bc' = bc_chain ?bc @ [b]" "blk_validator b = w_address w"
    by (rule create_block_Inr[OF create]; simp)+
  obtain fs' where "node_save pf ef fs nd (bc_chain bc') = (fs', Inr ())"
    using disk[of "bc_chain bc'"] b(1) by auto
  moreover obtain v where "select_validator_from_hash (pf_crypto pf) (nd_consensus nd)
      (blk_hash (last (bc_chain ?bc))) = Inr (Some v)" "val_address v = w_address w"
    using selected(2) by (auto simp: node_select_validator_def result_simps)
  ultimately show ?thesis
    using selected(1) ne create b by (simp add: produce_block_def last_block_def)
qed

end
