(* ===== verification/Bootstrap.thy ===== *)
theory Bootstrap
  imports Node_Transfer
begin

text \<open>
  \<open>src/bootstrap.rs\<close>: the canonical configuration of the genesis, its fingerprint, and the
  blockchain, state and validators a node starts from. The lemmas show that any configuration
  that passes the checks gives balanced books, that the canonical one passes, and that a
  fresh node on it satisfies the invariant of the node.
\<close>

record genesis_validator_configuration =
  gv_address :: string
  gv_stake :: u64

record genesis_allocation =
  ga_address :: string
  ga_balance :: u64

record genesis_configuration =
  gc_network_id :: string
  gc_network_protocol_version :: u32
  gc_timestamp :: u64
  gc_validators :: "genesis_validator_configuration list"
  gc_allocations :: "genesis_allocation list"
  gc_genesis_supply :: u64
  gc_max_supply :: u64
  gc_block_reward :: u64
  gc_minimum_fee :: u64
  gc_fee_divisor :: u64
  gc_validator_fee_percent :: u64
  gc_liquidity_fee_percent :: u64
  gc_treasury_fee_percent :: u64
  gc_burn_fee_percent :: u64
  gc_initial_liquidity_reserve :: u64
  gc_initial_treasury_balance :: u64
  gc_initial_burned_amount :: u64

record bootstrap_outcome =
  cb_blockchain :: blockchain
  cb_state :: state
  cb_consensus :: consensus
  cb_genesis_fingerprint :: string

definition GENESIS_FINGERPRINT_DOMAIN :: string where
  "GENESIS_FINGERPRINT_DOMAIN = ''KYBERNETES_GENESIS_CONFIG_V1''"

definition canonical_genesis_configuration :: genesis_configuration where
  "canonical_genesis_configuration =
     (let economy = economy_new in \<lparr>
       gc_network_id = NETWORK_ID,
       gc_network_protocol_version = NETWORK_PROTOCOL_VERSION,
       gc_timestamp = GENESIS_TIMESTAMP,
       gc_validators =
         [\<lparr>gv_address = GENESIS_VALIDATOR_A_ADDRESS, gv_stake = GENESIS_VALIDATOR_A_STAKE\<rparr>,
          \<lparr>gv_address = GENESIS_VALIDATOR_B_ADDRESS, gv_stake = GENESIS_VALIDATOR_B_STAKE\<rparr>],
       gc_allocations =
         [\<lparr>ga_address = GENESIS_VALIDATOR_A_ADDRESS,
           ga_balance = GENESIS_VALIDATOR_A_ALLOCATION_MICRO_KBN\<rparr>,
          \<lparr>ga_address = GENESIS_VALIDATOR_B_ADDRESS,
           ga_balance = GENESIS_VALIDATOR_B_ALLOCATION_MICRO_KBN\<rparr>],
       gc_genesis_supply = GENESIS_SUPPLY_MICRO_KBN,
       gc_max_supply = ec_max_supply economy,
       gc_block_reward = ec_block_reward economy,
       gc_minimum_fee = ec_minimum_fee economy,
       gc_fee_divisor = ec_fee_divisor economy,
       gc_validator_fee_percent = ec_validator_fee_percent economy,
       gc_liquidity_fee_percent = ec_liquidity_fee_percent economy,
       gc_treasury_fee_percent = ec_treasury_fee_percent economy,
       gc_burn_fee_percent = ec_burn_fee_percent economy,
       gc_initial_liquidity_reserve = ec_liquidity_reserve economy,
       gc_initial_treasury_balance = 0,
       gc_initial_burned_amount = 0\<rparr>)"

section \<open>The fingerprint\<close>

text \<open>Lengths are \<open>usize\<close> values, which a 64-bit \<open>u64::try_from\<close> never refuses.\<close>

definition genesis_append_string :: "byte list \<Rightarrow> string \<Rightarrow> byte list" where
  "genesis_append_string buffer v =
     buffer @ to_be_bytes (word_of_nat (length v) :: u64) @ as_bytes v"

definition append_count :: "byte list \<Rightarrow> nat \<Rightarrow> byte list" where
  "append_count buffer n = buffer @ to_be_bytes (word_of_nat n :: u64)"

text \<open>\<open>Ord\<close> for strings: the bytes in lexicographic order. \<open>sort_by\<close> is a stable sort.\<close>

fun string_le :: "string \<Rightarrow> string \<Rightarrow> bool" where
  "string_le [] t = True"
| "string_le (c # s) [] = False"
| "string_le (c # s) (d # t) =
     (if byte_of c < byte_of d then True else if byte_of d < byte_of c then False else string_le s t)"

fun insert_allocation :: "genesis_allocation \<Rightarrow> genesis_allocation list \<Rightarrow> genesis_allocation list" where
  "insert_allocation a [] = [a]"
| "insert_allocation a (b # bs) =
     (if string_le (ga_address a) (ga_address b) then a # b # bs else b # insert_allocation a bs)"

definition sort_allocations :: "genesis_allocation list \<Rightarrow> genesis_allocation list" where
  "sort_allocations as = foldr insert_allocation as []"

definition genesis_canonical_bytes :: "genesis_configuration \<Rightarrow> byte list" where
  "genesis_canonical_bytes gc =
     (let canonical = genesis_append_string [] GENESIS_FINGERPRINT_DOMAIN;
          canonical = genesis_append_string canonical (gc_network_id gc);
          canonical = canonical @ to_be_bytes (gc_network_protocol_version gc);
          canonical = canonical @ to_be_bytes (gc_timestamp gc);
          canonical = append_count canonical (length (gc_validators gc));
          canonical = foldl (\<lambda>buffer v. genesis_append_string buffer (gv_address v) @
                               to_be_bytes (gv_stake v)) canonical (gc_validators gc);
          allocations = sort_allocations (gc_allocations gc);
          canonical = append_count canonical (length allocations);
          canonical = foldl (\<lambda>buffer a. genesis_append_string buffer (ga_address a) @
                               to_be_bytes (ga_balance a)) canonical allocations
      in foldl (\<lambda>buffer v. buffer @ to_be_bytes v) canonical
           [gc_genesis_supply gc, gc_max_supply gc, gc_block_reward gc, gc_minimum_fee gc,
            gc_fee_divisor gc, gc_validator_fee_percent gc, gc_liquidity_fee_percent gc,
            gc_treasury_fee_percent gc, gc_burn_fee_percent gc, gc_initial_liquidity_reserve gc,
            gc_initial_treasury_balance gc, gc_initial_burned_amount gc])"

definition genesis_configuration_fingerprint :: "crypto \<Rightarrow> genesis_configuration \<Rightarrow> string" where
  "genesis_configuration_fingerprint cr gc =
     fmt_lower_hex cr (sha256 cr (genesis_canonical_bytes gc))"

definition genesis_block :: "crypto \<Rightarrow> genesis_configuration \<Rightarrow> string \<Rightarrow> block" where
  "genesis_block cr gc fingerprint =
     block_new cr 0 (gc_timestamp gc) GENESIS_PREVIOUS_HASH GENESIS_VALIDATOR fingerprint []"

section \<open>Building\<close>

definition check_fee_percentages :: "genesis_configuration \<Rightarrow> unit result" where
  "check_fee_percentages gc =
     and_then (ok_or
       (Option.bind (checked_add (gc_validator_fee_percent gc) (gc_liquidity_fee_percent gc)) (\<lambda>p.
        Option.bind (checked_add p (gc_treasury_fee_percent gc)) (\<lambda>p.
        checked_add p (gc_burn_fee_percent gc))))
       (Bootstrap_error Fee_percent_overflow))
       (\<lambda>configured_fee_percent.
          if configured_fee_percent \<noteq> 100 then Inl (Bootstrap_error Fee_percent_invalid) else Inr ())"

definition add_allocation :: "u64 \<Rightarrow> genesis_allocation \<Rightarrow> u64 result" where
  "add_allocation acc a = ok_or (checked_add acc (ga_balance a)) (Bootstrap_error Allocation_overflow)"

definition add_genesis_validator ::
  "consensus \<Rightarrow> genesis_validator_configuration \<Rightarrow> consensus result" where
  "add_genesis_validator co v =
     (case add_validator co (gv_address v) (gv_stake v) of
        (co, ok) \<Rightarrow> if \<not> ok then Inl (Bootstrap_error Genesis_validator_not_added) else Inr co)"

definition create_allocation :: "state \<Rightarrow> genesis_allocation \<Rightarrow> state result" where
  "create_allocation st a =
     (if fmlookup (st_accounts st) (ga_address a) \<noteq> None
      then Inl (Bootstrap_error Allocation_duplicated)
      else Inr (create_account st (ga_address a) (ga_balance a)))"

definition configured_economy :: "genesis_configuration \<Rightarrow> economy \<Rightarrow> economy" where
  "configured_economy gc e = e\<lparr>
     ec_max_supply := gc_max_supply gc,
     ec_block_reward := gc_block_reward gc,
     ec_minimum_fee := gc_minimum_fee gc,
     ec_fee_divisor := gc_fee_divisor gc,
     ec_validator_fee_percent := gc_validator_fee_percent gc,
     ec_liquidity_fee_percent := gc_liquidity_fee_percent gc,
     ec_treasury_fee_percent := gc_treasury_fee_percent gc,
     ec_burn_fee_percent := gc_burn_fee_percent gc,
     ec_liquidity_reserve := gc_initial_liquidity_reserve gc\<rparr>"

definition build_bootstrap :: "crypto \<Rightarrow> genesis_configuration \<Rightarrow> bootstrap_outcome result" where
  "build_bootstrap cr gc =
     (if gc_fee_divisor gc = 0 then Inl (Bootstrap_error Fee_divisor_zero)
      else and_then (check_fee_percentages gc) (\<lambda>_.
           and_then (try_fold add_allocation 0 (gc_allocations gc)) (\<lambda>allocated_supply.
           if allocated_supply \<noteq> gc_genesis_supply gc
           then Inl (Bootstrap_error Allocation_not_supply)
           else and_then (try_fold add_genesis_validator consensus_new (gc_validators gc)) (\<lambda>co.
                and_then (try_fold create_allocation state_new (gc_allocations gc)) (\<lambda>st.
                let st = st\<lparr>st_treasury_balance := gc_initial_treasury_balance gc,
                            st_burned_amount := gc_initial_burned_amount gc\<rparr>;
                    fingerprint = genesis_configuration_fingerprint cr gc;
                    genesis = genesis_block cr gc fingerprint;
                    bc = blockchain_new genesis;
                    e = configured_economy gc (bc_economy bc)
                in and_then (mint e (gc_genesis_supply gc)) (\<lambda>e.
                     Inr \<lparr>cb_blockchain = bc\<lparr>bc_economy := e\<rparr>, cb_state = st, cb_consensus = co,
                          cb_genesis_fingerprint = fingerprint\<rparr>))))))"

definition canonical_bootstrap :: "crypto \<Rightarrow> bootstrap_outcome result" where
  "canonical_bootstrap cr = build_bootstrap cr canonical_genesis_configuration"

section \<open>The fingerprint determines the configuration\<close>

lemma genesis_append_string_frame: "genesis_append_string buffer v = buffer @ frame (as_bytes v)"
  by (simp add: genesis_append_string_def frame_def append_bytes_def)

interpretation genesis_validator_code: prefix_code
  "\<lambda>v :: genesis_validator_configuration. frame (as_bytes (gv_address v)) @ to_be_bytes (gv_stake v)"
  "\<lambda>v. fits (gv_address v)"
  by unfold_locales (auto simp: framed.decode_front be64.decode_front be64.injective
      intro!: genesis_validator_configuration.equality genesis_allocation.equality)

interpretation genesis_allocation_code: prefix_code
  "\<lambda>a :: genesis_allocation. frame (as_bytes (ga_address a)) @ to_be_bytes (ga_balance a)"
  "\<lambda>a. fits (ga_address a)"
  by unfold_locales (auto simp: framed.decode_front be64.decode_front be64.injective
      intro!: genesis_validator_configuration.equality genesis_allocation.equality)

definition configuration_numbers :: "genesis_configuration \<Rightarrow> u64 list" where
  "configuration_numbers gc =
     [gc_genesis_supply gc, gc_max_supply gc, gc_block_reward gc, gc_minimum_fee gc,
      gc_fee_divisor gc, gc_validator_fee_percent gc, gc_liquidity_fee_percent gc,
      gc_treasury_fee_percent gc, gc_burn_fee_percent gc, gc_initial_liquidity_reserve gc,
      gc_initial_treasury_balance gc, gc_initial_burned_amount gc]"

lemma foldl_append_map: "foldl (\<lambda>buffer x. buffer @ f x) buffer xs = buffer @ concat (map f xs)"
  by (induction xs arbitrary: buffer) simp_all

lemma genesis_canonical_bytes_frames:
  "genesis_canonical_bytes gc =
     frame (as_bytes GENESIS_FINGERPRINT_DOMAIN) @ frame (as_bytes (gc_network_id gc)) @
     to_be_bytes (gc_network_protocol_version gc) @ to_be_bytes (gc_timestamp gc) @
     to_be_bytes (word_of_nat (length (gc_validators gc)) :: u64) @
     concat (map (\<lambda>v. frame (as_bytes (gv_address v)) @ to_be_bytes (gv_stake v)) (gc_validators gc)) @
     to_be_bytes (word_of_nat (length (sort_allocations (gc_allocations gc))) :: u64) @
     concat (map (\<lambda>a. frame (as_bytes (ga_address a)) @ to_be_bytes (ga_balance a))
       (sort_allocations (gc_allocations gc))) @
     concat (map to_be_bytes (configuration_numbers gc))"
  by (simp add: genesis_canonical_bytes_def genesis_append_string_frame append_count_def
      configuration_numbers_def foldl_append_map[where f = "\<lambda>v. frame (as_bytes (gv_address v)) @ to_be_bytes (gv_stake v)"]
      foldl_append_map[where f = "\<lambda>a. frame (as_bytes (ga_address a)) @ to_be_bytes (ga_balance a)"] Let_def)

lemma insert_allocation_mset: "mset (insert_allocation a bs) = mset bs + {#a#}"
  by (induction bs) auto

lemma sort_allocations_mset: "mset (sort_allocations as) = mset as"
  by (induction as) (simp_all add: sort_allocations_def insert_allocation_mset)

lemma sort_allocations_set: "set (sort_allocations as) = set as" "length (sort_allocations as) = length as"
  using sort_allocations_mset[of as] by (metis set_mset_mset, metis size_mset)

definition configuration_fits :: "genesis_configuration \<Rightarrow> bool" where
  "configuration_fits gc \<longleftrightarrow> fits (gc_network_id gc) \<and> fits (gc_validators gc) \<and>
     fits (gc_allocations gc) \<and> list_all (\<lambda>v. fits (gv_address v)) (gc_validators gc) \<and>
     list_all (\<lambda>a. fits (ga_address a)) (gc_allocations gc)"

lemma genesis_canonical_bytes_unique:
  assumes fits: "configuration_fits gc" "configuration_fits gc'"
    and eq: "genesis_canonical_bytes gc = genesis_canonical_bytes gc'"
  shows "gc_network_id gc = gc_network_id gc' \<and>
    gc_network_protocol_version gc = gc_network_protocol_version gc' \<and>
    gc_timestamp gc = gc_timestamp gc' \<and> gc_validators gc = gc_validators gc' \<and>
    sort_allocations (gc_allocations gc) = sort_allocations (gc_allocations gc') \<and>
    configuration_numbers gc = configuration_numbers gc'"
proof -
  let ?v = "\<lambda>v. frame (as_bytes (gv_address v)) @ to_be_bytes (gv_stake v)"
  let ?a = "\<lambda>a. frame (as_bytes (ga_address a)) @ to_be_bytes (ga_balance a)"
  let ?as = "sort_allocations (gc_allocations gc)" and ?as' = "sort_allocations (gc_allocations gc')"
  have front: "gc_network_id gc = gc_network_id gc'"
    "gc_network_protocol_version gc = gc_network_protocol_version gc'"
    "gc_timestamp gc = gc_timestamp gc'"
    "(word_of_nat (length (gc_validators gc)) :: u64) = word_of_nat (length (gc_validators gc'))"
    and rest: "concat (map ?v (gc_validators gc)) @
      (to_be_bytes (word_of_nat (length ?as) :: u64) @ concat (map ?a ?as) @
       concat (map to_be_bytes (configuration_numbers gc))) =
      concat (map ?v (gc_validators gc')) @
      (to_be_bytes (word_of_nat (length ?as') :: u64) @ concat (map ?a ?as') @
       concat (map to_be_bytes (configuration_numbers gc')))"
    using eq fits unfolding genesis_canonical_bytes_frames
    by (simp_all add: framed.decode_front be32.injective be64.injective configuration_fits_def)
  have "length (gc_validators gc) = length (gc_validators gc')"
    by (rule fits_length_word) (use fits front(4) in \<open>simp_all add: configuration_fits_def\<close>)
  then have validators: "gc_validators gc = gc_validators gc'"
    and rest2: "to_be_bytes (word_of_nat (length ?as) :: u64) @ concat (map ?a ?as) @
       concat (map to_be_bytes (configuration_numbers gc)) =
      to_be_bytes (word_of_nat (length ?as') :: u64) @ concat (map ?a ?as') @
       concat (map to_be_bytes (configuration_numbers gc'))"
    using genesis_validator_code.decode_sequence[OF _ _ _ rest] fits
    by (auto simp: configuration_fits_def list_all_iff)
  have count: "(word_of_nat (length ?as) :: u64) = word_of_nat (length ?as')"
    and rest3: "concat (map ?a ?as) @ concat (map to_be_bytes (configuration_numbers gc)) =
      concat (map ?a ?as') @ concat (map to_be_bytes (configuration_numbers gc'))"
    using rest2 unfolding be64.decode_front[OF TrueI TrueI] by blast+
  have "length (gc_allocations gc) = length (gc_allocations gc')"
    by (rule fits_length_word)
      (use fits count in \<open>simp_all add: configuration_fits_def sort_allocations_set\<close>)
  then have allocations: "?as = ?as'"
    and numbers: "concat (map to_be_bytes (configuration_numbers gc)) @ [] =
      concat (map to_be_bytes (configuration_numbers gc')) @ []"
    using genesis_allocation_code.decode_sequence[OF _ _ _ rest3] fits
    by (auto simp: configuration_fits_def list_all_iff sort_allocations_set)
  have "configuration_numbers gc = configuration_numbers gc'"
    using be64.decode_sequence[OF _ _ _ numbers] by (simp add: configuration_numbers_def)
  with front validators allocations show ?thesis by blast
qed

lemma genesis_fingerprint_unique:
  assumes "sha256_spec cr" and "configuration_fits gc" and "configuration_fits gc'"
    and "genesis_configuration_fingerprint cr gc = genesis_configuration_fingerprint cr gc'"
  shows "(gc_network_id gc = gc_network_id gc' \<and>
      gc_network_protocol_version gc = gc_network_protocol_version gc' \<and>
      gc_timestamp gc = gc_timestamp gc' \<and> gc_validators gc = gc_validators gc' \<and>
      mset (gc_allocations gc) = mset (gc_allocations gc') \<and>
      configuration_numbers gc = configuration_numbers gc') \<or>
    sha256_collision cr (genesis_canonical_bytes gc) (genesis_canonical_bytes gc')"
proof (cases "genesis_canonical_bytes gc = genesis_canonical_bytes gc'")
  case True
  from genesis_canonical_bytes_unique[OF assms(2,3) this] sort_allocations_mset
  show ?thesis by metis
next
  case False
  then show ?thesis
    using assms(1,4) by (auto simp: genesis_configuration_fingerprint_def sha256_spec_def sha256_collision_def)
qed

section \<open>What a node starts from\<close>

lemma add_allocations_Inr:
  "try_fold add_allocation acc as = Inr n \<Longrightarrow> unat n = unat acc + sum_list (map (\<lambda>a. unat (ga_balance a)) as)"
proof (induction as arbitrary: acc)
  case Nil
  then show ?case by simp
next
  case (Cons a as)
  then obtain m where m: "add_allocation acc a = Inr m" "try_fold add_allocation m as = Inr n"
    by (auto simp: and_then_Inr)
  have "checked_add acc (ga_balance a) = Some m"
    using m(1) by (simp add: add_allocation_def result_simps)
  with Cons.IH[OF m(2)] show ?case
    by (auto dest: unat_checked_add)
qed

lemma create_allocations_Inr:
  "try_fold create_allocation st as = Inr st' \<Longrightarrow>
     total_balance st' = total_balance st + sum_list (map (\<lambda>a. unat (ga_balance a)) as)"
proof (induction as arbitrary: st)
  case Nil
  then show ?case by simp
next
  case (Cons a as)
  then obtain s1 where s1: "create_allocation st a = Inr s1" "try_fold create_allocation s1 as = Inr st'"
    by (auto simp: and_then_Inr)
  then have new: "fmlookup (st_accounts st) (ga_address a) = None"
    and s1_eq: "s1 = create_account st (ga_address a) (ga_balance a)"
    by (auto simp: create_allocation_def split: if_splits)
  note rest = s1(2)[unfolded s1_eq]
  have "balance_of st (ga_address a) = 0"
    using new by (simp add: balance_of_def)
  then have "total_balance (create_account st (ga_address a) (ga_balance a)) =
      total_balance st + unat (ga_balance a)"
    using total_balance_upd[of "ga_address a" "\<lparr>acc_balance = ga_balance a, acc_nonce = 0\<rparr>" st]
    by (simp add: create_account_def)
  with Cons.IH[OF rest] show ?case by simp
qed

lemma add_genesis_validators_wf:
  assumes "try_fold add_genesis_validator co vs = Inr co'" and "consensus_wf co"
  shows "consensus_wf co'"
proof (rule try_fold_invariant[where P = consensus_wf, OF assms])
  fix co v co'
  assume "consensus_wf co" and "add_genesis_validator co v = Inr co'"
  then show "consensus_wf co'"
    using add_validator_wf[of co "gv_address v" "gv_stake v"]
    by (auto simp: add_genesis_validator_def split: prod.splits if_splits)
qed

lemma check_fee_percentages_shares:
  "check_fee_percentages gc = Inr () \<Longrightarrow> shares_ok (configured_economy gc e)"
  by (auto simp: check_fee_percentages_def shares_ok_def configured_economy_def bind_eq_Some_conv
      result_simps dest!: unat_checked_add)

lemma build_bootstrap_Inr:
  assumes "build_bootstrap cr gc = Inr cb"
  obtains st0 e where
    "try_fold create_allocation state_new (gc_allocations gc) = Inr st0"
    "try_fold add_allocation 0 (gc_allocations gc) = Inr (gc_genesis_supply gc)"
    "try_fold add_genesis_validator consensus_new (gc_validators gc) = Inr (cb_consensus cb)"
    "check_fee_percentages gc = Inr ()"
    "mint (configured_economy gc economy_new) (gc_genesis_supply gc) = Inr e"
    "cb_state cb = st0\<lparr>st_treasury_balance := gc_initial_treasury_balance gc,
       st_burned_amount := gc_initial_burned_amount gc\<rparr>"
    "cb_genesis_fingerprint cb = genesis_configuration_fingerprint cr gc"
    "cb_blockchain cb =
       \<lparr>bc_chain = [genesis_block cr gc (cb_genesis_fingerprint cb)], bc_economy = e\<rparr>"
  using assms by (auto simp: build_bootstrap_def blockchain_new_def Let_def result_simps)

text \<open>
  The check on the allocations covers the accounts only: coins that a configuration puts into
  the treasury or the liquidity reserve from the start would not be part of the supply.
\<close>

lemma build_bootstrap_books:
  assumes build: "build_bootstrap cr gc = Inr cb"
    and none: "gc_initial_treasury_balance gc = 0" "gc_initial_liquidity_reserve gc = 0"
  shows "books_balanced (cb_state cb) (bc_economy (cb_blockchain cb))" and "consensus_wf (cb_consensus cb)"
proof -
  obtain st0 e where st0: "try_fold create_allocation state_new (gc_allocations gc) = Inr st0"
    and allocated: "try_fold add_allocation 0 (gc_allocations gc) = Inr (gc_genesis_supply gc)"
    and validators: "try_fold add_genesis_validator consensus_new (gc_validators gc) = Inr (cb_consensus cb)"
    and percent: "check_fee_percentages gc = Inr ()"
    and mint: "mint (configured_economy gc economy_new) (gc_genesis_supply gc) = Inr e"
    and st: "cb_state cb = st0\<lparr>st_treasury_balance := gc_initial_treasury_balance gc,
       st_burned_amount := gc_initial_burned_amount gc\<rparr>"
    and bc: "cb_blockchain cb =
       \<lparr>bc_chain = [genesis_block cr gc (cb_genesis_fingerprint cb)], bc_economy = e\<rparr>"
    by (rule build_bootstrap_Inr[OF build])
  note e = mint_Inr[OF mint]
  have "ec_liquidity_reserve e = 0" "settings e = settings (configured_economy gc economy_new)"
    "ec_total_supply (configured_economy gc economy_new) = 0"
    using e none by (simp_all add: configured_economy_def economy_new_def settings_def)
  moreover have "total_balance (cb_state cb) = unat (gc_genesis_supply gc)"
    using create_allocations_Inr[OF st0] add_allocations_Inr[OF allocated]
    by (simp add: st total_balance_def state_new_def)
  moreover have "shares_ok e"
    using check_fee_percentages_shares[OF percent] settings_fields(3) calculation(2) by blast
  ultimately show "books_balanced (cb_state cb) (bc_economy (cb_blockchain cb))"
    using e none by (elim conjE) (simp add: books_balanced_def money_def bc st)
  show "consensus_wf (cb_consensus cb)"
    by (rule add_genesis_validators_wf[OF validators]) simp
qed

lemma genesis_block_valid:
  assumes "sha256_spec cr"
  shows "is_valid cr \<lparr>bc_chain = [genesis_block cr gc (genesis_configuration_fingerprint cr gc)], bc_economy = e\<rparr>"
proof -
  let ?b = "genesis_block cr gc (genesis_configuration_fingerprint cr gc)"
  have "is_fixed_hex (genesis_configuration_fingerprint cr gc) HASH_HEX_LENGTH"
    using assms by (simp add: genesis_configuration_fingerprint_def sha256_spec_def lower_hex_of_fixed hex_lengths)
  moreover have "is_fixed_hex (blk_hash ?b) HASH_HEX_LENGTH" "blk_hash ?b = calculate_hash cr ?b"
    using calculate_hash_fixed_hex[OF assms] by (simp_all add: genesis_block_def)
  ultimately have "block_ok cr 0 ?b" "follows cr [] ?b"
    by (simp_all add: block_ok_def follows_def validate_block_field_sizes_def genesis_block_def
        special_names)
  then show ?thesis
    using is_valid_snoc[of "\<lparr>bc_chain = [?b], bc_economy = e\<rparr>" "\<lparr>bc_chain = [], bc_economy = e\<rparr>" ?b cr]
    by (simp add: is_valid_iff genesis_block_def)
qed

lemma fresh_node_wf:
  assumes "books_balanced st (bc_economy bc)" and "bc_chain bc = [g]"
    and "ec_block_reward (bc_economy bc) \<noteq> 0"
  shows "node_wf cr (node_new_with_data_directory bc st co dir)"
  using assms
  by (cases bc) (simp add: node_wf_def node_new_with_data_directory_def rebuilds_def replay_chain_def
      blockchain_new_def)

lemma genesis_validators_distinct: "GENESIS_VALIDATOR_A_ADDRESS \<noteq> GENESIS_VALIDATOR_B_ADDRESS"
  by (simp add: GENESIS_VALIDATOR_A_ADDRESS_def GENESIS_VALIDATOR_B_ADDRESS_def)

lemmas genesis_numbers = GENESIS_SUPPLY_MICRO_KBN_def GENESIS_VALIDATOR_A_ALLOCATION_MICRO_KBN_def
  GENESIS_VALIDATOR_B_ALLOCATION_MICRO_KBN_def GENESIS_VALIDATOR_A_STAKE_def
  GENESIS_VALIDATOR_B_STAKE_def MAX_SUPPLY_MICRO_KBN_def BLOCK_REWARD_MICRO_KBN_def
  VALIDATOR_FEE_PERCENT_def LIQUIDITY_RESERVE_FEE_PERCENT_def TREASURY_FEE_PERCENT_def
  BURN_FEE_PERCENT_def TRANSACTION_FEE_DIVISOR_def

lemma canonical_bootstrap_succeeds:
  "\<exists>cb. canonical_bootstrap cr = Inr cb \<and>
     co_validators (cb_consensus cb) =
       [\<lparr>val_address = GENESIS_VALIDATOR_A_ADDRESS, val_stake = 700\<rparr>,
        \<lparr>val_address = GENESIS_VALIDATOR_B_ADDRESS, val_stake = 300\<rparr>] \<and>
     ec_total_supply (bc_economy (cb_blockchain cb)) = 1000000000 \<and>
     ec_block_reward (bc_economy (cb_blockchain cb)) = 10000000"
  using genesis_validators_distinct
  by (simp add: canonical_bootstrap_def build_bootstrap_def canonical_genesis_configuration_def
      check_fee_percentages_def add_allocation_def add_genesis_validator_def create_allocation_def
      add_validator_def consensus_new_def configured_economy_def economy_new_def state_new_def
      create_account_def mint_def can_mint_def checked_add_def genesis_numbers blockchain_new_def Let_def)

lemma canonical_node_wf:
  fixes dir :: string
  assumes "sha256_spec cr" and boot: "canonical_bootstrap cr = Inr cb"
  defines "nd \<equiv> node_new_with_data_directory (cb_blockchain cb) (cb_state cb) (cb_consensus cb) dir"
  shows "node_wf cr nd" and "is_valid cr (nd_blockchain nd)" and "stakes_fit (cb_consensus cb)"
    and "consensus_wf (cb_consensus cb)"
proof -
  have build: "build_bootstrap cr canonical_genesis_configuration = Inr cb"
    using boot by (simp add: canonical_bootstrap_def)
  have zero: "gc_initial_treasury_balance canonical_genesis_configuration = 0"
    "gc_initial_liquidity_reserve canonical_genesis_configuration = 0"
    by (simp_all add: canonical_genesis_configuration_def economy_new_def)
  obtain e where bc: "cb_blockchain cb = \<lparr>bc_chain =
      [genesis_block cr canonical_genesis_configuration
        (genesis_configuration_fingerprint cr canonical_genesis_configuration)], bc_economy = e\<rparr>"
    by (rule build_bootstrap_Inr[OF build]) auto
  obtain cb' where "canonical_bootstrap cr = Inr cb'"
    and vs: "co_validators (cb_consensus cb') =
       [\<lparr>val_address = GENESIS_VALIDATOR_A_ADDRESS, val_stake = 700\<rparr>,
        \<lparr>val_address = GENESIS_VALIDATOR_B_ADDRESS, val_stake = 300\<rparr>]"
    and reward: "ec_block_reward (bc_economy (cb_blockchain cb')) = 10000000"
    using canonical_bootstrap_succeeds[of cr] by blast
  then have same: "cb' = cb"
    using boot by simp
  show "node_wf cr nd"
    unfolding nd_def using build_bootstrap_books(1)[OF build zero] bc reward
    by (intro fresh_node_wf) (simp_all add: same)
  show "is_valid cr (nd_blockchain nd)"
    using genesis_block_valid[OF assms(1)] by (simp add: nd_def node_new_with_data_directory_def bc)
  show "stakes_fit (cb_consensus cb)"
    using vs by (simp add: same stakes_fit_def stake_sum_def)
  show "consensus_wf (cb_consensus cb)"
    by (rule build_bootstrap_books(2)[OF build zero])
qed

end
