(* ===== verification/Examples.thy ===== *)
theory Examples
  imports Node_Production Bootstrap
begin

text \<open>
  A small concrete network, to see the theorems at work: two wallets under \<open>toy_crypto\<close>, a
  genesis configuration that gives the first of them all stake and coins, and a node started
  from it. The facts about it are derived from the lemmas of the components wherever that is
  shorter than evaluation.
\<close>

definition alice :: wallet where
  "alice = wallet_new toy_crypto (replicate 32 1)"

definition bob :: wallet where
  "bob = wallet_new toy_crypto (replicate 32 2)"

lemma alice_wf [simp]: "wallet_wf toy_crypto alice"
  by (simp add: alice_def wallet_new_wf)

lemma bob_wf [simp]: "wallet_wf toy_crypto bob"
  by (simp add: bob_def wallet_new_wf)

lemma alice_is_not_bob: "w_address alice \<noteq> w_address bob" "w_address bob \<noteq> w_address alice"
  by code_simp+

lemma alice_not_special: "w_address alice \<noteq> SYSTEM_ADDRESS"
  by code_simp

section \<open>A node\<close>

definition demo_configuration :: genesis_configuration where
  "demo_configuration = canonical_genesis_configuration\<lparr>
     gc_validators := [\<lparr>gv_address = w_address alice, gv_stake = 700\<rparr>],
     gc_allocations := [\<lparr>ga_address = w_address alice, ga_balance = 1000000000\<rparr>]\<rparr>"

definition demo_economy :: economy where
  "demo_economy = economy_new\<lparr>ec_total_supply := 1000000000\<rparr>"

definition demo_genesis :: block where
  "demo_genesis = genesis_block toy_crypto demo_configuration
     (genesis_configuration_fingerprint toy_crypto demo_configuration)"

definition demo_state :: state where
  "demo_state = create_account state_new (w_address alice) 1000000000"

definition demo_consensus :: consensus where
  "demo_consensus = \<lparr>co_validators = [\<lparr>val_address = w_address alice, val_stake = 700\<rparr>]\<rparr>"

definition demo_bootstrap :: bootstrap_outcome where
  "demo_bootstrap = \<lparr>cb_blockchain = \<lparr>bc_chain = [demo_genesis], bc_economy = demo_economy\<rparr>,
     cb_state = demo_state, cb_consensus = demo_consensus,
     cb_genesis_fingerprint = genesis_configuration_fingerprint toy_crypto demo_configuration\<rparr>"

lemma demo_bootstrap: "build_bootstrap toy_crypto demo_configuration = Inr demo_bootstrap"
  by (simp add: build_bootstrap_def demo_configuration_def canonical_genesis_configuration_def
      check_fee_percentages_def add_allocation_def add_genesis_validator_def create_allocation_def
      add_validator_def consensus_new_def configured_economy_def economy_new_def state_new_def
      create_account_def mint_def can_mint_def checked_add_def genesis_numbers blockchain_new_def Let_def
      demo_bootstrap_def demo_genesis_def demo_economy_def demo_state_def demo_consensus_def)

definition demo_node :: node where
  "demo_node = node_new_with_data_directory (cb_blockchain demo_bootstrap) (cb_state demo_bootstrap)
     (cb_consensus demo_bootstrap) ''data''"

lemma demo_node_sel [simp]:
  "bc_chain (nd_blockchain demo_node) = [demo_genesis]" "bc_economy (nd_blockchain demo_node) = demo_economy"
  "nd_state demo_node = demo_state" "nd_consensus demo_node = demo_consensus"
  "nd_mempool demo_node = mempool_new" "nd_storage_directory demo_node = ''data''"
  "nd_network demo_node = network_new"
  by (simp_all add: demo_node_def demo_bootstrap_def node_new_with_data_directory_def)

lemma demo_node_genesis:
  "nd_genesis_state demo_node = demo_state" "nd_genesis_economy demo_node = demo_economy"
  "(blockchain_new demo_genesis)\<lparr>bc_economy := demo_economy\<rparr> = nd_blockchain demo_node"
  by (simp_all add: demo_node_def demo_bootstrap_def node_new_with_data_directory_def blockchain_new_def)

lemma demo_economy_sel [simp]:
  "ec_total_supply demo_economy = 1000000000" "ec_block_reward demo_economy = 10000000"
  "ec_max_supply demo_economy = 100000000000000" "shares_ok demo_economy"
  "ec_liquidity_fee_percent demo_economy = 80" "ec_treasury_fee_percent demo_economy = 5"
  by (simp_all add: demo_economy_def economy_new_def shares_ok_def genesis_numbers)

lemma demo_state_sel [simp]:
  "balance_of demo_state (w_address alice) = 1000000000" "nonce_of demo_state a = 0"
  "fmlookup (st_accounts demo_state) (w_address alice) = Some \<lparr>acc_balance = 1000000000, acc_nonce = 0\<rparr>"
  "fmlookup (st_accounts demo_state) (w_address bob) = None"
  using alice_is_not_bob
  by (simp_all add: demo_state_def create_account_def state_new_def balance_of_def nonce_of_def)

lemma demo_genesis_sel [simp]:
  "blk_transactions demo_genesis = []" "blk_timestamp demo_genesis = GENESIS_TIMESTAMP"
  "blk_index demo_genesis = 0"
  by (simp_all add: demo_genesis_def genesis_block_def demo_configuration_def
      canonical_genesis_configuration_def Let_def)

lemma demo_books: "books_balanced demo_state demo_economy"
  using build_bootstrap_books(1)[OF demo_bootstrap]
  by (simp add: demo_bootstrap_def demo_configuration_def canonical_genesis_configuration_def economy_new_def)

lemma demo_node_wf: "node_wf toy_crypto demo_node"
  unfolding demo_node_def
  by (rule fresh_node_wf) (simp_all add: demo_bootstrap_def demo_books)

lemma demo_node_valid: "is_valid toy_crypto (nd_blockchain demo_node)"
  using genesis_block_valid[OF toy_sha256_spec, of demo_configuration]
  by (simp add: demo_node_def demo_bootstrap_def node_new_with_data_directory_def demo_genesis_def)

section \<open>A platform\<close>

text \<open>
  A serializer that knows the values of a list, and writes the position of a value in it in unary.
\<close>

definition table_encode :: "'a list \<Rightarrow> 'a \<Rightarrow> byte list option" where
  "table_encode known x =
     (if x \<in> set known then Some (replicate (Suc (length (takeWhile (\<lambda>c. c \<noteq> x) known))) 1) else None)"

definition table_decode :: "'a list \<Rightarrow> byte list \<Rightarrow> 'a option" where
  "table_decode known bs =
     (if bs = [] \<or> length known < length bs then None else Some (known ! (length bs - 1)))"

lemma table_decode_encode:
  assumes "table_encode known x = Some bs"
  shows "bs \<noteq> []" "length bs \<le> length known" "table_decode known bs = Some x"
proof -
  have x: "x \<in> set known" and bs: "bs = replicate (Suc (length (takeWhile (\<lambda>c. c \<noteq> x) known))) 1"
    using assms by (simp_all add: table_encode_def split: if_splits)
  have "length (takeWhile (\<lambda>c. c \<noteq> x) known) < length known"
    and "known ! length (takeWhile (\<lambda>c. c \<noteq> x) known) = x"
    using x by (induction known) auto
  then show "bs \<noteq> []" "length bs \<le> length known" "table_decode known bs = Some x"
    by (auto simp: bs table_decode_def)
qed

lemma table_encode_known: "x \<in> set known \<Longrightarrow> \<exists>bs. table_encode known x = Some bs"
  by (simp add: table_encode_def)

definition table_json :: "block list list \<Rightarrow> json" where
  "table_json known = \<lparr>js_to_vec = table_encode known, js_from_slice = table_decode known\<rparr>"

lemma table_json_spec: "json_spec (table_json known)"
  using table_decode_encode[of known] by (auto simp: json_spec_def table_json_def)

definition demo_io :: io where
  "demo_io = \<lparr>io_create_dir = True, io_random_name = ''00'', io_create_new = True, io_write_fails = None,
     io_sync = True, io_rename = True\<rparr>"

definition demo_effects :: effects where
  "demo_effects = \<lparr>ef_clock = (\<lambda>_. Some (GENESIS_TIMESTAMP + 20)), ef_io = demo_io\<rparr>"

definition demo_platform :: "block list list \<Rightarrow> platform" where
  "demo_platform known = \<lparr>pf_crypto = toy_crypto, pf_json = table_json known,
     pf_message_size = (\<lambda>_. Some 1000)\<rparr>"

definition free_platform :: platform where
  "free_platform = \<lparr>pf_crypto = toy_crypto,
     pf_json = \<lparr>js_to_vec = (\<lambda>_. Some [1]), js_from_slice = (\<lambda>_. None)\<rparr>,
     pf_message_size = (\<lambda>_. Some 1000)\<rparr>"

lemma platform_sel [simp]:
  "pf_crypto (demo_platform known) = toy_crypto" "pf_json (demo_platform known) = table_json known"
  "pf_crypto free_platform = toy_crypto" "pf_message_size (demo_platform known) m = Some 1000"
  "pf_message_size free_platform m = Some 1000"
  by (simp_all add: demo_platform_def free_platform_def)

lemma free_platform_saves:
  "chain \<noteq> [] \<Longrightarrow> \<exists>fs'. node_save free_platform demo_effects fmempty nd chain = (fs', Inr ())"
  by (simp add: save_blockchain_to_def free_platform_def demo_effects_def demo_io_def
      ensure_data_directory_at_def create_temp_def write_all_def replace_file_def Let_def)

section \<open>A transaction and a block\<close>

definition demo_tx :: transaction where
  "demo_tx = signed_transfer toy_crypto alice (w_address bob) 1000 10 0"

lemma demo_tx_sel [simp]:
  "tx_from demo_tx = w_address alice" "tx_to demo_tx = w_address bob" "tx_amount demo_tx = 1000"
  "tx_fee demo_tx = 10" "tx_nonce demo_tx = 0" "\<not> tx_coinbase demo_tx"
  "tx_id demo_tx = calculate_id toy_crypto demo_tx"
  unfolding demo_tx_def by (rule signed_transfer_sel)+

definition demo_next_tx :: transaction where
  "demo_next_tx = signed_transfer toy_crypto alice (w_address bob) 2000 10 1"

lemma demo_next_tx_sel [simp]:
  "tx_from demo_next_tx = w_address alice" "tx_to demo_next_tx = w_address bob"
  "tx_amount demo_next_tx = 2000" "tx_fee demo_next_tx = 10" "tx_nonce demo_next_tx = 1"
  "\<not> tx_coinbase demo_next_tx" "tx_id demo_next_tx = calculate_id toy_crypto demo_next_tx"
  unfolding demo_next_tx_def by (rule signed_transfer_sel)+

lemma demo_tx_authentic: "tx_authentic toy_crypto demo_tx" "tx_authentic toy_crypto demo_next_tx"
  unfolding demo_tx_def demo_next_tx_def
  by (rule signed_transfer_authentic[OF toy_crypto_ok alice_wf];
    simp add: wallet_texts_fixed_hex[OF toy_crypto_ok bob_wf])+

text \<open>The identifiers of the block to come, evaluated.\<close>

lemma demo_ids_distinct:
  "distinct [calculate_id toy_crypto demo_tx, calculate_id toy_crypto demo_next_tx,
     calculate_id toy_crypto (new_coinbase toy_crypto (w_address alice) 10000000 1)]"
proof -
  have unsigned: "calculate_id toy_crypto (signed_transfer toy_crypto alice a x f n) =
      calculate_id toy_crypto (transaction_new toy_crypto (w_address alice) (public_key_hex toy_crypto alice) a x f n)"
    for a x f n
    by (simp add: signed_transfer_def tx_sign_def Let_def)
  show ?thesis
    unfolding demo_tx_def demo_next_tx_def unsigned by code_simp
qed

lemma demo_fee: "validate_fee demo_economy 1000 10" "validate_fee demo_economy 2000 10"
  by (simp_all add: validate_fee_def calculate_fee_def demo_economy_def economy_new_def genesis_numbers
      MIN_TRANSACTION_FEE_MICRO_KBN_def Let_def)

lemma demo_tx_accepted: "accepts demo_state demo_tx"
  using alice_is_not_bob by (simp add: accepts_def receiver_balance_def balance_of_def)

definition demo_first_pool :: mempool where
  "demo_first_pool = \<lparr>mp_transactions = [demo_tx]\<rparr>"

definition demo_pool :: mempool where
  "demo_pool = \<lparr>mp_transactions = [demo_tx, demo_next_tx]\<rparr>"

lemma demo_pool_sel [simp]: "mp_transactions demo_pool = [demo_tx, demo_next_tx]"
  by (simp add: demo_pool_def)

lemma demo_mempool_add: "mempool_add toy_crypto mempool_new demo_tx = (demo_first_pool, True)"
  "mempool_add toy_crypto demo_first_pool demo_next_tx = (demo_pool, True)"
  using demo_ids_distinct
  by (simp_all add: mempool_add_iff demo_tx_authentic mempool_new_def demo_first_pool_def demo_pool_def
      MAX_MEMPOOL_TRANSACTIONS_def eq_commute)

lemma demo_first_pool_wf: "mempool_wf toy_crypto demo_first_pool"
  by (rule mempool_add_wf[OF mempool_new_wf demo_mempool_add(1)])

lemma demo_pool_wf: "mempool_wf toy_crypto demo_pool"
  by (rule mempool_add_wf[OF demo_first_pool_wf demo_mempool_add(2)])

definition demo_first :: node where
  "demo_first = demo_node\<lparr>nd_mempool := demo_first_pool\<rparr>"

definition demo_waiting :: node where
  "demo_waiting = demo_node\<lparr>nd_mempool := demo_pool\<rparr>"

lemma demo_waiting_sel [simp]:
  "nd_blockchain demo_waiting = nd_blockchain demo_node" "nd_state demo_waiting = demo_state"
  "nd_mempool demo_waiting = demo_pool" "nd_consensus demo_waiting = demo_consensus"
  "nd_storage_directory demo_waiting = ''data''"
  by (simp_all add: demo_waiting_def)

lemma demo_validates:
  "validate_transaction_for_mempool toy_crypto demo_tx demo_state demo_economy mempool_new = Inr ()"
  "validate_transaction_for_mempool toy_crypto demo_next_tx demo_state demo_economy demo_first_pool = Inr ()"
  by (simp_all add: validate_transaction_for_mempool_def iffD2[OF validate_transaction_base_Inr]
      demo_tx_authentic demo_fee next_nonce_def pending_for_sender_def pending_cost_def mempool_new_def
      demo_first_pool_def add_cost_def checked_add_def)

lemma demo_submission: "pf_crypto pf = toy_crypto \<Longrightarrow>
    insert_transaction_into_mempool pf demo_node demo_tx = (demo_first, Inr ())"
  "pf_crypto pf = toy_crypto \<Longrightarrow>
    insert_transaction_into_mempool pf demo_first demo_next_tx = (demo_waiting, Inr ())"
  using demo_validates demo_mempool_add
  by (simp_all add: insert_transaction_into_mempool_def demo_first_def demo_waiting_def)

lemma demo_waiting_wf: "node_wf toy_crypto demo_waiting"
  unfolding demo_waiting_def by (rule node_wf_mempool[OF demo_node_wf demo_pool_wf])

lemma demo_stakes_fit: "stakes_fit demo_consensus"
  by (simp add: stakes_fit_def stake_sum_def demo_consensus_def)

lemma demo_selected:
  "select_validator_from_hash toy_crypto demo_consensus h = Inr (Some \<lparr>val_address = w_address alice, val_stake = 700\<rparr>)"
proof -
  have "select_validator demo_consensus n = Inr (Some \<lparr>val_address = w_address alice, val_stake = 700\<rparr>)" for n
    using select_validator_defined[OF demo_stakes_fit, of n] select_validator_total[of demo_consensus n]
    by (cases rule: sum.exhaust[of "select_validator demo_consensus n"]) (auto simp: stake_sum_def demo_consensus_def)
  then show ?thesis
    by (simp add: select_validator_from_hash_def Let_def)
qed

lemma demo_allowed: "is_validator_allowed demo_consensus (w_address alice)"
  by (simp add: is_validator_allowed_def demo_consensus_def)

definition demo_time :: u64 where
  "demo_time = GENESIS_TIMESTAMP + 10"

lemma demo_times: "GENESIS_TIMESTAMP < demo_time"
  "validate_future_timestamp (ef_clock demo_effects i) demo_time = Inr ()"
  by (simp_all add: demo_time_def demo_effects_def GENESIS_TIMESTAMP_def validate_future_timestamp_def
      checked_add_def MAX_FUTURE_DRIFT_SECONDS_def)

lemma demo_ids_unused: "ids_unused toy_crypto (nd_blockchain demo_node) alice demo_pool"
  using demo_ids_distinct by (auto simp: ids_unused_def chain_ids_def)

lemma demo_pool_ready: "pool_ready demo_pool demo_state demo_economy"
  using demo_tx_accepted demo_fee by (simp add: pool_ready_def)

definition demo_creation :: "(blockchain \<times> mempool \<times> state \<times> block) result" where
  "demo_creation = create_block_from_mempool toy_crypto (ef_clock demo_effects 0) (nd_blockchain demo_node)
     demo_time alice demo_pool demo_state"

definition demo_blockchain :: blockchain where
  "demo_blockchain = (case demo_creation of Inr (bc, mp, st, b) \<Rightarrow> bc | Inl e \<Rightarrow> nd_blockchain demo_node)"

definition demo_left :: mempool where
  "demo_left = (case demo_creation of Inr (bc, mp, st, b) \<Rightarrow> mp | Inl e \<Rightarrow> demo_pool)"

definition demo_after :: state where
  "demo_after = (case demo_creation of Inr (bc, mp, st, b) \<Rightarrow> st | Inl e \<Rightarrow> demo_state)"

definition demo_block :: block where
  "demo_block = (case demo_creation of Inr (bc, mp, st, b) \<Rightarrow> b | Inl e \<Rightarrow> demo_genesis)"

lemma demo_created: "create_block_from_mempool toy_crypto (ef_clock demo_effects 0) (nd_blockchain demo_node)
    demo_time alice demo_pool demo_state = Inr (demo_blockchain, demo_left, demo_after, demo_block)"
proof -
  have "is_fixed_hex (blk_hash (last (bc_chain (nd_blockchain demo_node)))) HASH_HEX_LENGTH"
    by (rule valid_tip_hash[OF demo_node_valid]) simp
  then obtain bc mp st b where "demo_creation = Inr (bc, mp, st, b)"
    using create_block_ok[OF toy_crypto_ok alice_wf _ demo_pool_wf, of demo_state "nd_blockchain demo_node"
        demo_time "ef_clock demo_effects 0"] demo_books demo_times demo_pool_ready demo_ids_unused
    by (auto simp: demo_creation_def)
  note made = this
  show ?thesis
    unfolding demo_creation_def[symmetric] demo_blockchain_def demo_left_def demo_after_def demo_block_def made
    by simp
qed

lemma demo_chain: "bc_chain demo_blockchain = [demo_genesis, demo_block]"
proof -
  obtain e where made: "demo_blockchain = nd_blockchain demo_node
      \<lparr>bc_chain := bc_chain (nd_blockchain demo_node) @ [demo_block], bc_economy := e\<rparr>"
    by (rule create_block_Inr[OF demo_created])
  show ?thesis
    unfolding made by simp
qed

lemma demo_block_sel:
  "blk_timestamp demo_block = demo_time" "blk_hash demo_block = calculate_hash toy_crypto demo_block"
  "blk_index demo_block = 1"
proof -
  obtain txs where made: "demo_block = make_block toy_crypto (bc_chain (nd_blockchain demo_node)) demo_time alice txs"
    by (rule create_block_Inr[OF demo_created])
  show "blk_timestamp demo_block = demo_time" "blk_hash demo_block = calculate_hash toy_crypto demo_block"
    "blk_index demo_block = 1"
    unfolding made make_block_sel by simp_all
qed

lemma demo_accepted: "validate_and_apply_block toy_crypto (ef_clock demo_effects i) demo_consensus demo_block
    (nd_blockchain demo_node) demo_state = Inr (demo_blockchain, demo_after)"
proof -
  have "ef_clock demo_effects i = ef_clock demo_effects 0"
    by (simp add: demo_effects_def)
  then show ?thesis
    using demo_allowed produced_block_accepted[OF toy_crypto_ok alice_wf demo_created _ demo_pool_wf _ demo_selected]
      demo_books by simp
qed

lemma demo_blockchain_valid: "is_valid toy_crypto demo_blockchain"
  by (rule accepted_block_valid[OF demo_accepted demo_node_valid])

text \<open>The block carries both transactions, in the order of their numbers, and the coinbase.\<close>

lemma demo_block_transactions:
  "blk_transactions demo_block = [demo_tx, demo_next_tx, new_coinbase toy_crypto (w_address alice) 10000000 1]"
proof -
  obtain st1 where st1: "apply_transaction demo_state demo_tx = (st1, Inr ())"
    using accepts_applies[OF demo_tx_accepted] by blast
  note effect = apply_transaction_accepted(2)[OF st1, unfolded transaction_effect_def]
  have "unat (balance_of st1 (w_address alice)) = 999998990" "unat (balance_of st1 (w_address bob)) = 1000"
    "nonce_of st1 (w_address alice) = 1"
    using effect alice_is_not_bob by (simp_all add: debit_of_def credit_of_def, simp add: balance_of_def)
  then have "accepts st1 demo_next_tx"
    using alice_is_not_bob
    by (auto simp: accepts_def receiver_balance_def balance_of_def split: option.splits)
  then obtain st2 where st2: "apply_transaction st1 demo_next_tx = (st2, Inr ())"
    using accepts_applies by blast
  have taken: "take_valid_transactions demo_pool demo_state = (demo_pool\<lparr>mp_transactions := []\<rparr>, [demo_tx, demo_next_tx])"
    using st1 st2 by (simp add: take_valid_transactions_def take_loop.simps MAX_NORMAL_TRANSACTIONS_PER_BLOCK_def)
  obtain rest txs e' txs' where "take_valid_transactions demo_pool demo_state = (rest, txs)"
    and exec: "execute_transactions toy_crypto (nd_blockchain demo_node) alice txs demo_state =
      Inr (demo_after, e', txs')"
    and b: "demo_block = make_block toy_crypto (bc_chain (nd_blockchain demo_node)) demo_time alice txs'"
    by (rule create_block_Inr[OF demo_created])
  then have txs: "txs = [demo_tx, demo_next_tx]"
    using taken by simp
  obtain s1 ft s2 e2 where settle: "settle_fees (w_address alice) ft s1 demo_economy = Inr (s2, e2)"
    and txs': "txs' = txs @ [new_coinbase toy_crypto (w_address alice) (ec_block_reward e2) 1]"
    by (rule execute_transactions_Inr[OF exec]) simp
  have "ec_block_reward e2 = 10000000"
    using settings_fields(2)[OF settle_fees_settings[OF settle]] by simp
  then show ?thesis
    unfolding b make_block_sel txs' txs by simp
qed

section \<open>A run of the node\<close>

definition demo_known :: "block list list" where
  "demo_known = [[demo_genesis], [demo_genesis, demo_block]]"

definition demo_pf :: platform where
  "demo_pf = demo_platform demo_known"

lemma demo_pf_sel [simp]: "pf_crypto demo_pf = toy_crypto" "pf_json demo_pf = table_json demo_known"
  "pf_message_size demo_pf m = Some 1000"
  by (simp_all add: demo_pf_def)

lemma demo_serializes: "js_to_vec (table_json demo_known) [demo_genesis, demo_block] = Some [1, 1]"
  by (simp add: table_json_def table_encode_def demo_known_def)

lemma demo_saves:
  assumes "nd_storage_directory nd = ''data''" and "fmlookup fs (''data'', ''.blockchain.tmp-00'') = None"
  shows "\<exists>fs'. node_save demo_pf demo_effects fs nd [demo_genesis, demo_block] = (fs', Inr ())"
  using assms
  by (simp add: save_blockchain_to_def demo_effects_def demo_io_def ensure_data_directory_at_def create_temp_def
      write_all_def replace_file_def demo_serializes unique_blockchain_temp_path_def Let_def
      BLOCKCHAIN_TEMP_FILE_NAME_def)

definition demo_disk :: file_system where
  "demo_disk = fst (node_save demo_pf demo_effects fmempty demo_node [demo_genesis, demo_block])"

lemma demo_disk: "node_save demo_pf demo_effects fmempty demo_node [demo_genesis, demo_block] = (demo_disk, Inr ())"
  using demo_saves[of demo_node fmempty] by (auto simp: demo_disk_def)

definition demo_done :: node where
  "demo_done = demo_waiting\<lparr>nd_blockchain := demo_blockchain, nd_state := demo_after, nd_mempool := demo_left\<rparr>"

lemma demo_done_sel [simp]:
  "nd_blockchain demo_done = demo_blockchain" "nd_state demo_done = demo_after"
  "nd_mempool demo_done = demo_left" "nd_consensus demo_done = demo_consensus"
  "nd_storage_directory demo_done = ''data''"
  by (simp_all add: demo_done_def)

lemma demo_produced:
  "produce_block demo_pf demo_effects fmempty demo_waiting demo_time alice = (demo_disk, demo_done, Inr demo_block)"
  using demo_disk
  by (simp add: produce_block_def last_block_def demo_allowed demo_selected demo_created demo_chain demo_done_def)

lemma demo_steps:
  "node_step demo_pf (fmempty, demo_node) (fmempty, demo_first)"
  "node_step demo_pf (fmempty, demo_first) (fmempty, demo_waiting)"
  "node_step demo_pf (fmempty, demo_waiting) (demo_disk, demo_done)"
  by (rule step_relay[OF demo_submission(1)[folded receive_transaction_with_result_def]]
      step_relay[OF demo_submission(2)[folded receive_transaction_with_result_def]]
      step_produce[OF _ demo_produced]; simp)+

lemma demo_reachable: "reachable demo_pf (fmempty, demo_node) (demo_disk, demo_done)"
  by (rule reachable_step[OF reachable_step[OF reachable_step[OF reachable_start demo_steps(1)]
        demo_steps(2)] demo_steps(3)])

lemma demo_done_wf: "node_wf toy_crypto demo_done"
  using produce_block_accepted(2)[OF _ _ _ demo_produced] demo_waiting_wf toy_crypto_ok by simp

lemma demo_saves_again:
  "\<exists>fs'. node_save demo_pf demo_effects demo_disk demo_done [demo_genesis, demo_block] = (fs', Inr ())"
proof -
  have "fmlookup demo_disk (''data'', ''.blockchain.tmp-00'') = None"
    by (simp add: demo_disk_def save_blockchain_to_def demo_effects_def demo_io_def ensure_data_directory_at_def
        create_temp_def write_all_def replace_file_def demo_serializes unique_blockchain_temp_path_def Let_def
        blockchain_path_in_def BLOCKCHAIN_TEMP_FILE_NAME_def BLOCKCHAIN_FILE_NAME_def)
  then show ?thesis
    by (intro demo_saves) simp_all
qed

lemma demo_genesis_fits: "block_fits demo_genesis"
proof -
  have "fits (genesis_configuration_fingerprint toy_crypto demo_configuration)"
    using toy_sha256_spec
    by (simp add: genesis_configuration_fingerprint_def sha256_spec_def lower_hex_of_def fits_def)
  then show ?thesis
    by (simp add: demo_genesis_def genesis_block_def block_fits_def special_names fits_def)
qed

lemma demo_synchronized:
  "\<exists>fs' nd'. synchronize_chain free_platform demo_effects fmempty demo_node [demo_genesis, demo_block] =
     (fs', nd', Inr ()) \<and> nd_blockchain nd' = demo_blockchain"
proof -
  have "replay_chain toy_crypto (ef_clock demo_effects) demo_node [demo_genesis, demo_block] =
      Inr (demo_blockchain, demo_after)"
    using demo_accepted by (simp add: replay_chain_def replay_block_def demo_node_genesis)
  moreover have "check_incoming_genesis free_platform demo_node [demo_genesis, demo_block] = Inr demo_genesis"
    by (simp add: check_incoming_genesis_def demo_genesis_def genesis_block_def special_names)
  ultimately show ?thesis
    using free_platform_saves[of "[demo_genesis, demo_block]" demo_node]
    by (auto simp: synchronize_chain_def demo_chain)
qed

lemma demo_tx_fits: "fits (tx_message demo_tx)"
proof -
  have "tx_message demo_tx = tx_message (transaction_new toy_crypto (w_address alice)
      (public_key_hex toy_crypto alice) (w_address bob) 1000 10 0)"
    by (simp add: demo_tx_def signed_transfer_def tx_sign_def Let_def)
  moreover have "length (tx_message (transaction_new toy_crypto (w_address alice)
      (public_key_hex toy_crypto alice) (w_address bob) 1000 10 0)) < 1000"
    by code_simp
  ultimately show ?thesis
    by (simp add: fits_def)
qed

text \<open>The canonical configuration with its allocations reversed has the same fingerprint.\<close>

abbreviation reversed_configuration :: genesis_configuration where
  "reversed_configuration \<equiv> canonical_genesis_configuration
     \<lparr>gc_allocations := rev (gc_allocations canonical_genesis_configuration)\<rparr>"

lemma canonical_fits: "configuration_fits canonical_genesis_configuration"
  "configuration_fits reversed_configuration"
  by (simp_all add: configuration_fits_def canonical_genesis_configuration_def fits_def NETWORK_ID_def
      GENESIS_VALIDATOR_A_ADDRESS_def GENESIS_VALIDATOR_B_ADDRESS_def Let_def)

lemma canonical_reversed:
  "genesis_configuration_fingerprint toy_crypto canonical_genesis_configuration =
     genesis_configuration_fingerprint toy_crypto reversed_configuration"
proof -
  have "sort_allocations (gc_allocations canonical_genesis_configuration) =
      sort_allocations (gc_allocations reversed_configuration)"
    by code_simp
  then show ?thesis
    by (simp add: genesis_configuration_fingerprint_def genesis_canonical_bytes_def
        canonical_genesis_configuration_def Let_def)
qed

end
