(* ===== verification/Transport.thy ===== *)
theory Transport
  imports Network
begin

text \<open>
  \<open>src/network/tcp.rs\<close>: messages as length-prefixed JSON frames on a byte stream, and the
  handshake that opens an authenticated connection. A connection is the bytes that still
  arrive, how the stream ends after them, and the bytes written so far; every write has an
  answer of the operating system as a parameter. Binding, accepting and spawning tasks are
  left to the runtime library. The lemmas show that what is sent is read back, message by
  message, that no oversized frame is read, and that the two sides of a handshake fit.
\<close>

unbundle bit_operations_syntax

section \<open>The stream\<close>

text \<open>\<open>serde_json\<close> on messages, and its documented behaviour.\<close>

record wire =
  wr_to_vec :: "network_message \<Rightarrow> byte list option"      \<comment> \<open>\<open>serde_json::to_vec\<close>\<close>
  wr_from_slice :: "byte list \<Rightarrow> network_message option"  \<comment> \<open>\<open>serde_json::from_slice\<close>\<close>

definition wire_spec :: "wire \<Rightarrow> bool" where
  "wire_spec wr \<longleftrightarrow> (\<forall>m bs. wr_to_vec wr m = Some bs \<longrightarrow> wr_from_slice wr bs = Some m)"

definition wire_size :: "wire \<Rightarrow> network_message \<Rightarrow> nat option" where
  "wire_size wr m = map_option length (wr_to_vec wr m)"

text \<open>
  How a stream ends: the peer closes it, it stays silent until the timeout, or it breaks. A
  write goes through, or times out or fails after some bytes.
\<close>

datatype stream_end = Closed | Stalled | Broken

record connection =
  cn_incoming :: "byte list"
  cn_end :: stream_end
  cn_outgoing :: "byte list"

datatype write_answer = Written | Write_timed_out nat | Write_failed nat

record send_answers =
  sa_header :: write_answer
  sa_payload :: write_answer
  sa_flush :: write_answer

definition all_written :: send_answers where
  "all_written = \<lparr>sa_header = Written, sa_payload = Written, sa_flush = Written\<rparr>"

definition write_stream ::
  "write_answer \<Rightarrow> transport_error \<Rightarrow> transport_error \<Rightarrow> connection \<Rightarrow> byte list \<Rightarrow> connection \<times> unit result"
where
  "write_stream answer timed_out failed cn bytes =
     (case answer of
        Written \<Rightarrow> (cn\<lparr>cn_outgoing := cn_outgoing cn @ bytes\<rparr>, Inr ())
      | Write_timed_out n \<Rightarrow>
          (cn\<lparr>cn_outgoing := cn_outgoing cn @ take n bytes\<rparr>, Inl (Transport_error timed_out))
      | Write_failed n \<Rightarrow>
          (cn\<lparr>cn_outgoing := cn_outgoing cn @ take n bytes\<rparr>, Inl (Transport_error failed)))"

definition read_exact ::
  "transport_error \<Rightarrow> transport_error \<Rightarrow> nat \<Rightarrow> connection \<Rightarrow> connection \<times> byte list result" where
  "read_exact timed_out failed n cn =
     (if n \<le> length (cn_incoming cn)
      then (cn\<lparr>cn_incoming := drop n (cn_incoming cn)\<rparr>, Inr (take n (cn_incoming cn)))
      else (cn\<lparr>cn_incoming := []\<rparr>,
            Inl (Transport_error (if cn_end cn = Stalled then timed_out else failed))))"

section \<open>Frames\<close>

definition from_be_bytes_u32 :: "byte list \<Rightarrow> u32" where
  "from_be_bytes_u32 bs = foldl (\<lambda>w b. push_bit 8 w + ucast b) 0 bs"

definition send_message ::
  "wire \<Rightarrow> send_answers \<Rightarrow> connection \<Rightarrow> network_message \<Rightarrow> connection \<times> unit result" where
  "send_message wr sa cn message =
     (case wr_to_vec wr message of
        None \<Rightarrow> (cn, Inl (Transport_error Message_not_serialized))
      | Some payload \<Rightarrow>
          if payload = [] then (cn, Inl (Transport_error Empty_message_not_sent))
          else if length payload > MAX_NETWORK_MESSAGE_BYTES
          then (cn, Inl (Transport_error Message_limit_exceeded))
          else if length payload \<ge> 2 ^ 32 then (cn, Inl (Transport_error Length_exceeds_u32))
          else let payload_length = word_of_nat (length payload) :: u32 in
            (case write_stream (sa_header sa) Header_send_timed_out Header_not_sent cn
                    (to_be_bytes payload_length) of
               (cn, Inl e) \<Rightarrow> (cn, Inl e)
             | (cn, Inr _) \<Rightarrow>
            (case write_stream (sa_payload sa) Message_send_timed_out Message_not_sent cn payload of
               (cn, Inl e) \<Rightarrow> (cn, Inl e)
             | (cn, Inr _) \<Rightarrow> write_stream (sa_flush sa) Flush_timed_out Message_not_flushed cn [])))"

text \<open>The first byte decides between the end of the stream and a frame.\<close>

definition read_header :: "connection \<Rightarrow> connection \<times> byte list option result" where
  "read_header cn =
     (case cn_incoming cn of
        [] \<Rightarrow>
          (cn, case cn_end cn of
                 Closed \<Rightarrow> Inr None
               | Stalled \<Rightarrow> Inl (Transport_error Header_read_timed_out)
               | Broken \<Rightarrow> Inl (Transport_error Header_not_read))
      | first # rest \<Rightarrow>
          (case read_exact Header_read_timed_out Header_not_read 3 (cn\<lparr>cn_incoming := rest\<rparr>) of
             (cn, Inl e) \<Rightarrow> (cn, Inl e)
           | (cn, Inr others) \<Rightarrow> (cn, Inr (Some (first # others)))))"

definition read_message_or_eof ::
  "wire \<Rightarrow> connection \<Rightarrow> connection \<times> network_message option result" where
  "read_message_or_eof wr cn =
     (case read_header cn of
        (cn, Inl e) \<Rightarrow> (cn, Inl e)
      | (cn, Inr None) \<Rightarrow> (cn, Inr None)
      | (cn, Inr (Some length_bytes)) \<Rightarrow>
          let payload_length = unat (from_be_bytes_u32 length_bytes) in
          if payload_length = 0 then (cn, Inl (Transport_error Empty_message_rejected))
          else if payload_length > MAX_NETWORK_MESSAGE_BYTES
          then (cn, Inl (Transport_error Message_limit_exceeded))
          else (case read_exact Message_read_timed_out Message_not_read payload_length cn of
                  (cn, Inl e) \<Rightarrow> (cn, Inl e)
                | (cn, Inr payload) \<Rightarrow>
                    (cn, and_then (ok_or (wr_from_slice wr payload) (Transport_error Message_json_invalid))
                           (\<lambda>message. Inr (Some message)))))"

definition read_message :: "wire \<Rightarrow> connection \<Rightarrow> connection \<times> network_message result" where
  "read_message wr cn =
     (case read_message_or_eof wr cn of
        (cn, Inl e) \<Rightarrow> (cn, Inl e)
      | (cn, Inr None) \<Rightarrow> (cn, Inl (Transport_error Connection_closed))
      | (cn, Inr (Some message)) \<Rightarrow> (cn, Inr message))"

section \<open>Authenticated connections\<close>

text \<open>
  The side that connects; \<open>dialled\<close> is what \<open>connect\<close> gave. The clock is read when the
  handshake is made and when its answer is checked.
\<close>

definition connect_authenticated ::
  "wire \<Rightarrow> crypto \<Rightarrow> (nat \<Rightarrow> u64 option) \<Rightarrow> byte list \<Rightarrow> send_answers \<Rightarrow> wallet \<Rightarrow> string \<Rightarrow>
   connection result \<Rightarrow> connection result" where
  "connect_authenticated wr cr clock random sa w listen_address dialled =
     (let handshake = create_handshake cr (clock 0) random w listen_address in
      and_then (ok_or (handshake_challenge handshake) (Transport_error Challenge_not_created))
        (\<lambda>expected_challenge.
      and_then dialled (\<lambda>cn.
        case send_message wr sa cn handshake of
          (cn, Inl e) \<Rightarrow> Inl e
        | (cn, Inr _) \<Rightarrow>
       (case read_message wr cn of
          (cn, Inl e) \<Rightarrow> Inl e
        | (cn, Inr response) \<Rightarrow>
            if \<not> validate_handshake_ack cr (clock 1) response expected_challenge
            then Inl (Transport_error Ack_validation_failed) else Inr cn))))"

text \<open>The side that accepts: it answers every first message, then refuses or goes on.\<close>

definition authenticate_incoming ::
  "wire \<Rightarrow> crypto \<Rightarrow> (nat \<Rightarrow> u64 option) \<Rightarrow> send_answers \<Rightarrow> wallet \<Rightarrow> connection \<Rightarrow>
   connection \<times> network_message result" where
  "authenticate_incoming wr cr clock sa w cn =
     (case read_message wr cn of
        (cn, Inl e) \<Rightarrow> (cn, Inl e)
      | (cn, Inr handshake) \<Rightarrow>
          let challenge = (case handshake_challenge handshake of Some c \<Rightarrow> c | None \<Rightarrow> []);
              accepted = validate_handshake cr (wire_size wr) (clock 0) handshake;
              handshake_ack = create_handshake_ack cr (clock 1) w accepted challenge
          in (case send_message wr sa cn handshake_ack of
                (cn, Inl e) \<Rightarrow> (cn, Inl e)
              | (cn, Inr _) \<Rightarrow>
                  if \<not> accepted then (cn, Inl (Transport_error Peer_handshake_invalid))
                  else (cn, Inr handshake)))"

text \<open>Sending one message, or a request with its answer, over a connection opened for it.\<close>

definition send_authenticated_message ::
  "wire \<Rightarrow> crypto \<Rightarrow> (nat \<Rightarrow> u64 option) \<Rightarrow> byte list \<Rightarrow> send_answers \<Rightarrow> send_answers \<Rightarrow> wallet \<Rightarrow>
   string \<Rightarrow> connection result \<Rightarrow> network_message \<Rightarrow> unit result" where
  "send_authenticated_message wr cr clock random sa sa' w listen_address dialled message =
     and_then (connect_authenticated wr cr clock random sa w listen_address dialled) (\<lambda>cn.
       snd (send_message wr sa' cn message))"

definition send_authenticated_request ::
  "wire \<Rightarrow> crypto \<Rightarrow> (nat \<Rightarrow> u64 option) \<Rightarrow> byte list \<Rightarrow> send_answers \<Rightarrow> send_answers \<Rightarrow> wallet \<Rightarrow>
   string \<Rightarrow> connection result \<Rightarrow> network_message \<Rightarrow> network_message result" where
  "send_authenticated_request wr cr clock random sa sa' w listen_address dialled request =
     and_then (connect_authenticated wr cr clock random sa w listen_address dialled) (\<lambda>cn.
       case send_message wr sa' cn request of
         (cn, Inl e) \<Rightarrow> Inl e
       | (cn, Inr _) \<Rightarrow> snd (read_message wr cn))"

definition send_authenticated_client_message ::
  "wire \<Rightarrow> crypto \<Rightarrow> (nat \<Rightarrow> u64 option) \<Rightarrow> byte list \<Rightarrow> send_answers \<Rightarrow> send_answers \<Rightarrow> wallet \<Rightarrow>
   connection result \<Rightarrow> network_message \<Rightarrow> unit result" where
  "send_authenticated_client_message wr cr clock random sa sa' w dialled message =
     send_authenticated_message wr cr clock random sa sa' w ONE_SHOT_CLIENT_LISTEN_ADDRESS dialled message"

text \<open>
  \<open>broadcast_authenticated\<close>: every peer is tried, whatever happened to the others; the
  numbers of successes and failures are counted. A session is what sending to the peer at that
  address meets.
\<close>

fun broadcast_authenticated ::
  "(string \<Rightarrow> network_message \<Rightarrow> unit result) \<Rightarrow> string list \<Rightarrow> network_message \<Rightarrow> nat \<times> nat" where
  "broadcast_authenticated session [] message = (0, 0)"
| "broadcast_authenticated session (peer_address # peers) message =
     (case broadcast_authenticated session peers message of
        (success_count, failure_count) \<Rightarrow>
          (case session peer_address message of
             Inr _ \<Rightarrow> (Suc success_count, failure_count)
           | Inl _ \<Rightarrow> (success_count, Suc failure_count)))"

text \<open>Connections without a handshake.\<close>

definition send_to :: "wire \<Rightarrow> send_answers \<Rightarrow> connection result \<Rightarrow> network_message \<Rightarrow> unit result" where
  "send_to wr sa dialled message = and_then dialled (\<lambda>cn. snd (send_message wr sa cn message))"

definition send_and_receive ::
  "wire \<Rightarrow> send_answers \<Rightarrow> connection result \<Rightarrow> network_message \<Rightarrow> network_message result" where
  "send_and_receive wr sa dialled message =
     and_then dialled (\<lambda>cn.
       case send_message wr sa cn message of
         (cn, Inl e) \<Rightarrow> Inl e
       | (cn, Inr _) \<Rightarrow> snd (read_message wr cn))"

text \<open>
  Accepting a connection: \<open>accepted\<close> is what \<open>accept\<close> gave, the stream and the address of the
  peer.
\<close>

definition accept_authenticated ::
  "wire \<Rightarrow> crypto \<Rightarrow> (nat \<Rightarrow> u64 option) \<Rightarrow> send_answers \<Rightarrow> wallet \<Rightarrow> (connection \<times> string) result \<Rightarrow>
   (connection \<times> string \<times> network_message) result" where
  "accept_authenticated wr cr clock sa w accepted =
     and_then accepted (\<lambda>(cn, peer_address).
       case authenticate_incoming wr cr clock sa w cn of
         (cn, Inl e) \<Rightarrow> Inl e
       | (cn, Inr handshake) \<Rightarrow> Inr (cn, peer_address, handshake))"

definition accept_authenticated_request ::
  "wire \<Rightarrow> crypto \<Rightarrow> (nat \<Rightarrow> u64 option) \<Rightarrow> send_answers \<Rightarrow> wallet \<Rightarrow> (connection \<times> string) result \<Rightarrow>
   (connection \<times> string \<times> network_message \<times> network_message) result" where
  "accept_authenticated_request wr cr clock sa w accepted =
     and_then (accept_authenticated wr cr clock sa w accepted) (\<lambda>(cn, peer_address, handshake).
       case read_message wr cn of
         (cn, Inl e) \<Rightarrow> Inl e
       | (cn, Inr request) \<Rightarrow> Inr (cn, peer_address, handshake, request))"

definition accept_one ::
  "wire \<Rightarrow> (connection \<times> string) result \<Rightarrow> (network_message \<times> string) result" where
  "accept_one wr accepted =
     and_then accepted (\<lambda>(cn, peer_address).
       and_then (snd (read_message wr cn)) (\<lambda>message. Inr (message, peer_address)))"

section \<open>Sessions of the listeners\<close>

text \<open>
  The task a listener spawns for a connection forwards messages into a channel;
  \<open>channel i\<close> says whether the channel still takes the \<open>i\<close>-th one. The results are the
  connection and the forwarded messages. The first lemma makes the loop end: a message that
  was read took bytes of the stream.
\<close>

lemma read_exact_incoming:
  "read_exact t f n cn = (cn', Inr bs) \<longleftrightarrow>
     cn_incoming cn = bs @ cn_incoming cn' \<and> length bs = n \<and> cn' = cn\<lparr>cn_incoming := cn_incoming cn'\<rparr>"
  by (auto simp: read_exact_def)

lemma read_header_Some:
  "read_header cn = (cn', Inr (Some bs)) \<longleftrightarrow>
     cn_incoming cn = bs @ cn_incoming cn' \<and> length bs = 4 \<and> cn' = cn\<lparr>cn_incoming := cn_incoming cn'\<rparr>"
proof (cases "cn_incoming cn")
  case Nil
  then show ?thesis by (auto simp: read_header_def split: stream_end.split)
next
  case (Cons b rest)
  then show ?thesis
    by (cases bs) (auto simp: read_header_def read_exact_def)
qed

lemma read_message_shrinks:
  "read_message_or_eof wr cn = (cn', Inr (Some m)) \<Longrightarrow> length (cn_incoming cn') < length (cn_incoming cn)"
  by (auto simp: read_message_or_eof_def read_header_Some read_exact_incoming Let_def result_simps
      split: sum.splits prod.splits option.splits if_splits)

definition plain_session ::
  "wire \<Rightarrow> (nat \<Rightarrow> bool) \<Rightarrow> connection \<Rightarrow> connection \<times> network_message list" where
  "plain_session wr channel cn =
     (case read_message wr cn of
        (cn, Inl e) \<Rightarrow> (cn, [])
      | (cn, Inr message) \<Rightarrow> if channel 0 then (cn, [message]) else (cn, []))"

function forward_messages ::
  "wire \<Rightarrow> (nat \<Rightarrow> bool) \<Rightarrow> nat \<Rightarrow> connection \<Rightarrow> connection \<times> network_message list" where
  "forward_messages wr channel i cn =
     (case read_message_or_eof wr cn of
        (cn', Inr (Some message)) \<Rightarrow>
          if \<not> channel i then (cn', [])
          else (case forward_messages wr channel (Suc i) cn' of
                  (cn', messages) \<Rightarrow> (cn', message # messages))
      | (cn', Inr None) \<Rightarrow> (cn', [])
      | (cn', Inl e) \<Rightarrow> (cn', []))"
  by pat_completeness auto
termination forward_messages
  by (relation "measure (\<lambda>(wr, channel, i, cn). length (cn_incoming cn))")
    (auto intro!: read_message_shrinks[OF sym])

declare forward_messages.simps [simp del]

definition listener_session ::
  "wire \<Rightarrow> crypto \<Rightarrow> (nat \<Rightarrow> u64 option) \<Rightarrow> send_answers \<Rightarrow> wallet \<Rightarrow> (nat \<Rightarrow> bool) \<Rightarrow> connection \<Rightarrow>
   connection \<times> network_message list" where
  "listener_session wr cr clock sa w channel cn =
     (case read_message wr cn of
        (cn, Inl e) \<Rightarrow> (cn, [])
      | (cn, Inr handshake) \<Rightarrow>
          let challenge = (case handshake_challenge handshake of Some c \<Rightarrow> c | None \<Rightarrow> []);
              accepted = validate_handshake cr (wire_size wr) (clock 0) handshake;
              handshake_ack = create_handshake_ack cr (clock 1) w accepted challenge
          in (case send_message wr sa cn handshake_ack of
                (cn, Inl e) \<Rightarrow> (cn, [])
              | (cn, Inr _) \<Rightarrow>
                  if \<not> accepted then (cn, [])
                  else if \<not> channel 0 then (cn, [])
                  else (case forward_messages wr channel 1 cn of
                          (cn, messages) \<Rightarrow> (cn, handshake # messages))))"

section \<open>What is sent is read\<close>

lemma from_be_bytes_u32_to_be_bytes [simp]: "from_be_bytes_u32 (to_be_bytes w) = w"
proof (rule bit_word_eqI)
  fix n
  assume "n < LENGTH(32)"
  have add_or: "push_bit 8 (x :: u32) + ucast (b :: byte) = or (push_bit 8 x) (ucast b)" for x b
    by (rule disjunctive_add) (auto simp: bit_simps dest: bit_imp_le_length)
  have indices: "[0..<LENGTH(32) div 8] = [0, 1, 2, 3]"
    by (simp add: upt_rec)
  show "bit (from_be_bytes_u32 (to_be_bytes w)) n = bit w n"
    using \<open>n < LENGTH(32)\<close> unfolding from_be_bytes_u32_def to_be_bytes_def indices add_or
    by (cases "n < 8"; cases "n < 16"; cases "n < 24") (auto simp: bit_simps dest: bit_imp_le_length)
qed

lemma to_be_bytes_from_be_bytes_u32: "length bs = 4 \<Longrightarrow> to_be_bytes (from_be_bytes_u32 bs) = bs"
proof -
  assume "length bs = 4"
  then obtain a b c d where bs: "bs = [a, b, c, d]"
    by (auto simp: length_Suc_conv numeral_eq_Suc)
  have add_or: "push_bit 8 (x :: u32) + ucast (b :: byte) = or (push_bit 8 x) (ucast b)" for x b
    by (rule disjunctive_add) (auto simp: bit_simps dest: bit_imp_le_length)
  have indices: "[0..<LENGTH(32) div 8] = [0, 1, 2, 3]"
    by (simp add: upt_rec)
  have beyond: "\<not> bit (x :: byte) (8 + n)" "\<not> bit x (16 + n)" "\<not> bit x (24 + n)" for x n
    by (auto dest: bit_imp_le_length)
  show ?thesis
    unfolding bs from_be_bytes_u32_def to_be_bytes_def indices add_or
    by (auto intro!: bit_word_eqI simp: bit_simps beyond)
qed

text \<open>The bytes of a frame, and when a message has one.\<close>

definition frame_of :: "wire \<Rightarrow> network_message \<Rightarrow> byte list" where
  "frame_of wr m = to_be_bytes (word_of_nat (length (the (wr_to_vec wr m))) :: u32) @ the (wr_to_vec wr m)"

definition sendable :: "wire \<Rightarrow> network_message \<Rightarrow> bool" where
  "sendable wr m \<longleftrightarrow>
     (\<exists>bs. wr_to_vec wr m = Some bs \<and> bs \<noteq> [] \<and> length bs \<le> MAX_NETWORK_MESSAGE_BYTES)"

lemma message_bytes_u32: "n \<le> MAX_NETWORK_MESSAGE_BYTES \<Longrightarrow> n < 2 ^ 32"
  by (simp add: MAX_NETWORK_MESSAGE_BYTES_def)

lemma send_message_ok:
  "send_message wr sa cn m = (cn', Inr ()) \<longleftrightarrow>
     sendable wr m \<and> sa = all_written \<and> cn' = cn\<lparr>cn_outgoing := cn_outgoing cn @ frame_of wr m\<rparr>"
proof -
  have "sa = all_written \<longleftrightarrow> sa_header sa = Written \<and> sa_payload sa = Written \<and> sa_flush sa = Written"
    by (cases sa) (simp add: all_written_def)
  moreover have "\<not> 2 ^ 32 \<le> length bs" if "length bs \<le> MAX_NETWORK_MESSAGE_BYTES" for bs :: "byte list"
    using message_bytes_u32[OF that] by simp
  ultimately show ?thesis
    by (auto simp: send_message_def sendable_def frame_of_def write_stream_def not_less Let_def
        split: option.splits if_splits write_answer.splits)
qed

lemma send_message_incoming [simp]:
  "cn_incoming (fst (send_message wr sa cn m)) = cn_incoming cn"
  "cn_end (fst (send_message wr sa cn m)) = cn_end cn"
  by (auto simp: send_message_def write_stream_def Let_def split: option.split write_answer.split)

text \<open>A message is read exactly when the stream holds its length and its bytes.\<close>

lemma read_message_or_eof_Some:
  "read_message_or_eof wr cn = (cn', Inr (Some m)) \<longleftrightarrow>
     (\<exists>bs. bs \<noteq> [] \<and> length bs \<le> MAX_NETWORK_MESSAGE_BYTES \<and> wr_from_slice wr bs = Some m \<and>
       cn_incoming cn = to_be_bytes (word_of_nat (length bs) :: u32) @ bs @ cn_incoming cn' \<and>
       cn' = cn\<lparr>cn_incoming := cn_incoming cn'\<rparr>)" (is "?read \<longleftrightarrow> ?frame")
proof
  assume ?read
  then obtain h bs where h: "cn_incoming cn = h @ bs @ cn_incoming cn'" "length h = 4"
    and bs: "0 < length bs" "length bs \<le> MAX_NETWORK_MESSAGE_BYTES" "wr_from_slice wr bs = Some m"
      "length bs = unat (from_be_bytes_u32 h)" "cn' = cn\<lparr>cn_incoming := cn_incoming cn'\<rparr>"
    by (auto simp: read_message_or_eof_def read_header_Some read_exact_incoming Let_def result_simps
        split: sum.splits prod.splits option.splits if_splits)
  have "to_be_bytes (from_be_bytes_u32 h) = h"
    using h(2) by (rule to_be_bytes_from_be_bytes_u32)
  then show ?frame
    using h bs by auto
next
  assume ?frame
  then obtain bs where bs: "bs \<noteq> []" "length bs \<le> MAX_NETWORK_MESSAGE_BYTES" "wr_from_slice wr bs = Some m"
    "cn_incoming cn = to_be_bytes (word_of_nat (length bs) :: u32) @ bs @ cn_incoming cn'"
    "cn' = cn\<lparr>cn_incoming := cn_incoming cn'\<rparr>"
    by blast
  have len: "unat (word_of_nat (length bs) :: u32) = length bs"
    using message_bytes_u32[OF bs(2)] by (simp add: unsigned_of_nat take_bit_nat_eq_self)
  let ?header = "to_be_bytes (word_of_nat (length bs) :: u32)"
  have header: "read_header cn = (cn\<lparr>cn_incoming := bs @ cn_incoming cn'\<rparr>, Inr (Some ?header))"
    by (subst read_header_Some) (simp add: bs(4))
  have "cn\<lparr>cn_incoming := cn_incoming cn'\<rparr> = cn'"
    using bs(5) by simp
  then show ?read
    using bs(1-3) by (simp add: read_message_or_eof_def header len read_exact_def)
qed

lemma read_frame:
  assumes spec: "wire_spec wr" and m: "sendable wr m" and incoming: "cn_incoming cn = frame_of wr m @ rest"
  shows "read_message_or_eof wr cn = (cn\<lparr>cn_incoming := rest\<rparr>, Inr (Some m))"
  using m incoming spec
  by (subst read_message_or_eof_Some) (auto simp: sendable_def frame_of_def wire_spec_def)

lemma read_message_frame:
  assumes "wire_spec wr" and "sendable wr m" and "cn_incoming cn = frame_of wr m @ rest"
  shows "read_message wr cn = (cn\<lparr>cn_incoming := rest\<rparr>, Inr m)"
  by (simp add: read_message_def read_frame[OF assms])

text \<open>Everything that was sent before the peer closed is forwarded, in order.\<close>

lemma forward_sent:
  assumes spec: "wire_spec wr" and "list_all (sendable wr) ms"
    and "cn_incoming cn = concat (map (frame_of wr) ms)" and "cn_end cn = Closed"
    and channel: "\<And>j. channel j"
  shows "forward_messages wr channel i cn = (cn\<lparr>cn_incoming := []\<rparr>, ms)"
  using assms(2-4)
proof (induction ms arbitrary: i cn)
  case Nil
  then have "read_message_or_eof wr cn = (cn, Inr None)" "cn\<lparr>cn_incoming := []\<rparr> = cn"
    by (simp_all add: read_message_or_eof_def read_header_def)
  then show ?case
    by (simp add: forward_messages.simps)
next
  case (Cons m ms)
  then have "read_message_or_eof wr cn =
      (cn\<lparr>cn_incoming := concat (map (frame_of wr) ms)\<rparr>, Inr (Some m))"
    by (intro read_frame[OF spec]) simp_all
  moreover have "forward_messages wr channel (Suc i) (cn\<lparr>cn_incoming := concat (map (frame_of wr) ms)\<rparr>) =
      (cn\<lparr>cn_incoming := []\<rparr>, ms)"
    using Cons.IH[of "cn\<lparr>cn_incoming := concat (map (frame_of wr) ms)\<rparr>" "Suc i"] Cons.prems by simp
  ultimately show ?case
    using channel[of i] by (subst forward_messages.simps) simp
qed

section \<open>The two sides of a handshake\<close>

text \<open>The listener's session makes the decision of \<open>authenticate_incoming\<close>, then forwards.\<close>

lemma listener_session_eq:
  "listener_session wr cr clock sa w channel cn =
     (case authenticate_incoming wr cr clock sa w cn of
        (cn', Inl e) \<Rightarrow> (cn', [])
      | (cn', Inr handshake) \<Rightarrow>
          if \<not> channel 0 then (cn', [])
          else (case forward_messages wr channel 1 cn' of
                  (cn'', messages) \<Rightarrow> (cn'', handshake # messages)))"
  by (simp add: listener_session_def authenticate_incoming_def Let_def split: sum.split prod.split)

lemma authenticate_fresh_handshake:
  assumes wire: "wire_spec wr" and cr: "crypto_spec cr" and w: "wallet_wf cr w"
    and random: "length random = 32" and address: "a \<noteq> []" "length a \<le> MAX_PEER_ADDRESS_LENGTH"
    and clocks: "clock 0 = Some now" "clock 1 = Some t'" "unat t \<le> unat now + 120" "unat now \<le> unat t + 120"
    and cn: "cn_incoming cn = frame_of wr m @ rest"
    and m: "m = create_handshake cr (Some t) random w a" "sendable wr m"
    and ack: "m' = create_handshake_ack cr (Some t') w' True (hex_encode cr random)" "sendable wr m'"
  shows "authenticate_incoming wr cr clock all_written w' cn =
    (cn\<lparr>cn_incoming := rest, cn_outgoing := cn_outgoing cn @ frame_of wr m'\<rparr>, Inr m)"
proof -
  have fits: "\<exists>n. wire_size wr m = Some n \<and> n \<le> MAX_NETWORK_MESSAGE_BYTES"
    using m(2) by (auto simp: sendable_def wire_size_def)
  have valid: "validate_handshake cr (wire_size wr) (clock 0) m"
    and challenge: "handshake_challenge m = Some (hex_encode cr random)"
    using create_handshake_valid[OF cr w address random m(1)[symmetric] _ _ clocks(3,4)] fits clocks(1)
    by auto
  have "send_message wr all_written (cn\<lparr>cn_incoming := rest\<rparr>) m' =
      (cn\<lparr>cn_incoming := rest, cn_outgoing := cn_outgoing cn @ frame_of wr m'\<rparr>, Inr ())"
    using ack(2) by (subst send_message_ok) simp
  then show ?thesis
    using valid challenge ack(1) clocks(2)
    by (simp add: authenticate_incoming_def read_message_frame[OF wire m(2) cn])
qed

lemma connect_fresh:
  assumes wire: "wire_spec wr" and cr: "crypto_spec cr" and w': "wallet_wf cr w'"
    and clocks: "clock 0 = Some t" "clock 1 = Some now" "unat t' \<le> unat now + 120" "unat now \<le> unat t' + 120"
    and cn: "cn_incoming cn = frame_of wr m' @ rest"
    and m: "m = create_handshake cr (Some t) random w a" "sendable wr m"
    and ack: "m' = create_handshake_ack cr (Some t') w' True (hex_encode cr random)" "sendable wr m'"
  shows "connect_authenticated wr cr clock random all_written w a (Inr cn) =
    Inr (cn\<lparr>cn_incoming := rest, cn_outgoing := cn_outgoing cn @ frame_of wr m\<rparr>)"
proof -
  have challenge: "handshake_challenge m = Some (hex_encode cr random)"
    by (simp add: m(1) create_handshake_def handshake_challenge_def generate_handshake_challenge_def Let_def)
  have sent: "send_message wr all_written cn m =
      (cn\<lparr>cn_outgoing := cn_outgoing cn @ frame_of wr m\<rparr>, Inr ())"
    using m(2) by (subst send_message_ok) simp
  have answer: "read_message wr (cn\<lparr>cn_outgoing := cn_outgoing cn @ frame_of wr m\<rparr>) =
      (cn\<lparr>cn_incoming := rest, cn_outgoing := cn_outgoing cn @ frame_of wr m\<rparr>, Inr m')"
    using read_message_frame[OF wire ack(2), of "cn\<lparr>cn_outgoing := cn_outgoing cn @ frame_of wr m\<rparr>" rest] cn
    by simp
  have "validate_handshake_ack cr (clock 1) m' (hex_encode cr random)"
    unfolding ack(1) clocks(2) using create_handshake_ack_valid[OF cr w' clocks(3,4)] by simp
  then show ?thesis
    unfolding connect_authenticated_def clocks(1) m(1)[symmetric] Let_def
    by (simp add: challenge sent answer)
qed

text \<open>
  What a connection proves: the other side answered the challenge of this connection, and
  signed the answer with the key that its node id is derived from.
\<close>

lemma connect_authenticated_fresh_ack:
  assumes "connect_authenticated wr cr clock random sa w a dialled = Inr cn"
  shows "\<exists>nid pk t s. address_from_public_key cr pk = Some nid \<and>
    wallet_verify cr pk (node_handshake_ack_message nid pk NETWORK_ID NETWORK_PROTOCOL_VERSION t
      (hex_encode cr random) True) s \<and> handshake_timestamp_valid (clock 1) t"
proof -
  let ?m = "create_handshake cr (clock 0) random w a"
  have "handshake_challenge ?m = Some (hex_encode cr random)"
    by (simp add: create_handshake_def handshake_challenge_def generate_handshake_challenge_def Let_def)
  then obtain cc where "(case send_message wr sa cc ?m of
      (cn, Inl e) \<Rightarrow> Inl e
    | (cn, Inr _) \<Rightarrow>
   (case read_message wr cn of
      (cn, Inl e) \<Rightarrow> Inl e
    | (cn, Inr response) \<Rightarrow>
        if \<not> validate_handshake_ack cr (clock 1) response (hex_encode cr random)
        then Inl (Transport_error Ack_validation_failed) else Inr cn)) = Inr cn"
    using assms by (auto simp: connect_authenticated_def Let_def result_simps simp del: One_nat_def)
  then obtain m where "validate_handshake_ack cr (clock 1) m (hex_encode cr random)"
    by (auto split: sum.splits prod.splits if_splits)
  then show ?thesis
    by (auto simp: validate_handshake_ack_def handshake_ack_fields_valid_def verify_node_handshake_ack_def
        split: network_message.splits option.splits if_splits) blast
qed

end
