(* ===== verification/Vault.thy ===== *)
theory Vault
  imports Storage Consensus
begin

text \<open>
  What the encrypted key files of \<open>src/validator.rs\<close> and \<open>src/user_wallet.rs\<close> share:
  the key derived from a password (crate \<open>argon2\<close>), the authenticated cipher
  (\<open>chacha20poly1305\<close>), the JSON envelope, and a private file that is published by a hard link
  and so never replaces another. The two sources contain the same code; here it stands once,
  with the file it serves as an argument. The crates are a parameter (\<open>vault\<close>). The interface
  \<open>sealed_store\<close> is what the keystores rely on: what was sealed and published is read back with
  the same password, and what is published stays.
\<close>

section \<open>The crates\<close>

record encrypted_keystore =
  ek_version :: u32
  ek_kdf :: string
  ek_kdf_memory_kib :: u32
  ek_kdf_iterations :: u32
  ek_kdf_parallelism :: u32
  ek_cipher :: string
  ek_salt_hex :: string
  ek_nonce_hex :: string
  ek_ciphertext_hex :: string

record vault =
  va_params :: "u32 \<Rightarrow> u32 \<Rightarrow> u32 \<Rightarrow> nat \<Rightarrow> bool"  \<comment> \<open>\<open>Params::new\<close> is \<open>Ok\<close>\<close>
  va_argon2id :: "u32 \<Rightarrow> u32 \<Rightarrow> u32 \<Rightarrow> byte list \<Rightarrow> byte list \<Rightarrow> byte list option"
    \<comment> \<open>\<open>hash_password_into\<close>: password, salt\<close>
  va_encrypt :: "byte list \<Rightarrow> byte list \<Rightarrow> byte list \<Rightarrow> byte list \<Rightarrow> byte list option"
    \<comment> \<open>\<open>Aead::encrypt\<close>: key, nonce, associated data, message\<close>
  va_decrypt :: "byte list \<Rightarrow> byte list \<Rightarrow> byte list \<Rightarrow> byte list \<Rightarrow> byte list option"
  va_to_vec_pretty :: "encrypted_keystore \<Rightarrow> byte list option"
  va_from_slice :: "byte list \<Rightarrow> encrypted_keystore option"

text \<open>The documented behaviour: decryption inverts encryption, and JSON reads back.\<close>

definition vault_spec :: "vault \<Rightarrow> bool" where
  "vault_spec va \<longleftrightarrow>
     (\<forall>key nonce aad m c. va_encrypt va key nonce aad m = Some c \<longrightarrow>
        va_decrypt va key nonce aad c = Some m) \<and>
     (\<forall>envelope bs. va_to_vec_pretty va envelope = Some bs \<longrightarrow>
        bs \<noteq> [] \<and> va_from_slice va bs = Some envelope)"

text \<open>What the operating system answers, and the bytes its random source yields.\<close>

record key_io =
  ki_metadata :: bool             \<comment> \<open>\<open>fs::metadata\<close>, \<open>Path::exists\<close> of a file that is there\<close>
  ki_open :: bool
  ki_file_metadata :: bool        \<comment> \<open>\<open>File::metadata\<close>\<close>
  ki_read :: bool
  ki_create_dir :: bool
  ki_create_new :: bool
  ki_write_fails :: "nat option"
  ki_sync :: bool
  ki_hard_link :: bool
  ki_remove :: bool
  ki_salt_material :: "byte list"
  ki_nonce :: "byte list"
  ki_temp_name :: "byte list"
  ki_signing_key :: "byte list"

definition generated_lengths :: "key_io \<Rightarrow> bool" where
  "generated_lengths io \<longleftrightarrow> length (ki_salt_material io) = 32 \<and> length (ki_nonce io) = 12 \<and>
     length (ki_temp_name io) = 32 \<and> length (ki_signing_key io) = 32"

text \<open>Nothing refused to read.\<close>

definition readable :: "key_io \<Rightarrow> bool" where
  "readable io \<longleftrightarrow> ki_metadata io \<and> ki_open io \<and> ki_file_metadata io \<and> ki_read io"

section \<open>Sealing\<close>

definition ARGON2_MEMORY_KIB :: u32 where "ARGON2_MEMORY_KIB = 19456"
definition ARGON2_ITERATIONS :: u32 where "ARGON2_ITERATIONS = 2"
definition ARGON2_PARALLELISM :: u32 where "ARGON2_PARALLELISM = 1"

definition derive_key :: "keystore \<Rightarrow> vault \<Rightarrow> string \<Rightarrow> byte list \<Rightarrow> byte list result" where
  "derive_key file va password salt =
     (if length password < 12 then Inl (Keystore_error file Password_too_short)
      else if \<not> va_params va ARGON2_MEMORY_KIB ARGON2_ITERATIONS ARGON2_PARALLELISM 32
      then Inl (Keystore_error file Kdf_parameters_invalid)
      else ok_or (va_argon2id va ARGON2_MEMORY_KIB ARGON2_ITERATIONS ARGON2_PARALLELISM
                    (as_bytes password) salt) (Keystore_error file Kdf_failed))"

text \<open>\<open>ChaCha20Poly1305::new_from_slice\<close> takes keys of 32 bytes.\<close>

definition encrypt ::
  "keystore \<Rightarrow> crypto \<Rightarrow> vault \<Rightarrow> key_io \<Rightarrow> string \<Rightarrow> byte list \<Rightarrow> byte list \<Rightarrow> byte list result"
where
  "encrypt file cr va io password plaintext aad =
     (let salt = take 16 (ki_salt_material io) in
      and_then (derive_key file va password salt) (\<lambda>key.
        if length key \<noteq> 32 then Inl (Keystore_error file Encryption_key_invalid)
        else let nonce = ki_nonce io in
          and_then (ok_or (va_encrypt va key nonce aad plaintext)
                      (Keystore_error file Key_not_encrypted)) (\<lambda>ciphertext.
            let envelope = \<lparr>
              ek_version = 1,
              ek_kdf = ''argon2id'',
              ek_kdf_memory_kib = ARGON2_MEMORY_KIB,
              ek_kdf_iterations = ARGON2_ITERATIONS,
              ek_kdf_parallelism = ARGON2_PARALLELISM,
              ek_cipher = ''chacha20poly1305'',
              ek_salt_hex = hex_encode cr salt,
              ek_nonce_hex = hex_encode cr nonce,
              ek_ciphertext_hex = hex_encode cr ciphertext\<rparr>
            in ok_or (va_to_vec_pretty va envelope) (Keystore_error file Envelope_not_created))))"

definition decrypt ::
  "keystore \<Rightarrow> crypto \<Rightarrow> vault \<Rightarrow> string \<Rightarrow> byte list \<Rightarrow> byte list \<Rightarrow> byte list result" where
  "decrypt file cr va password encrypted aad =
     and_then (ok_or (va_from_slice va encrypted) (Keystore_error file Envelope_invalid)) (\<lambda>envelope.
       if ek_version envelope \<noteq> 1 \<or> ek_kdf envelope \<noteq> ''argon2id'' \<or>
          ek_kdf_memory_kib envelope \<noteq> ARGON2_MEMORY_KIB \<or>
          ek_kdf_iterations envelope \<noteq> ARGON2_ITERATIONS \<or>
          ek_kdf_parallelism envelope \<noteq> ARGON2_PARALLELISM \<or>
          ek_cipher envelope \<noteq> ''chacha20poly1305''
       then Inl (Keystore_error file Encryption_not_supported)
       else and_then (ok_or (hex_decode cr (ek_salt_hex envelope))
                        (Keystore_error file Salt_format_invalid)) (\<lambda>salt.
         if length salt \<noteq> 16 then Inl (Keystore_error file Salt_length_invalid)
         else and_then (ok_or (hex_decode cr (ek_nonce_hex envelope))
                          (Keystore_error file Nonce_format_invalid)) (\<lambda>nonce.
           if length nonce \<noteq> 12 then Inl (Keystore_error file Nonce_length_invalid)
           else and_then (ok_or (hex_decode cr (ek_ciphertext_hex envelope))
                            (Keystore_error file Ciphertext_format_invalid)) (\<lambda>ciphertext.
                and_then (derive_key file va password salt) (\<lambda>key.
                  if length key \<noteq> 32 then Inl (Keystore_error file Decryption_key_invalid)
                  else ok_or (va_decrypt va key nonce aad ciphertext)
                         (Keystore_error file Password_or_file_wrong))))))"

section \<open>Private files\<close>

definition remove_file :: "key_io \<Rightarrow> file_system \<Rightarrow> path \<Rightarrow> file_system" where
  "remove_file io fs p = (if ki_remove io then fmdrop p fs else fs)"

definition write_private_file ::
  "keystore \<Rightarrow> key_io \<Rightarrow> file_system \<Rightarrow> path \<Rightarrow> byte list \<Rightarrow> file_system \<times> unit result" where
  "write_private_file file io fs p contents =
     (if \<not> ki_create_new io \<or> fmlookup fs p \<noteq> None
      then (fs, Inl (Keystore_error file Keystore_temp_not_created))
      else case ki_write_fails io of
             Some n \<Rightarrow> (fmupd p (take n contents) fs, Inl (Keystore_error file Keystore_not_written))
           | None \<Rightarrow>
               if \<not> ki_sync io
               then (fmupd p contents fs, Inl (Keystore_error file Keystore_not_synchronized))
               else (fmupd p contents fs, Inr ()))"

text \<open>\<open>fs::hard_link\<close> fails when the new name is taken.\<close>

definition hard_link :: "key_io \<Rightarrow> file_system \<Rightarrow> path \<Rightarrow> path \<Rightarrow> file_system option" where
  "hard_link io fs old new =
     (case (fmlookup fs old, fmlookup fs new) of
        (Some contents, None) \<Rightarrow> if ki_hard_link io then Some (fmupd new contents fs) else None
      | _ \<Rightarrow> None)"

definition temp_path :: "crypto \<Rightarrow> key_io \<Rightarrow> string \<Rightarrow> string \<Rightarrow> path" where
  "temp_path cr io dir temp_prefix =
     (dir, temp_prefix @ ''-'' @ hex_encode cr (ki_temp_name io) @ ''.tmp'')"

text \<open>The steps both keystores take once the directory is there.\<close>

definition publish_new ::
  "keystore \<Rightarrow> crypto \<Rightarrow> key_io \<Rightarrow> file_system \<Rightarrow> string \<Rightarrow> path \<Rightarrow> string \<Rightarrow> byte list \<Rightarrow>
   file_system \<times> unit result" where
  "publish_new file cr io fs dir final_path temp_prefix contents =
     (let temp = temp_path cr io dir temp_prefix in
      case write_private_file file io fs temp contents of
        (fs, Inl e) \<Rightarrow> (remove_file io fs temp, Inl e)
      | (fs, Inr _) \<Rightarrow>
          (case hard_link io fs temp final_path of
             None \<Rightarrow> (remove_file io fs temp, Inl (Keystore_error file Keystore_not_published))
           | Some fs \<Rightarrow> (remove_file io fs temp, Inr ())))"

definition store_without_overwrite ::
  "keystore \<Rightarrow> crypto \<Rightarrow> key_io \<Rightarrow> file_system \<Rightarrow> string \<Rightarrow> path \<Rightarrow> string \<Rightarrow> byte list \<Rightarrow>
   file_system \<times> unit result" where
  "store_without_overwrite file cr io fs dir final_path temp_prefix serialized =
     (if \<not> ki_create_dir io then (fs, Inl (Keystore_error file Keystore_directory_not_created))
      else publish_new file cr io fs dir final_path temp_prefix serialized)"

section \<open>The interface\<close>

locale sealed_box =
  fixes seal :: "'k \<Rightarrow> 'r \<Rightarrow> 'p \<Rightarrow> 'm \<Rightarrow> 'c result"
    and unseal :: "'k \<Rightarrow> 'p \<Rightarrow> 'c \<Rightarrow> 'm result"
    and spec :: "'k \<Rightarrow> bool" and fresh :: "'r \<Rightarrow> bool"
  assumes unseal_seal: "\<lbrakk>spec k; fresh r; seal k r p m = Inr c\<rbrakk> \<Longrightarrow> unseal k p c = Inr m"
begin

lemma seal_determines:
  "\<lbrakk>spec k; fresh r; fresh r'; seal k r p m = Inr c; seal k r' p m' = Inr c\<rbrakk> \<Longrightarrow> m = m'"
  using unseal_seal by (metis sum.inject(2))

end

locale write_once =
  fixes put :: "'w \<Rightarrow> 'io \<Rightarrow> 'fs \<Rightarrow> 'c \<Rightarrow> 'fs \<times> unit result"
    and get :: "'w \<Rightarrow> 'fs \<Rightarrow> 'c option" and place :: "'w \<Rightarrow> bool"
  assumes put_ok: "\<lbrakk>place w; put w io fs c = (fs', Inr ())\<rbrakk> \<Longrightarrow> get w fs = None \<and> get w fs' = Some c"
    and put_error: "\<lbrakk>place w; put w io fs c = (fs', Inl e)\<rbrakk> \<Longrightarrow> get w fs' = get w fs"
begin

lemma put_keeps:
  assumes "place w" and "get w fs = Some c"
  shows "get w (fst (put w io fs c')) = Some c"
proof (cases "put w io fs c'")
  case (Pair fs' r)
  then show ?thesis
    using put_ok[OF assms(1)] put_error[OF assms(1)] assms(2) by (cases r) force+
qed

end

locale sealed_store = sealed_box seal unseal spec fresh + write_once put get place
  for seal :: "'k \<Rightarrow> 'r \<Rightarrow> 'p \<Rightarrow> 'm \<Rightarrow> 'c result" and unseal spec fresh
    and put :: "'w \<Rightarrow> 'io \<Rightarrow> 'fs \<Rightarrow> 'c \<Rightarrow> 'fs \<times> unit result" and get place
begin

lemma stored_message:
  assumes "spec k" and "fresh r" and "place w"
    and "seal k r p m = Inr c" and "put w io fs c = (fs', Inr ())"
  obtains c where "get w fs' = Some c" "unseal k p c = Inr m" "get w fs = None"
  using that unseal_seal[OF assms(1,2,4)] put_ok[OF assms(3,5)] by blast

end

section \<open>The code's sealing and publishing\<close>

lemma decrypt_encrypt:
  assumes "hex_spec cr" and "vault_spec va" and io: "generated_lengths io"
    and "encrypt file cr va io password plaintext aad = Inr c"
  shows "decrypt file cr va password c aad = Inr plaintext"
  using assms
  by (auto simp: encrypt_def decrypt_def Let_def result_simps hex_spec_def vault_spec_def
      generated_lengths_def split: if_splits)

lemma publish_new_ok:
  assumes "publish_new file cr io fs dir final_path temp_prefix contents = (fs', Inr ())"
    and "final_path \<noteq> temp_path cr io dir temp_prefix"
  shows "fmlookup fs final_path = None" "fmlookup fs' final_path = Some contents"
    "\<And>p. \<lbrakk>p \<noteq> final_path; p \<noteq> temp_path cr io dir temp_prefix\<rbrakk> \<Longrightarrow> fmlookup fs' p = fmlookup fs p"
  using assms
  by (auto simp: publish_new_def write_private_file_def hard_link_def remove_file_def Let_def
      split: if_splits option.splits)

lemma publish_new_error:
  assumes "publish_new file cr io fs dir final_path temp_prefix contents = (fs', Inl e)"
    and "p \<noteq> temp_path cr io dir temp_prefix"
  shows "fmlookup fs' p = fmlookup fs p"
  using assms
  by (auto simp: publish_new_def write_private_file_def hard_link_def remove_file_def Let_def
      split: if_splits option.splits)

text \<open>The names of the temporary files start with a dot, those of the keystores do not.\<close>

definition place_ok :: "keystore \<times> crypto \<times> string \<times> path \<times> string \<Rightarrow> bool" where
  "place_ok = (\<lambda>(file, cr, dir, final_path, temp_prefix).
     temp_prefix \<noteq> [] \<and> (snd final_path = [] \<or> hd (snd final_path) \<noteq> hd temp_prefix))"

lemma place_ok_temp:
  assumes "place_ok (file, cr, dir, final_path, temp_prefix)"
  shows "final_path \<noteq> temp_path cr io dir temp_prefix"
  using assms by (cases temp_prefix) (auto simp: place_ok_def temp_path_def)

interpretation keystore: sealed_store
  "\<lambda>(file, cr, va, aad) io password m. encrypt file cr va io password m aad"
  "\<lambda>(file, cr, va, aad) password c. decrypt file cr va password c aad"
  "\<lambda>(file, cr, va, aad). hex_spec cr \<and> vault_spec va" generated_lengths
  "\<lambda>(file, cr, dir, final_path, temp_prefix) io fs c.
     publish_new file cr io fs dir final_path temp_prefix c"
  "\<lambda>(file, cr, dir, final_path, temp_prefix) fs. fmlookup fs final_path" place_ok
proof unfold_locales
  show "(case k of (file, cr, va, aad) \<Rightarrow> \<lambda>password c. decrypt file cr va password c aad) p c = Inr m"
    if "case k of (file, cr, va, aad) \<Rightarrow> hex_spec cr \<and> vault_spec va" "generated_lengths r"
      "(case k of (file, cr, va, aad) \<Rightarrow> \<lambda>io password m. encrypt file cr va io password m aad) r p m = Inr c"
    for k r p m c
    using that decrypt_encrypt by (auto split: prod.splits)
qed (auto split: prod.splits dest: place_ok_temp publish_new_ok(1,2) publish_new_error)

text \<open>Files whose name does not start with a dot are not temporary files.\<close>

lemma publish_new_keeps:
  assumes "fmlookup fs p = Some c" and "snd p = [] \<or> hd (snd p) \<noteq> hd prefix" and "prefix \<noteq> []"
  shows "fmlookup (fst (publish_new file cr io fs dir final_path prefix contents)) p = Some c"
proof -
  have "p \<noteq> temp_path cr io dir prefix"
    using assms(2,3) by (cases prefix) (auto simp: temp_path_def)
  then show ?thesis
    using assms(1) by (auto simp: publish_new_def write_private_file_def hard_link_def remove_file_def
        Let_def split: option.splits)
qed

end
