(* ===== verification/Validator_Keystore.thy ===== *)
theory Validator_Keystore
  imports Vault
begin

text \<open>
  \<open>src/validator.rs\<close>: the encrypted key of a validator, bound to the network and to the
  fingerprint of the genesis, and the candidate key that waits for a place in the validator
  set. A keystore is its data directory. The lemmas show that a provisioned key is loaded with
  the same password and the same network only, that a candidate becomes that key, and that no
  operation replaces a key file.
\<close>

section \<open>Files and their contents\<close>

definition VALIDATOR_KEYSTORE_FILE_NAME :: string where
  "VALIDATOR_KEYSTORE_FILE_NAME = ''validator-keystore.json''"
definition VALIDATOR_KEYSTORE_FORMAT :: string where
  "VALIDATOR_KEYSTORE_FORMAT = ''kybernetes-validator-key-v1''"
definition VALIDATOR_KEYSTORE_AAD :: "byte list" where
  "VALIDATOR_KEYSTORE_AAD = as_bytes ''KYBERNETES_VALIDATOR_KEYSTORE_V1''"
definition VALIDATOR_CANDIDATE_FILE_NAME :: string where
  "VALIDATOR_CANDIDATE_FILE_NAME = ''validator-candidate.json''"
definition VALIDATOR_CANDIDATE_FORMAT :: string where
  "VALIDATOR_CANDIDATE_FORMAT = ''kybernetes-validator-candidate-v1''"
definition VALIDATOR_CANDIDATE_AAD :: "byte list" where
  "VALIDATOR_CANDIDATE_AAD = as_bytes ''KYBERNETES_VALIDATOR_CANDIDATE_V1''"
definition VALIDATOR_CANDIDATE_NETWORK_FAMILY :: string where
  "VALIDATOR_CANDIDATE_NETWORK_FAMILY = ''kybernetes''"
definition MAX_VALIDATOR_KEYSTORE_BYTES :: nat where
  "MAX_VALIDATOR_KEYSTORE_BYTES = 1024 * 1024"

record stored_validator_key =
  sk_format :: string
  sk_network_id :: string
  sk_genesis_fingerprint :: string
  sk_validator_address :: string
  sk_private_key_hex :: string

record stored_validator_candidate =
  sc_format :: string
  sc_network_family :: string
  sc_validator_address :: string
  sc_private_key_hex :: string

record validator_identity =
  vi_wallet :: wallet

record validator_candidate =
  vc_wallet :: wallet

record validator_activation =
  ac_validator_address :: string
  ac_candidate_removed :: bool

text \<open>\<open>serde_json\<close> on the two payloads.\<close>

record validator_json =
  vj_key_to_vec :: "stored_validator_key \<Rightarrow> byte list option"
  vj_key_from_slice :: "byte list \<Rightarrow> stored_validator_key option"
  vj_candidate_to_vec :: "stored_validator_candidate \<Rightarrow> byte list option"
  vj_candidate_from_slice :: "byte list \<Rightarrow> stored_validator_candidate option"

definition validator_json_spec :: "validator_json \<Rightarrow> bool" where
  "validator_json_spec vj \<longleftrightarrow>
     (\<forall>k bs. vj_key_to_vec vj k = Some bs \<longrightarrow> vj_key_from_slice vj bs = Some k) \<and>
     (\<forall>c bs. vj_candidate_to_vec vj c = Some bs \<longrightarrow> vj_candidate_from_slice vj bs = Some c)"

definition validator_keystore_path :: "string \<Rightarrow> path" where
  "validator_keystore_path dir = (dir, VALIDATOR_KEYSTORE_FILE_NAME)"

definition validator_candidate_path :: "string \<Rightarrow> path" where
  "validator_candidate_path dir = (dir, VALIDATOR_CANDIDATE_FILE_NAME)"

text \<open>A file that is not there answers \<open>NotFound\<close>, whatever else the system would say.\<close>

definition path_exists :: "keystore \<Rightarrow> key_io \<Rightarrow> file_system \<Rightarrow> path \<Rightarrow> bool result" where
  "path_exists file io fs p =
     (case fmlookup fs p of
        None \<Rightarrow> Inr False
      | Some _ \<Rightarrow>
          if ki_metadata io then Inr True else Inl (Keystore_error file Keystore_access_unknown))"

definition validator_keystore_exists :: "key_io \<Rightarrow> file_system \<Rightarrow> string \<Rightarrow> bool result" where
  "validator_keystore_exists io fs dir =
     path_exists Validator_keystore io fs (validator_keystore_path dir)"

definition validator_candidate_exists :: "key_io \<Rightarrow> file_system \<Rightarrow> string \<Rightarrow> bool result" where
  "validator_candidate_exists io fs dir =
     path_exists Validator_candidate_keystore io fs (validator_candidate_path dir)"

definition read_encrypted_file ::
  "keystore \<Rightarrow> key_io \<Rightarrow> file_system \<Rightarrow> path \<Rightarrow> byte list option result" where
  "read_encrypted_file file io fs p =
     (case fmlookup fs p of
        None \<Rightarrow> Inr None
      | Some bytes \<Rightarrow>
          if \<not> ki_open io then Inl (Keystore_error file Keystore_not_opened)
          else if \<not> ki_file_metadata io then Inl (Keystore_error file Keystore_metadata_not_read)
          else if length bytes = 0 \<or> length bytes > MAX_VALIDATOR_KEYSTORE_BYTES
          then Inl (Keystore_error file Keystore_size_invalid)
          else let encrypted = take (MAX_VALIDATOR_KEYSTORE_BYTES + 1) bytes in
            if \<not> ki_read io then Inl (Keystore_error file Keystore_not_read)
            else if length encrypted > MAX_VALIDATOR_KEYSTORE_BYTES
            then Inl (Keystore_error file Keystore_size_invalid)
            else Inr (Some encrypted))"

section \<open>The active key\<close>

definition identity_from_private_key ::
  "crypto \<Rightarrow> string \<Rightarrow> consensus \<Rightarrow> validator_identity result" where
  "identity_from_private_key cr private_key co =
     and_then (from_private_key_hex cr private_key) (\<lambda>w.
       if \<not> is_validator_allowed co (w_address w)
       then Inl (Keystore_error Validator_keystore Key_not_in_validator_set)
       else Inr \<lparr>vi_wallet = w\<rparr>)"

definition identity_address :: "validator_identity \<Rightarrow> string" where
  "identity_address identity = w_address (vi_wallet identity)"

definition provision ::
  "crypto \<Rightarrow> vault \<Rightarrow> validator_json \<Rightarrow> key_io \<Rightarrow> file_system \<Rightarrow> string \<Rightarrow> string \<Rightarrow> string \<Rightarrow>
   consensus \<Rightarrow> string \<Rightarrow> file_system \<times> string result" where
  "provision cr va vj io fs dir password private_key co genesis_fingerprint =
     (case and_then (identity_from_private_key cr private_key co) (\<lambda>identity.
           and_then (validator_keystore_exists io fs dir) (\<lambda>present.
             if present then Inl (Keystore_error Validator_keystore Keystore_exists)
             else let stored_key = \<lparr>
                    sk_format = VALIDATOR_KEYSTORE_FORMAT,
                    sk_network_id = NETWORK_ID,
                    sk_genesis_fingerprint = genesis_fingerprint,
                    sk_validator_address = identity_address identity,
                    sk_private_key_hex = private_key\<rparr> in
               and_then (ok_or (vj_key_to_vec vj stored_key)
                           (Keystore_error Validator_keystore Payload_not_created)) (\<lambda>plaintext.
               and_then (encrypt Validator_keystore cr va io password plaintext
                           VALIDATOR_KEYSTORE_AAD) (\<lambda>serialized.
                 Inr (identity_address identity, serialized))))) of
        Inl e \<Rightarrow> (fs, Inl e)
      | Inr (validator_address, serialized) \<Rightarrow>
          (case store_without_overwrite Validator_keystore cr io fs dir (validator_keystore_path dir)
                  ''.validator-keystore'' serialized of
             (fs, Inl e) \<Rightarrow> (fs, Inl e)
           | (fs, Inr _) \<Rightarrow> (fs, Inr validator_address)))"

definition load_authorized ::
  "crypto \<Rightarrow> vault \<Rightarrow> validator_json \<Rightarrow> key_io \<Rightarrow> file_system \<Rightarrow> string \<Rightarrow> string \<Rightarrow>
   consensus \<Rightarrow> string \<Rightarrow> validator_identity option result" where
  "load_authorized cr va vj io fs dir password co expected_genesis_fingerprint =
     and_then (read_encrypted_file Validator_keystore io fs (validator_keystore_path dir)) (\<lambda>found.
       case found of
         None \<Rightarrow> Inr None
       | Some encrypted \<Rightarrow>
           and_then (decrypt Validator_keystore cr va password encrypted VALIDATOR_KEYSTORE_AAD)
             (\<lambda>plaintext.
           and_then (ok_or (vj_key_from_slice vj plaintext)
                       (Keystore_error Validator_keystore Payload_invalid)) (\<lambda>stored_key.
             if sk_format stored_key \<noteq> VALIDATOR_KEYSTORE_FORMAT \<or>
                sk_network_id stored_key \<noteq> NETWORK_ID \<or>
                sk_genesis_fingerprint stored_key \<noteq> expected_genesis_fingerprint
             then Inl (Keystore_error Validator_keystore Identity_mismatch)
             else and_then (identity_from_private_key cr (sk_private_key_hex stored_key) co)
               (\<lambda>identity.
                 if identity_address identity \<noteq> sk_validator_address stored_key
                 then Inl (Keystore_error Validator_keystore Keystore_address_mismatch)
                 else Inr (Some identity)))))"

section \<open>Candidates\<close>

definition candidate_generate ::
  "crypto \<Rightarrow> vault \<Rightarrow> validator_json \<Rightarrow> key_io \<Rightarrow> file_system \<Rightarrow> string \<Rightarrow> string \<Rightarrow>
   file_system \<times> string result" where
  "candidate_generate cr va vj io fs dir password =
     (case and_then (validator_candidate_exists io fs dir) (\<lambda>present.
           if present then Inl (Keystore_error Validator_candidate_keystore Keystore_exists)
           else let w = wallet_new cr (ki_signing_key io);
                    stored_candidate = \<lparr>
                      sc_format = VALIDATOR_CANDIDATE_FORMAT,
                      sc_network_family = VALIDATOR_CANDIDATE_NETWORK_FAMILY,
                      sc_validator_address = w_address w,
                      sc_private_key_hex = private_key_hex cr w\<rparr> in
             and_then (ok_or (vj_candidate_to_vec vj stored_candidate)
                         (Keystore_error Validator_candidate_keystore Payload_not_created))
               (\<lambda>plaintext.
             and_then (encrypt Validator_keystore cr va io password plaintext
                         VALIDATOR_CANDIDATE_AAD) (\<lambda>serialized.
               Inr (w_address w, serialized)))) of
        Inl e \<Rightarrow> (fs, Inl e)
      | Inr (validator_address, serialized) \<Rightarrow>
          (case store_without_overwrite Validator_keystore cr io fs dir (validator_candidate_path dir)
                  ''.validator-candidate'' serialized of
             (fs, Inl e) \<Rightarrow> (fs, Inl e)
           | (fs, Inr _) \<Rightarrow> (fs, Inr validator_address)))"

definition candidate_load ::
  "crypto \<Rightarrow> vault \<Rightarrow> validator_json \<Rightarrow> key_io \<Rightarrow> file_system \<Rightarrow> string \<Rightarrow> string \<Rightarrow>
   validator_candidate option result" where
  "candidate_load cr va vj io fs dir password =
     and_then (read_encrypted_file Validator_candidate_keystore io fs (validator_candidate_path dir))
       (\<lambda>found.
         case found of
           None \<Rightarrow> Inr None
         | Some encrypted \<Rightarrow>
             and_then (decrypt Validator_keystore cr va password encrypted VALIDATOR_CANDIDATE_AAD)
               (\<lambda>plaintext.
             and_then (ok_or (vj_candidate_from_slice vj plaintext)
                         (Keystore_error Validator_candidate_keystore Payload_invalid))
               (\<lambda>stored_candidate.
               if sc_format stored_candidate \<noteq> VALIDATOR_CANDIDATE_FORMAT \<or>
                  sc_network_family stored_candidate \<noteq> VALIDATOR_CANDIDATE_NETWORK_FAMILY
               then Inl (Keystore_error Validator_candidate_keystore Identity_mismatch)
               else and_then (from_private_key_hex cr (sc_private_key_hex stored_candidate)) (\<lambda>w.
                 if w_address w \<noteq> sc_validator_address stored_candidate
                 then Inl (Keystore_error Validator_candidate_keystore Keystore_address_mismatch)
                 else Inr (Some \<lparr>vc_wallet = w\<rparr>)))))"

text \<open>\<open>io\<close> serves the checks and the new file, \<open>ki_remove io\<close> also the removal of the candidate.\<close>

definition candidate_activate ::
  "crypto \<Rightarrow> vault \<Rightarrow> validator_json \<Rightarrow> key_io \<Rightarrow> file_system \<Rightarrow> string \<Rightarrow> string \<Rightarrow>
   consensus \<Rightarrow> string \<Rightarrow> file_system \<times> validator_activation result" where
  "candidate_activate cr va vj io fs dir password co genesis_fingerprint =
     (case and_then (validator_keystore_exists io fs dir) (\<lambda>present.
           if present then Inl (Keystore_error Validator_keystore Keystore_exists)
           else and_then (candidate_load cr va vj io fs dir password) (\<lambda>loaded.
             ok_or loaded (Keystore_error Validator_candidate_keystore Candidate_not_found))) of
        Inl e \<Rightarrow> (fs, Inl e)
      | Inr candidate \<Rightarrow>
          let validator_address = w_address (vc_wallet candidate);
              private_key = private_key_hex cr (vc_wallet candidate)
          in (case provision cr va vj io fs dir password private_key co genesis_fingerprint of
                (fs, Inl e) \<Rightarrow> (fs, Inl e)
              | (fs, Inr _) \<Rightarrow>
                  let candidate_removed =
                        ki_remove io \<and> fmlookup fs (validator_candidate_path dir) \<noteq> None
                  in (remove_file io fs (validator_candidate_path dir),
                      Inr \<lparr>ac_validator_address = validator_address,
                            ac_candidate_removed = candidate_removed\<rparr>)))"

section \<open>A provisioned key is the key that is loaded\<close>

lemma places_ok [simp]:
  "place_ok (file, cr, dir, validator_keystore_path dir', ''.validator-keystore'')"
  "place_ok (file, cr, dir, validator_candidate_path dir', ''.validator-candidate'')"
  by (simp_all add: place_ok_def validator_keystore_path_def validator_candidate_path_def
      VALIDATOR_KEYSTORE_FILE_NAME_def VALIDATOR_CANDIDATE_FILE_NAME_def)

lemma keystore_paths_differ [simp]: "validator_keystore_path dir \<noteq> validator_candidate_path dir'"
  by (simp add: validator_keystore_path_def validator_candidate_path_def
      VALIDATOR_KEYSTORE_FILE_NAME_def VALIDATOR_CANDIDATE_FILE_NAME_def)

lemma store_without_overwrite_Inr:
  "store_without_overwrite file cr io fs dir p prefix c = (fs', Inr u) \<longleftrightarrow>
     ki_create_dir io \<and> publish_new file cr io fs dir p prefix c = (fs', Inr u)"
  by (auto simp: store_without_overwrite_def)

lemma read_encrypted_file_Some:
  "read_encrypted_file file io fs p = Inr (Some bs) \<longleftrightarrow>
     fmlookup fs p = Some bs \<and> ki_open io \<and> ki_file_metadata io \<and> ki_read io \<and> bs \<noteq> [] \<and>
     length bs \<le> MAX_VALIDATOR_KEYSTORE_BYTES"
  by (auto simp: read_encrypted_file_def Let_def split: option.splits)

lemma provision_Inr:
  assumes "provision cr va vj io fs dir password private_key co g = (fs', Inr a)"
  obtains w plaintext c where "from_private_key_hex cr private_key = Inr w" "a = w_address w"
    "is_validator_allowed co a" "ki_create_dir io"
    "vj_key_to_vec vj \<lparr>sk_format = VALIDATOR_KEYSTORE_FORMAT, sk_network_id = NETWORK_ID,
       sk_genesis_fingerprint = g, sk_validator_address = w_address w,
       sk_private_key_hex = private_key\<rparr> = Some plaintext"
    "encrypt Validator_keystore cr va io password plaintext VALIDATOR_KEYSTORE_AAD = Inr c"
    "publish_new Validator_keystore cr io fs dir (validator_keystore_path dir)
       ''.validator-keystore'' c = (fs', Inr ())"
  using assms that
  by (auto simp: provision_def Let_def result_simps identity_from_private_key_def identity_address_def
      store_without_overwrite_Inr split: sum.splits prod.splits)

lemma provision_load:
  assumes spec: "hex_spec cr" "vault_spec va" "validator_json_spec vj" "generated_lengths io"
    and prov: "provision cr va vj io fs dir password private_key co g = (fs', Inr a)"
    and small: "\<And>bs. fmlookup fs' (validator_keystore_path dir) = Some bs \<Longrightarrow>
      bs \<noteq> [] \<and> length bs \<le> MAX_VALIDATOR_KEYSTORE_BYTES"
    and io': "readable io'"
  shows "load_authorized cr va vj io' fs' dir password co' g' =
    (if g' \<noteq> g then Inl (Keystore_error Validator_keystore Identity_mismatch)
     else if \<not> is_validator_allowed co' a
     then Inl (Keystore_error Validator_keystore Key_not_in_validator_set)
     else and_then (from_private_key_hex cr private_key) (\<lambda>w. Inr (Some \<lparr>vi_wallet = w\<rparr>)))"
proof -
  obtain w plaintext c where w: "from_private_key_hex cr private_key = Inr w" "a = w_address w"
    and pt: "vj_key_to_vec vj \<lparr>sk_format = VALIDATOR_KEYSTORE_FORMAT, sk_network_id = NETWORK_ID,
       sk_genesis_fingerprint = g, sk_validator_address = w_address w,
       sk_private_key_hex = private_key\<rparr> = Some plaintext"
    and c: "encrypt Validator_keystore cr va io password plaintext VALIDATOR_KEYSTORE_AAD = Inr c"
    and pub: "publish_new Validator_keystore cr io fs dir (validator_keystore_path dir)
       ''.validator-keystore'' c = (fs', Inr ())"
    using prov by (rule provision_Inr)
  obtain bs where bs: "fmlookup fs' (validator_keystore_path dir) = Some bs"
    "decrypt Validator_keystore cr va password bs VALIDATOR_KEYSTORE_AAD = Inr plaintext"
    using keystore.stored_message[of "(Validator_keystore, cr, va, VALIDATOR_KEYSTORE_AAD)" io
        "(Validator_keystore, cr, dir, validator_keystore_path dir, ''.validator-keystore'')"
        password plaintext c io fs fs'] spec c pub by auto
  then have "read_encrypted_file Validator_keystore io' fs' (validator_keystore_path dir) = Inr (Some bs)"
    using small io' by (simp add: read_encrypted_file_Some readable_def)
  then show ?thesis
    using bs(2) pt spec(3) w
    by (simp add: load_authorized_def validator_json_spec_def identity_from_private_key_def
        identity_address_def)
qed

text \<open>Who is loaded may validate, and its wallet is one the program can sign with.\<close>

lemma load_authorized_allowed:
  assumes "load_authorized cr va vj io fs dir password co g = Inr (Some identity)"
  shows "is_validator_allowed co (identity_address identity)" "wallet_wf cr (vi_wallet identity)"
  using assms from_private_key_hex_wf
  by (auto simp: load_authorized_def identity_from_private_key_def identity_address_def result_simps
      split: option.splits)

section \<open>From candidate to validator\<close>

lemma candidate_generate_Inr:
  assumes "candidate_generate cr va vj io fs dir password = (fs', Inr a)"
  obtains w plaintext c where "w = wallet_new cr (ki_signing_key io)" "a = w_address w"
    "vj_candidate_to_vec vj \<lparr>sc_format = VALIDATOR_CANDIDATE_FORMAT,
       sc_network_family = VALIDATOR_CANDIDATE_NETWORK_FAMILY, sc_validator_address = w_address w,
       sc_private_key_hex = private_key_hex cr w\<rparr> = Some plaintext"
    "encrypt Validator_keystore cr va io password plaintext VALIDATOR_CANDIDATE_AAD = Inr c"
    "publish_new Validator_keystore cr io fs dir (validator_candidate_path dir)
       ''.validator-candidate'' c = (fs', Inr ())"
  using assms that
  by (auto simp: candidate_generate_def Let_def result_simps store_without_overwrite_Inr
      split: sum.splits prod.splits)

lemma candidate_load_Some:
  assumes spec: "hex_spec cr" "vault_spec va" "validator_json_spec vj" "generated_lengths io"
    and gen: "candidate_generate cr va vj io fs dir password = (fs', Inr a)"
    and found: "candidate_load cr va vj io' fs' dir password = Inr (Some candidate)"
  shows "vc_wallet candidate = wallet_new cr (ki_signing_key io)" "a = w_address (vc_wallet candidate)"
proof -
  obtain w plaintext c where w: "w = wallet_new cr (ki_signing_key io)" "a = w_address w"
    and pt: "vj_candidate_to_vec vj \<lparr>sc_format = VALIDATOR_CANDIDATE_FORMAT,
       sc_network_family = VALIDATOR_CANDIDATE_NETWORK_FAMILY, sc_validator_address = w_address w,
       sc_private_key_hex = private_key_hex cr w\<rparr> = Some plaintext"
    and c: "encrypt Validator_keystore cr va io password plaintext VALIDATOR_CANDIDATE_AAD = Inr c"
    and pub: "publish_new Validator_keystore cr io fs dir (validator_candidate_path dir)
       ''.validator-candidate'' c = (fs', Inr ())"
    using gen by (rule candidate_generate_Inr)
  obtain bs where bs: "fmlookup fs' (validator_candidate_path dir) = Some bs"
    "decrypt Validator_keystore cr va password bs VALIDATOR_CANDIDATE_AAD = Inr plaintext"
    using keystore.stored_message[of "(Validator_keystore, cr, va, VALIDATOR_CANDIDATE_AAD)" io
        "(Validator_keystore, cr, dir, validator_candidate_path dir, ''.validator-candidate'')"
        password plaintext c io fs fs'] spec c pub by auto
  have wf: "wallet_wf cr w"
    using spec(4) by (simp add: w(1) wallet_new_wf generated_lengths_def)
  have "vc_wallet candidate = w"
    using found bs pt spec(3) private_key_roundtrip[OF spec(1) wf]
    by (auto simp: candidate_load_def result_simps read_encrypted_file_Some validator_json_spec_def
        split: option.splits)
  then show "vc_wallet candidate = wallet_new cr (ki_signing_key io)" "a = w_address (vc_wallet candidate)"
    using w by simp_all
qed

lemma candidate_activate_Inr:
  assumes "hex_spec cr"
    and "candidate_activate cr va vj io fs dir password co g = (fs', Inr activation)"
  obtains candidate fs1 where "fmlookup fs (validator_keystore_path dir) = None"
    "candidate_load cr va vj io fs dir password = Inr (Some candidate)"
    "ac_validator_address activation = w_address (vc_wallet candidate)"
    "provision cr va vj io fs dir password (private_key_hex cr (vc_wallet candidate)) co g =
       (fs1, Inr (w_address (vc_wallet candidate)))"
    "fs' = remove_file io fs1 (validator_candidate_path dir)"
proof -
  obtain candidate where candidate: "fmlookup fs (validator_keystore_path dir) = None"
    "candidate_load cr va vj io fs dir password = Inr (Some candidate)"
    using assms(2) by (auto simp: candidate_activate_def Let_def result_simps validator_keystore_exists_def
        path_exists_def split: sum.splits prod.splits option.splits if_splits)
  then obtain fs1 a where prov:
    "provision cr va vj io fs dir password (private_key_hex cr (vc_wallet candidate)) co g = (fs1, Inr a)"
    and fs': "fs' = remove_file io fs1 (validator_candidate_path dir)"
    and act: "ac_validator_address activation = w_address (vc_wallet candidate)"
    using assms(2) by (auto simp: candidate_activate_def Let_def validator_keystore_exists_def path_exists_def
        split: sum.splits prod.splits)
  have "wallet_wf cr (vc_wallet candidate)"
    using candidate(2) from_private_key_hex_wf
    by (auto simp: candidate_load_def result_simps split: option.splits)
  from private_key_roundtrip[OF assms(1) this] have "a = w_address (vc_wallet candidate)"
    using prov by (auto elim: provision_Inr)
  then show thesis
    using that[OF candidate act _ fs'] prov by simp
qed

text \<open>A generated candidate, activated once it is in the validator set, is the key that is loaded.\<close>

lemma activated_candidate_loaded:
  assumes spec: "hex_spec cr" "vault_spec va" "validator_json_spec vj" "generated_lengths io"
      "generated_lengths io1"
    and gen: "candidate_generate cr va vj io fs dir password = (fs1, Inr a)"
    and act: "candidate_activate cr va vj io1 fs1 dir password co g = (fs2, Inr activation)"
    and small: "\<And>bs. fmlookup fs2 (validator_keystore_path dir) = Some bs \<Longrightarrow>
      bs \<noteq> [] \<and> length bs \<le> MAX_VALIDATOR_KEYSTORE_BYTES"
    and io': "readable io'"
  shows "ac_validator_address activation = a"
    and "load_authorized cr va vj io' fs2 dir password co g =
      Inr (Some \<lparr>vi_wallet = wallet_new cr (ki_signing_key io)\<rparr>)"
proof -
  obtain candidate fs3 where cand: "candidate_load cr va vj io1 fs1 dir password = Inr (Some candidate)"
    and address: "ac_validator_address activation = w_address (vc_wallet candidate)"
    and prov: "provision cr va vj io1 fs1 dir password (private_key_hex cr (vc_wallet candidate)) co g =
       (fs3, Inr (w_address (vc_wallet candidate)))"
    and fs2: "fs2 = remove_file io1 fs3 (validator_candidate_path dir)"
    using candidate_activate_Inr[OF spec(1) act] by metis
  note wallet = candidate_load_Some[OF spec(1-4) gen cand]
  have same: "fmlookup fs2 (validator_keystore_path dir) = fmlookup fs3 (validator_keystore_path dir)"
    by (simp add: fs2 remove_file_def)
  have "load_authorized cr va vj io' fs2 dir password co g = load_authorized cr va vj io' fs3 dir password co g"
    by (simp add: load_authorized_def read_encrypted_file_def same)
  moreover have "is_validator_allowed co (w_address (vc_wallet candidate))"
    using prov by (auto elim: provision_Inr)
  moreover have "wallet_wf cr (vc_wallet candidate)"
    using spec(4) by (simp add: wallet(1) wallet_new_wf generated_lengths_def)
  ultimately show "load_authorized cr va vj io' fs2 dir password co g =
      Inr (Some \<lparr>vi_wallet = wallet_new cr (ki_signing_key io)\<rparr>)"
    using provision_load[OF spec(1-3,5) prov _ io', of co g] small same private_key_roundtrip[OF spec(1)]
    by (simp add: wallet(1))
  show "ac_validator_address activation = a"
    using address wallet(2) by simp
qed

section \<open>No key file is replaced\<close>

lemma store_without_overwrite_keeps:
  assumes "fmlookup fs p = Some c" and "snd p = [] \<or> hd (snd p) \<noteq> hd prefix" and "prefix \<noteq> []"
  shows "fmlookup (fst (store_without_overwrite file cr io fs dir final_path prefix contents)) p = Some c"
  using publish_new_keeps[OF assms] assms(1) by (simp add: store_without_overwrite_def)

lemma provision_keeps:
  assumes "fmlookup fs p = Some c" and "snd p = [] \<or> hd (snd p) \<noteq> CHR ''.''"
  shows "fmlookup (fst (provision cr va vj io fs dir password key co g)) p = Some c"
proof -
  have "fmlookup fs1 p = Some c"
    if "store_without_overwrite Validator_keystore cr io fs dir q ''.validator-keystore'' x = (fs1, r)"
    for q x fs1 r
    using store_without_overwrite_keeps[OF assms(1), of "''.validator-keystore''"] assms(2) that
    by (metis fst_conv list.sel(1) list.distinct(1))
  then show ?thesis
    using assms(1) by (auto simp: provision_def split: sum.splits prod.splits)
qed

lemma candidate_generate_keeps:
  assumes "fmlookup fs p = Some c" and "snd p = [] \<or> hd (snd p) \<noteq> CHR ''.''"
  shows "fmlookup (fst (candidate_generate cr va vj io fs dir password)) p = Some c"
proof -
  have "fmlookup fs1 p = Some c"
    if "store_without_overwrite Validator_keystore cr io fs dir q ''.validator-candidate'' x = (fs1, r)"
    for q x fs1 r
    using store_without_overwrite_keeps[OF assms(1), of "''.validator-candidate''"] assms(2) that
    by (metis fst_conv list.sel(1) list.distinct(1))
  then show ?thesis
    using assms(1) by (auto simp: candidate_generate_def split: sum.splits prod.splits)
qed

text \<open>Activation removes the candidate, and that only when the active key is in place.\<close>

lemma candidate_activate_keeps:
  assumes "fmlookup fs p = Some c" and "snd p = [] \<or> hd (snd p) \<noteq> CHR ''.''"
    and "candidate_activate cr va vj io fs dir password co g = (fs', r)"
    and "p = validator_candidate_path dir \<Longrightarrow> \<not> is_ok r"
  shows "fmlookup fs' p = Some c"
proof -
  have "fmlookup fs1 p = Some c" if "provision cr va vj io fs dir password k co g = (fs1, r1)" for k fs1 r1
    using provision_keeps[OF assms(1,2), of cr va vj io dir password k co g] that by simp
  then show ?thesis
    using assms by (auto simp: candidate_activate_def Let_def remove_file_def is_ok_def
        split: sum.splits prod.splits if_splits)
qed

text \<open>
  When a file is gone after an activation it is the candidate, the activation succeeded, and the
  active key file holds the key of the candidate, sealed with the password.
\<close>

lemma candidate_activate_removes:
  assumes "fmlookup fs p = Some c" and "snd p = [] \<or> hd (snd p) \<noteq> CHR ''.''"
    and act: "candidate_activate cr va vj io fs dir password co g = (fs', r)"
  shows "fmlookup fs' p = Some c \<or>
    (\<exists>activation candidate w plaintext content.
       p = validator_candidate_path dir \<and> r = Inr activation \<and>
       candidate_load cr va vj io fs dir password = Inr (Some candidate) \<and>
       ac_validator_address activation = w_address (vc_wallet candidate) \<and>
       from_private_key_hex cr (private_key_hex cr (vc_wallet candidate)) = Inr w \<and>
       vj_key_to_vec vj \<lparr>sk_format = VALIDATOR_KEYSTORE_FORMAT, sk_network_id = NETWORK_ID,
         sk_genesis_fingerprint = g, sk_validator_address = w_address w,
         sk_private_key_hex = private_key_hex cr (vc_wallet candidate)\<rparr> = Some plaintext \<and>
       encrypt Validator_keystore cr va io password plaintext VALIDATOR_KEYSTORE_AAD = Inr content \<and>
       fmlookup fs (validator_keystore_path dir) = None \<and>
       fmlookup fs' (validator_keystore_path dir) = Some content)"
proof (cases "fmlookup fs' p = Some c")
  case False
  then have p: "p = validator_candidate_path dir" and "is_ok r"
    using candidate_activate_keeps[OF assms(1-3)] by blast+
  then obtain activation where r: "r = Inr activation"
    by (cases r) (simp_all add: is_ok_def)
  obtain candidate fs1 a where candidate: "fmlookup fs (validator_keystore_path dir) = None"
      "candidate_load cr va vj io fs dir password = Inr (Some candidate)"
      "ac_validator_address activation = w_address (vc_wallet candidate)"
    and prov: "provision cr va vj io fs dir password (private_key_hex cr (vc_wallet candidate)) co g = (fs1, Inr a)"
    and fs': "fs' = remove_file io fs1 (validator_candidate_path dir)"
    using act unfolding r candidate_activate_def
    by (auto simp: Let_def result_simps validator_keystore_exists_def path_exists_def
        split: sum.splits prod.splits option.splits if_splits)
  obtain w plaintext content where
    w: "from_private_key_hex cr (private_key_hex cr (vc_wallet candidate)) = Inr w"
      "vj_key_to_vec vj \<lparr>sk_format = VALIDATOR_KEYSTORE_FORMAT, sk_network_id = NETWORK_ID,
         sk_genesis_fingerprint = g, sk_validator_address = w_address w,
         sk_private_key_hex = private_key_hex cr (vc_wallet candidate)\<rparr> = Some plaintext"
      "encrypt Validator_keystore cr va io password plaintext VALIDATOR_KEYSTORE_AAD = Inr content"
      "publish_new Validator_keystore cr io fs dir (validator_keystore_path dir)
         ''.validator-keystore'' content = (fs1, Inr ())"
    using prov by (rule provision_Inr)
  have "fmlookup fs1 (validator_keystore_path dir) = Some content"
    using publish_new_ok(2)[OF w(4)] place_ok_temp places_ok(1) by blast
  then have "fmlookup fs' (validator_keystore_path dir) = Some content"
    by (simp add: fs' remove_file_def)
  with p r candidate w(1-3) show ?thesis
    by (intro disjI2 exI conjI)
qed simp

end
