(* ===== verification/Runtime.thy ===== *)
theory Runtime
  imports Node_Steps Bootstrap Transport Validator_Keystore
begin

text \<open>
  \<open>src/runtime.rs\<close>: a running node. The tasks of the program share the runtime behind a lock,
  and every region between locking and unlocking is one operation on the file system and the
  runtime. What the other tasks do between two regions of a task is an argument of the
  model: \<open>others i\<close> is the change before the task locks for the \<open>i\<close>-th time. A \<open>peer_io\<close> holds
  what the operating system answers to a task. Starting the sockets and the tasks, the timers
  and the printing are left out.
\<close>

section \<open>The runtime\<close>

datatype node_role = Observer | Validator

record runtime =
  rt_node :: node
  rt_validator_identity :: "validator_identity option"
  rt_validator_keystore_locked :: bool
  rt_data_directory :: string
  rt_chain_sync_active :: bool

record chain_chunk =
  cc_start_index :: u64
  cc_total_blocks :: u64
  cc_blocks :: "block list"

datatype runtime_action = Reply network_message | Broadcast network_message

type_synonym shared = "file_system \<times> runtime"

text \<open>
  The answers of the operating system in one locked region: to the handler, to the production
  of a block, and the reading of the clock that dates it.
\<close>

record region_effects =
  re_handler :: effects
  re_produce :: effects
  re_now :: "u64 option"

text \<open>
  The keystore is consulted before the chain. A password is only used when it is given; a
  keystore without a password leaves the node an observer.
\<close>

definition initialize_at ::
  "platform \<Rightarrow> vault \<Rightarrow> validator_json \<Rightarrow> key_io \<Rightarrow> io_read \<Rightarrow> effects \<Rightarrow> file_system \<Rightarrow> string \<Rightarrow>
   string option \<Rightarrow> file_system \<times> runtime result" where
  "initialize_at pf va vj kio rio ef fs dir validator_password =
     (case and_then (canonical_bootstrap (pf_crypto pf)) (\<lambda>bootstrap.
           and_then (validator_keystore_exists kio fs dir) (\<lambda>present.
           and_then (case validator_password of
               Some password \<Rightarrow>
                 load_authorized (pf_crypto pf) va vj kio fs dir password (cb_consensus bootstrap)
                   (cb_genesis_fingerprint bootstrap)
             | None \<Rightarrow> Inr None) (\<lambda>validator_identity.
           and_then (load_blockchain_from (pf_json pf) rio fs dir) (\<lambda>loaded.
             Inr (bootstrap, present \<and> validator_password = None, validator_identity, loaded))))) of
        Inl e \<Rightarrow> (fs, Inl e)
      | Inr (bootstrap, validator_keystore_locked, validator_identity, loaded) \<Rightarrow>
          let nd = node_new_with_data_directory (cb_blockchain bootstrap) (cb_state bootstrap)
                     (cb_consensus bootstrap) dir;
              runtime_with = (\<lambda>nd. \<lparr>
                rt_node = nd,
                rt_validator_identity = validator_identity,
                rt_validator_keystore_locked = validator_keystore_locked,
                rt_data_directory = dir,
                rt_chain_sync_active = False\<rparr>)
          in (case loaded of
                Some chain \<Rightarrow>
                  (case restore_chain_from_storage pf ef fs nd chain of
                     (fs, nd, Inl e) \<Rightarrow> (fs, Inl e)
                   | (fs, nd, Inr _) \<Rightarrow> (fs, Inr (runtime_with nd)))
              | None \<Rightarrow>
                  (case node_save pf ef fs nd (bc_chain (nd_blockchain nd)) of
                     (fs, Inl e) \<Rightarrow> (fs, Inl e)
                   | (fs, Inr _) \<Rightarrow> (fs, Inr (runtime_with nd)))))"

definition from_node :: "node \<Rightarrow> validator_identity option \<Rightarrow> runtime result" where
  "from_node nd validator_identity =
     (if (case validator_identity of
            Some identity \<Rightarrow> \<not> is_validator_allowed (nd_consensus nd) (identity_address identity)
          | None \<Rightarrow> False)
      then Inl (Runtime_error Identity_not_in_consensus)
      else Inr \<lparr>
        rt_node = nd,
        rt_validator_identity = validator_identity,
        rt_validator_keystore_locked = False,
        rt_data_directory = nd_storage_directory nd,
        rt_chain_sync_active = False\<rparr>)"

definition role :: "runtime \<Rightarrow> node_role" where
  "role rt = (if rt_validator_identity rt \<noteq> None then Validator else Observer)"

definition runtime_validator_address :: "runtime \<Rightarrow> string option" where
  "runtime_validator_address rt = map_option identity_address (rt_validator_identity rt)"

section \<open>Production\<close>

definition try_produce_block ::
  "platform \<Rightarrow> effects \<Rightarrow> file_system \<Rightarrow> runtime \<Rightarrow> u64 \<Rightarrow> file_system \<times> runtime \<times> block result"
where
  "try_produce_block pf ef fs rt timestamp =
     (if rt_chain_sync_active rt then (fs, rt, Inl (Runtime_error Production_disabled_during_sync))
      else case rt_validator_identity rt of
             None \<Rightarrow> (fs, rt, Inl (Runtime_error Observer_cannot_produce))
           | Some identity \<Rightarrow>
               (case produce_block pf ef fs (rt_node rt) timestamp (vi_wallet identity) of
                  (fs, nd, r) \<Rightarrow> (fs, rt\<lparr>rt_node := nd\<rparr>, r)))"

definition try_produce_pending_block ::
  "platform \<Rightarrow> region_effects \<Rightarrow> file_system \<Rightarrow> runtime \<Rightarrow> file_system \<times> runtime \<times> block option result"
where
  "try_produce_pending_block pf re fs rt =
     (case rt_validator_identity rt of
        None \<Rightarrow> (fs, rt, Inr None)
      | Some identity \<Rightarrow>
          if rt_chain_sync_active rt then (fs, rt, Inr None)
          else if mempool_is_empty (nd_mempool (rt_node rt)) then (fs, rt, Inr None)
          else if bc_chain (nd_blockchain (rt_node rt)) = []
          then (fs, rt, Inl (Chain_error Blockchain_is_empty))
          else let tip = last (bc_chain (nd_blockchain (rt_node rt))) in
            (case node_select_validator pf (rt_node rt) (blk_hash tip) of
               Inl e \<Rightarrow> (fs, rt, Inl e)
             | Inr None \<Rightarrow> (fs, rt, Inl (Runtime_error No_validator_selected))
             | Inr (Some selected) \<Rightarrow>
                 if selected \<noteq> identity_address identity then (fs, rt, Inr None)
                 else (case checked_add (blk_timestamp tip) 1 of
                         None \<Rightarrow> (fs, rt, Inl (Runtime_error Block_timestamp_overflow))
                       | Some next \<Rightarrow>
                           let timestamp = max (current_timestamp (re_now re)) next in
                           (case produce_block pf (re_produce re) fs (rt_node rt) timestamp
                                   (vi_wallet identity) of
                              (fs, nd, Inl e) \<Rightarrow> (fs, rt\<lparr>rt_node := nd\<rparr>, Inl e)
                            | (fs, nd, Inr b) \<Rightarrow> (fs, rt\<lparr>rt_node := nd\<rparr>, Inr (Some b))))))"

text \<open>An error of the production is printed and forgotten; a panic is not an error.\<close>

definition append_pending_block_action ::
  "platform \<Rightarrow> region_effects \<Rightarrow> file_system \<Rightarrow> runtime \<Rightarrow> runtime_action list \<Rightarrow>
   file_system \<times> runtime \<times> runtime_action list result" where
  "append_pending_block_action pf re fs rt actions =
     (case try_produce_pending_block pf re fs rt of
        (fs, rt, Inr (Some b)) \<Rightarrow> (fs, rt, Inr (actions @ [Broadcast (Block_message b)]))
      | (fs, rt, Inr None) \<Rightarrow> (fs, rt, Inr actions)
      | (fs, rt, Inl e) \<Rightarrow> (fs, rt, if is_panic e then Inl e else Inr actions))"

section \<open>Messages\<close>

definition chain_chunk_response :: "runtime \<Rightarrow> u64 \<Rightarrow> network_message result" where
  "chain_chunk_response rt start_index =
     (let start = unat start_index;
          chain = bc_chain (nd_blockchain (rt_node rt));
          total_blocks = length chain
      in if start > total_blocks then Inl (Runtime_error Chunk_start_exceeds_chain)
         else let end_index = min (start + MAX_SYNC_BLOCKS_PER_MESSAGE) total_blocks
              in and_then (slice_range chain start end_index) (\<lambda>blocks.
                   Inr (Chain_chunk_response start_index (word_of_nat total_blocks) blocks)))"

definition account_state_response :: "runtime \<Rightarrow> string \<Rightarrow> network_message result" where
  "account_state_response rt address =
     (if \<not> is_fixed_hex address ADDRESS_HEX_LENGTH
      then Inl (Runtime_error Account_request_address_invalid)
      else let nd = rt_node rt;
               balance = balance_of (nd_state nd) address;
               nonce = nonce_of (nd_state nd) address
           in if bc_chain (nd_blockchain nd) = [] then Inl (Chain_error Blockchain_is_empty)
              else let tip = last (bc_chain (nd_blockchain nd)) in
                Inr (Account_state_response address balance nonce (blk_index tip) (blk_hash tip)))"

definition REJECTION_REASON :: string where
  "REJECTION_REASON = ''Transaction rejected by node''"

definition process_transaction ::
  "platform \<Rightarrow> region_effects \<Rightarrow> file_system \<Rightarrow> runtime \<Rightarrow> transaction \<Rightarrow> bool \<Rightarrow>
   file_system \<times> runtime \<times> runtime_action list result" where
  "process_transaction pf re fs rt tx one_shot_client =
     (let transaction_id =
            (if is_fixed_hex (tx_id tx) HASH_HEX_LENGTH then tx_id tx else ''<invalid-id>'')
      in case receive_transaction_with_result pf (rt_node rt) tx of
           (nd, Inr _) \<Rightarrow>
             append_pending_block_action pf re fs (rt\<lparr>rt_node := nd\<rparr>)
               ((if one_shot_client then [Reply (Transaction_ack transaction_id True None)] else []) @
                [Broadcast (Transaction_message tx)])
         | (nd, Inl e) \<Rightarrow>
             (fs, rt\<lparr>rt_node := nd\<rparr>,
              if is_panic e then Inl e
              else if one_shot_client \<and> is_fixed_hex transaction_id HASH_HEX_LENGTH
              then Inr [Reply (Transaction_ack transaction_id False (Some REJECTION_REASON))]
              else Inr []))"

definition process_block ::
  "platform \<Rightarrow> region_effects \<Rightarrow> file_system \<Rightarrow> runtime \<Rightarrow> block \<Rightarrow>
   file_system \<times> runtime \<times> runtime_action list result" where
  "process_block pf re fs rt b =
     (let previous_height = height (nd_blockchain (rt_node rt))
      in case receive_message pf (re_handler re) fs (rt_node rt) (Block_message b) of
           (fs, nd, Inl e) \<Rightarrow> (fs, rt\<lparr>rt_node := nd\<rparr>, Inl e)
         | (fs, nd, Inr _) \<Rightarrow>
             if height (nd_blockchain nd) > previous_height
             then append_pending_block_action pf re fs (rt\<lparr>rt_node := nd\<rparr>)
                    [Broadcast (Block_message b)]
             else (fs, rt\<lparr>rt_node := nd\<rparr>, Inr []))"

definition process_message ::
  "platform \<Rightarrow> region_effects \<Rightarrow> file_system \<Rightarrow> runtime \<Rightarrow> network_message \<Rightarrow> bool \<Rightarrow>
   file_system \<times> runtime \<times> runtime_action list result" where
  "process_message pf re fs rt message one_shot_client =
     (case message of
        Chain_chunk_request start_index \<Rightarrow>
          (fs, rt, and_then (chain_chunk_response rt start_index) (\<lambda>m. Inr [Reply m]))
      | Sync_request \<Rightarrow> (fs, rt, and_then (chain_chunk_response rt 0) (\<lambda>m. Inr [Reply m]))
      | Account_state_request address \<Rightarrow>
          (fs, rt, and_then (account_state_response rt address) (\<lambda>m. Inr [Reply m]))
      | Account_state_response _ _ _ _ _ \<Rightarrow>
          (fs, rt, Inl (Runtime_error Unexpected_account_response))
      | Chain_chunk_response _ _ _ \<Rightarrow> (fs, rt, Inl (Runtime_error Unexpected_chunk_response))
      | Transaction_ack _ _ _ \<Rightarrow> (fs, rt, Inl (Runtime_error Unexpected_transaction_ack))
      | Transaction_message tx \<Rightarrow> process_transaction pf re fs rt tx one_shot_client
      | Block_message b \<Rightarrow> process_block pf re fs rt b
      | Handshake _ _ _ _ _ _ _ _ \<Rightarrow>
          (case receive_message pf (re_handler re) fs (rt_node rt) message of
             (fs, nd, r) \<Rightarrow> (fs, rt\<lparr>rt_node := nd\<rparr>, and_then r (\<lambda>_. Inr [])))
      | Handshake_ack _ _ _ _ _ _ _ _ \<Rightarrow>
          (case receive_message pf (re_handler re) fs (rt_node rt) message of
             (fs, nd, r) \<Rightarrow> (fs, rt\<lparr>rt_node := nd\<rparr>, and_then r (\<lambda>_. Inr []))))"

section \<open>Sessions\<close>

text \<open>
  Actions are executed after the lock is released. A broadcast locks once more, to copy the
  list of peers; a reply that cannot be sent is remembered, the first one is the result. The
  broadcasts are listed with the peers they go to. Every action takes the next number \<open>n\<close>.
\<close>

type_synonym interference = "nat \<Rightarrow> shared \<Rightarrow> shared"

definition peers_of :: "shared \<Rightarrow> string list" where
  "peers_of s = nw_peers (nd_network (rt_node (snd s)))"

fun execute_actions ::
  "wire \<Rightarrow> (nat \<Rightarrow> send_answers) \<Rightarrow> interference \<Rightarrow> nat \<Rightarrow> shared \<Rightarrow> connection \<Rightarrow>
   runtime_action list \<Rightarrow>
   nat \<times> shared \<times> connection \<times> (string list \<times> network_message) list \<times> unit result" where
  "execute_actions wr answers others n s cn [] = (n, s, cn, [], Inr ())"
| "execute_actions wr answers others n s cn (Reply message # actions) =
     (case send_message wr (answers n) cn message of
        (cn, sent) \<Rightarrow>
          (case execute_actions wr answers others (Suc n) s cn actions of
             (n, s, cn, broadcasts, r) \<Rightarrow>
               (n, s, cn, broadcasts, case sent of Inl e \<Rightarrow> Inl e | Inr _ \<Rightarrow> r)))"
| "execute_actions wr answers others n s cn (Broadcast message # actions) =
     (let s = others n s; peers = peers_of s in
      (case execute_actions wr answers others (Suc n) s cn actions of
         (n, s, cn, broadcasts, r) \<Rightarrow> (n, s, cn, (peers, message) # broadcasts, r)))"

lemma send_message_same:
  "send_message wr sa cn m = (cn', r) \<Longrightarrow> cn_incoming cn' = cn_incoming cn \<and> cn_end cn' = cn_end cn"
  using send_message_incoming[of wr sa cn m] by (metis fst_conv)

lemma execute_actions_incoming:
  "execute_actions wr answers others n s cn actions = (n', s', cn', bs, r) \<Longrightarrow>
     cn_incoming cn' = cn_incoming cn \<and> cn_end cn' = cn_end cn"
proof (induction actions arbitrary: n s cn n' s' cn' bs r)
  case Nil
  then show ?case by simp
next
  case (Cons a actions)
  show ?case
  proof (cases a)
    case (Reply m)
    obtain cn1 sent where sent: "send_message wr (answers n) cn m = (cn1, sent)"
      by fastforce
    obtain n2 s2 cn2 bs2 r2 where rest:
      "execute_actions wr answers others (Suc n) s cn1 actions = (n2, s2, cn2, bs2, r2)"
      using prod_cases5 by blast
    show ?thesis
      using Cons.IH[OF rest] send_message_same[OF sent] Cons.prems by (simp add: Reply sent rest)
  next
    case (Broadcast m)
    obtain n2 s2 cn2 bs2 r2 where rest:
      "execute_actions wr answers others (Suc n) (others n s) cn actions = (n2, s2, cn2, bs2, r2)"
      using prod_cases5 by blast
    show ?thesis
      using Cons.IH[OF rest] Cons.prems by (simp add: Broadcast rest Let_def)
  qed
qed

definition is_chunk_response :: "network_message \<Rightarrow> bool" where
  "is_chunk_response m = (case m of Chain_chunk_response _ _ _ \<Rightarrow> True | _ \<Rightarrow> False)"

text \<open>The loop ends because every message takes bytes of the stream.\<close>

function session_loop ::
  "wire \<Rightarrow> platform \<Rightarrow> (nat \<Rightarrow> region_effects) \<Rightarrow> (nat \<Rightarrow> send_answers) \<Rightarrow> interference \<Rightarrow> bool \<Rightarrow>
   nat \<Rightarrow> shared \<Rightarrow> connection \<Rightarrow>
   shared \<times> connection \<times> (string list \<times> network_message) list \<times> unit result" where
  "session_loop wr pf regions answers others one_shot_client n s cn =
     (case read_message_or_eof wr cn of
        (cn', Inl e) \<Rightarrow> (s, cn', [], Inl e)
      | (cn', Inr None) \<Rightarrow> (s, cn', [], Inr ())
      | (cn', Inr (Some message)) \<Rightarrow>
          if is_chunk_response message
          then (s, cn', [], Inl (Runtime_error Unexpected_chunk_response))
          else (case others n s of (fs, rt) \<Rightarrow>
            (case process_message pf (regions n) fs rt message one_shot_client of
               (fs, rt, Inl e) \<Rightarrow> ((fs, rt), cn', [], Inl e)
             | (fs, rt, Inr actions) \<Rightarrow>
                 (case execute_actions wr answers others (Suc n) (fs, rt) cn' actions of
                    (n', s', cn'', broadcasts, Inl e) \<Rightarrow> (s', cn'', broadcasts, Inl e)
                  | (n', s', cn'', broadcasts, Inr _) \<Rightarrow>
                      (case session_loop wr pf regions answers others one_shot_client n' s' cn'' of
                         (s, cn, broadcasts', r) \<Rightarrow> (s, cn, broadcasts @ broadcasts', r))))))"
  by pat_completeness auto
termination session_loop
  by (relation "measure (\<lambda>(wr, pf, regions, answers, others, one_shot_client, n, s, cn).
        length (cn_incoming cn))")
    (auto dest!: execute_actions_incoming[OF sym] read_message_shrinks[OF sym])

declare session_loop.simps [simp del]

definition is_one_shot_client :: "network_message \<Rightarrow> bool" where
  "is_one_shot_client handshake =
     (case handshake of
        Handshake _ _ listen_address _ _ _ _ _ \<Rightarrow> listen_address = ONE_SHOT_CLIENT_LISTEN_ADDRESS
      | _ \<Rightarrow> False)"

definition handle_session ::
  "wire \<Rightarrow> platform \<Rightarrow> (nat \<Rightarrow> region_effects) \<Rightarrow> (nat \<Rightarrow> send_answers) \<Rightarrow> interference \<Rightarrow>
   shared \<Rightarrow> connection \<Rightarrow> network_message \<Rightarrow>
   shared \<times> connection \<times> (string list \<times> network_message) list \<times> unit result" where
  "handle_session wr pf regions answers others s cn handshake =
     (case others 0 s of (fs, rt) \<Rightarrow>
        (case receive_message pf (re_handler (regions 0)) fs (rt_node rt) handshake of
           (fs, nd, Inl e) \<Rightarrow> ((fs, rt\<lparr>rt_node := nd\<rparr>), cn, [], Inl e)
         | (fs, nd, Inr _) \<Rightarrow>
             session_loop wr pf regions answers others (is_one_shot_client handshake) 1
               (fs, rt\<lparr>rt_node := nd\<rparr>) cn))"

text \<open>The task spawned for an accepted connection.\<close>

definition serve_connection ::
  "wire \<Rightarrow> platform \<Rightarrow> (nat \<Rightarrow> u64 option) \<Rightarrow> send_answers \<Rightarrow> wallet \<Rightarrow> (nat \<Rightarrow> region_effects) \<Rightarrow>
   (nat \<Rightarrow> send_answers) \<Rightarrow> interference \<Rightarrow> shared \<Rightarrow> connection \<Rightarrow>
   shared \<times> connection \<times> (string list \<times> network_message) list \<times> unit result" where
  "serve_connection wr pf clock sa p2p_identity regions answers others s cn =
     (case authenticate_incoming wr (pf_crypto pf) clock sa p2p_identity cn of
        (cn, Inl e) \<Rightarrow> (s, cn, [], Inl e)
      | (cn, Inr handshake) \<Rightarrow> handle_session wr pf regions answers others s cn handshake)"

text \<open>One tick of the production timer.\<close>

definition production_tick ::
  "platform \<Rightarrow> region_effects \<Rightarrow> interference \<Rightarrow> shared \<Rightarrow>
   shared \<times> (string list \<times> network_message) list \<times> unit result" where
  "production_tick pf re others s =
     (case others 0 s of (fs, rt) \<Rightarrow>
        (case try_produce_pending_block pf re fs rt of
           (fs, rt, Inr (Some b)) \<Rightarrow>
             let s = others 1 (fs, rt) in (s, [(peers_of s, Block_message b)], Inr ())
         | (fs, rt, Inr None) \<Rightarrow> ((fs, rt), [], Inr ())
         | (fs, rt, Inl e) \<Rightarrow> ((fs, rt), [], if is_panic e then Inl e else Inr ())))"

section \<open>Synchronizing from a peer\<close>

definition check_block_order :: "u64 \<Rightarrow> unit \<Rightarrow> nat \<times> block \<Rightarrow> unit result" where
  "check_block_order start_index _ ob =
     (case ob of (offset, b) \<Rightarrow>
        and_then (ok_or (checked_add start_index (word_of_nat offset)) (Runtime_error Remote_chunk_overflow))
          (\<lambda>expected_index.
             if blk_index b \<noteq> expected_index then Inl (Runtime_error Remote_block_order) else Inr ()))"

definition validate_chunk :: "chain_chunk \<Rightarrow> u64 \<Rightarrow> unit result" where
  "validate_chunk chunk expected_start =
     (if cc_start_index chunk \<noteq> expected_start then Inl (Runtime_error Remote_start_differs)
      else if cc_total_blocks chunk = 0 \<or> cc_start_index chunk > cc_total_blocks chunk
      then Inl (Runtime_error Remote_total_invalid)
      else if length (cc_blocks chunk) > MAX_SYNC_BLOCKS_PER_MESSAGE
      then Inl (Runtime_error Remote_chunk_limit)
      else and_then (ok_or (checked_add (cc_start_index chunk) (word_of_nat (length (cc_blocks chunk))))
                       (Runtime_error Remote_chunk_overflow)) (\<lambda>end_index.
        if end_index > cc_total_blocks chunk \<or>
           (cc_blocks chunk = [] \<and> end_index < cc_total_blocks chunk)
        then Inl (Runtime_error Remote_chunk_length_inconsistent)
        else try_fold (check_block_order (cc_start_index chunk)) ()
               (List.enumerate 0 (cc_blocks chunk))))"

definition request_chunk ::
  "wire \<Rightarrow> send_answers \<Rightarrow> connection \<Rightarrow> u64 \<Rightarrow> connection \<times> chain_chunk result" where
  "request_chunk wr sa cn requested_start =
     (case send_message wr sa cn (Chain_chunk_request requested_start) of
        (cn, Inl e) \<Rightarrow> (cn, Inl e)
      | (cn, Inr _) \<Rightarrow>
     (case read_message wr cn of
        (cn, Inl e) \<Rightarrow> (cn, Inl e)
      | (cn, Inr message) \<Rightarrow>
          (cn, case message of
             Chain_chunk_response start_index total_blocks blocks \<Rightarrow>
               let chunk = \<lparr>cc_start_index = start_index, cc_total_blocks = total_blocks,
                             cc_blocks = blocks\<rparr>
               in and_then (validate_chunk chunk requested_start) (\<lambda>_. Inr chunk)
           | _ \<Rightarrow> Inl (Runtime_error Unexpected_sync_message))))"

lemma request_chunk_shrinks:
  "request_chunk wr sa cn i = (cn', Inr chunk) \<Longrightarrow> length (cn_incoming cn') < length (cn_incoming cn)"
  by (auto simp: request_chunk_def read_message_def dest!: read_message_shrinks send_message_same
      split: prod.splits sum.splits option.splits)

text \<open>The remaining chunks of a chain as long as the local one.\<close>

function fetch_rest ::
  "wire \<Rightarrow> (nat \<Rightarrow> send_answers) \<Rightarrow> nat \<Rightarrow> connection \<Rightarrow> u64 \<Rightarrow> block list \<Rightarrow>
   connection \<times> block list result" where
  "fetch_rest wr answers k cn total_blocks remote_chain =
     (let next_index = word_of_nat (length remote_chain) in
      if next_index < total_blocks
      then (case request_chunk wr (answers k) cn next_index of
              (cn', Inl e) \<Rightarrow> (cn', Inl e)
            | (cn', Inr chunk) \<Rightarrow>
                if cc_total_blocks chunk \<noteq> total_blocks
                then (cn', Inl (Runtime_error Remote_total_changed))
                else fetch_rest wr answers (Suc k) cn' total_blocks (remote_chain @ cc_blocks chunk))
      else (cn, Inr remote_chain))"
  by pat_completeness auto
termination fetch_rest
  by (relation "measure (\<lambda>(wr, answers, k, cn, total_blocks, remote_chain). length (cn_incoming cn))")
    (auto intro!: request_chunk_shrinks[OF sym])

declare fetch_rest.simps [simp del]

text \<open>Blocks applied to a candidate; \<open>ticks j\<close> is the clock of the \<open>j\<close>-th.\<close>

definition apply_tick ::
  "platform \<Rightarrow> (nat \<Rightarrow> effects) \<Rightarrow> node \<times> nat \<Rightarrow> block \<Rightarrow> (node \<times> nat) result" where
  "apply_tick pf ticks cj b =
     (case cj of (candidate, j) \<Rightarrow>
        (case apply_block_to_sync_candidate pf (ticks j) candidate b of
           (candidate, Inl e) \<Rightarrow> Inl e
         | (candidate, Inr _) \<Rightarrow> Inr (candidate, Suc j)))"

abbreviation apply_blocks ::
  "platform \<Rightarrow> (nat \<Rightarrow> effects) \<Rightarrow> node \<times> nat \<Rightarrow> block list \<Rightarrow> (node \<times> nat) result" where
  "apply_blocks pf ticks \<equiv> try_fold (apply_tick pf ticks)"

abbreviation candidate_length :: "node \<Rightarrow> nat" where
  "candidate_length candidate \<equiv> length (bc_chain (nd_blockchain candidate))"

function catch_up ::
  "wire \<Rightarrow> platform \<Rightarrow> (nat \<Rightarrow> send_answers) \<Rightarrow> (nat \<Rightarrow> effects) \<Rightarrow> nat \<Rightarrow> connection \<Rightarrow> u64 \<Rightarrow>
   node \<times> nat \<Rightarrow> connection \<times> node result" where
  "catch_up wr pf answers ticks k cn total_blocks cj =
     (let next_index = word_of_nat (candidate_length (fst cj)) in
      if next_index < total_blocks
      then (case request_chunk wr (answers k) cn next_index of
              (cn', Inl e) \<Rightarrow> (cn', Inl e)
            | (cn', Inr chunk) \<Rightarrow>
                if cc_total_blocks chunk < total_blocks
                then (cn', Inl (Runtime_error Remote_total_decreased))
                else let remaining = unat (total_blocks - next_index) in
                  (case apply_blocks pf ticks cj (take remaining (cc_blocks chunk)) of
                     Inl e \<Rightarrow> (cn', Inl e)
                   | Inr cj' \<Rightarrow> catch_up wr pf answers ticks (Suc k) cn' total_blocks cj'))
      else (cn, Inr (fst cj)))"
  by pat_completeness auto
termination catch_up
  by (relation "measure (\<lambda>(wr, pf, answers, ticks, k, cn, total_blocks, cj). length (cn_incoming cn))")
    (auto intro!: request_chunk_shrinks[OF sym])

declare catch_up.simps [simp del]

text \<open>The candidate is adopted when the local chain is as long as it was.\<close>

definition adopt_when_unchanged ::
  "platform \<Rightarrow> effects \<Rightarrow> shared \<Rightarrow> nat \<Rightarrow> node \<Rightarrow> shared \<times> unit result" where
  "adopt_when_unchanged pf ef s original_height candidate =
     (case s of (fs, rt) \<Rightarrow>
        if length (bc_chain (nd_blockchain (rt_node rt))) \<noteq> original_height
        then ((fs, rt), Inl (Runtime_error Local_tip_changed))
        else (case adopt_validated_sync_candidate pf ef fs (rt_node rt) (nd_blockchain candidate)
                     (nd_state candidate) of
                (fs, nd, r) \<Rightarrow> ((fs, rt\<lparr>rt_node := nd\<rparr>), r)))"

text \<open>What the operating system and the other tasks do during one synchronization.\<close>

record sync_io =
  sy_clock :: "nat \<Rightarrow> u64 option"           \<comment> \<open>of the handshake\<close>
  sy_random :: "byte list"
  sy_dialled :: "connection result"
  sy_handshake_answers :: send_answers
  sy_answers :: "nat \<Rightarrow> send_answers"
  sy_ticks :: "nat \<Rightarrow> effects"
  sy_effects :: effects
  sy_others :: interference

definition extend_from_common_tip ::
  "wire \<Rightarrow> platform \<Rightarrow> sync_io \<Rightarrow> shared \<Rightarrow> nat \<Rightarrow> connection \<Rightarrow> u64 \<Rightarrow> u64 \<Rightarrow> block list \<Rightarrow>
   shared \<times> connection \<times> unit result" where
  "extend_from_common_tip wr pf sy s k cn total_blocks local_height anchor_suffix =
     (let s = sy_others sy 1 s;
          candidate = sync_candidate_snapshot (rt_node (snd s));
          original_height = length (bc_chain (nd_blockchain (rt_node (snd s))))
      in case apply_blocks pf (sy_ticks sy) (candidate, 0) anchor_suffix of
           Inl e \<Rightarrow> (s, cn, Inl e)
         | Inr cj \<Rightarrow>
             if word_of_nat (candidate_length (fst cj)) < local_height
             then (s, cn, Inl (Runtime_error Candidate_fell_behind))
             else (case catch_up wr pf (sy_answers sy) (sy_ticks sy) k cn total_blocks cj of
                     (cn, Inl e) \<Rightarrow> (s, cn, Inl e)
                   | (cn, Inr candidate) \<Rightarrow>
                       (case adopt_when_unchanged pf (sy_effects sy) (sy_others sy 2 s) original_height
                               candidate of
                          (s, r) \<Rightarrow> (s, cn, r))))"

definition replace_from_full_chain_stream ::
  "wire \<Rightarrow> platform \<Rightarrow> sync_io \<Rightarrow> shared \<Rightarrow> nat \<Rightarrow> connection \<Rightarrow> chain_chunk \<Rightarrow>
   shared \<times> connection \<times> unit result" where
  "replace_from_full_chain_stream wr pf sy s k cn first_chunk =
     (let s = sy_others sy 1 s;
          original_height = length (bc_chain (nd_blockchain (rt_node (snd s))))
      in case and_then (canonical_bootstrap (pf_crypto pf)) (\<lambda>bootstrap.
           let candidate = node_new_with_data_directory (cb_blockchain bootstrap) (cb_state bootstrap)
                 (cb_consensus bootstrap) [] in
           if bc_chain (nd_blockchain candidate) = []
           then Inl (Runtime_error Canonical_genesis_missing)
           else let candidate_genesis_hash = blk_hash (hd (bc_chain (nd_blockchain candidate))) in
             if cc_blocks first_chunk = [] then Inl (Runtime_error Full_chain_without_genesis)
             else let remote_genesis = hd (cc_blocks first_chunk) in
               if blk_hash remote_genesis \<noteq> candidate_genesis_hash \<or>
                  blk_hash remote_genesis \<noteq> calculate_hash (pf_crypto pf) remote_genesis
               then Inl (Runtime_error Full_chain_genesis_invalid)
               else apply_blocks pf (sy_ticks sy) (candidate, 0) (tl (cc_blocks first_chunk))) of
           Inl e \<Rightarrow> (s, cn, Inl e)
         | Inr cj \<Rightarrow>
             (case catch_up wr pf (sy_answers sy) (sy_ticks sy) k cn (cc_total_blocks first_chunk) cj of
                (cn, Inl e) \<Rightarrow> (s, cn, Inl e)
              | (cn, Inr candidate) \<Rightarrow>
                  (case adopt_when_unchanged pf (sy_effects sy) (sy_others sy 2 s) original_height
                          candidate of
                     (s, r) \<Rightarrow> (s, cn, r))))"

text \<open>A remote chain as long as the local one is only compared.\<close>

definition compare_remote_chain ::
  "wire \<Rightarrow> platform \<Rightarrow> sync_io \<Rightarrow> shared \<Rightarrow> connection \<Rightarrow> chain_chunk \<Rightarrow> string \<Rightarrow>
   shared \<times> connection \<times> unit result" where
  "compare_remote_chain wr pf sy s cn status local_tip_hash =
     (case fetch_rest wr (sy_answers sy) 1 cn (cc_total_blocks status) (cc_blocks status) of
        (cn, Inl e) \<Rightarrow> (s, cn, Inl e)
      | (cn, Inr remote_chain) \<Rightarrow>
          if remote_chain = [] then (s, cn, Inl (Runtime_error Remote_chain_empty))
          else if blk_hash (last remote_chain) \<noteq> local_tip_hash
          then (s, cn, Inl (Runtime_error Remote_equal_length_fork))
          else (case sy_others sy 1 s of (fs, rt) \<Rightarrow>
            (case verify_equal_chain pf (sy_effects sy) fs (rt_node rt) remote_chain of
               (fs, nd, r) \<Rightarrow> ((fs, rt\<lparr>rt_node := nd\<rparr>), cn, r))))"

text \<open>
  A longer remote chain: its block at the local tip's index, found in the status chunk or
  requested, decides whether the local chain is extended or replaced.
\<close>

definition find_anchor ::
  "wire \<Rightarrow> send_answers \<Rightarrow> connection \<Rightarrow> chain_chunk \<Rightarrow> u64 \<Rightarrow>
   connection \<times> (nat \<times> block list \<times> block) result" where
  "find_anchor wr sa cn status local_height =
     (case checked_sub local_height 1 of
        None \<Rightarrow> (cn, Inl (Runtime_error Local_blockchain_empty))
      | Some anchor_index \<Rightarrow>
          (case (if unat anchor_index < length (cc_blocks status) then (cn, Inr None)
                 else (case request_chunk wr sa cn anchor_index of
                         (cn, Inl e) \<Rightarrow> (cn, Inl e)
                       | (cn, Inr chunk) \<Rightarrow>
                           if cc_total_blocks chunk < cc_total_blocks status
                           then (cn, Inl (Runtime_error Remote_total_decreased))
                           else (cn, Inr (Some chunk)))) of
             (cn, Inl e) \<Rightarrow> (cn, Inl e)
           | (cn, Inr anchor_chunk) \<Rightarrow>
               let anchor_blocks = (case anchor_chunk of Some c \<Rightarrow> cc_blocks c | None \<Rightarrow> cc_blocks status);
                   anchor_start = (case anchor_chunk of Some c \<Rightarrow> cc_start_index c | None \<Rightarrow> 0)
               in (cn, and_then (ok_or (checked_sub anchor_index anchor_start)
                                   (Runtime_error Remote_anchor_moved_backwards)) (\<lambda>offset.
                     let anchor_offset = unat offset in
                     if anchor_offset < length anchor_blocks
                     then Inr (anchor_offset, anchor_blocks, anchor_blocks ! anchor_offset)
                     else Inl (Runtime_error Remote_anchor_missing)))))"

definition sync_from_peer ::
  "wire \<Rightarrow> platform \<Rightarrow> sync_io \<Rightarrow> wallet \<Rightarrow> string \<Rightarrow> shared \<Rightarrow> shared \<times> unit result" where
  "sync_from_peer wr pf sy p2p_identity listen_address s =
     (case connect_authenticated wr (pf_crypto pf) (sy_clock sy) (sy_random sy)
             (sy_handshake_answers sy) p2p_identity listen_address (sy_dialled sy) of
        Inl e \<Rightarrow> (s, Inl e)
      | Inr cn \<Rightarrow>
     (case request_chunk wr (sy_answers sy 0) cn 0 of
        (cn, Inl e) \<Rightarrow> (s, Inl e)
      | (cn, Inr status) \<Rightarrow>
          let s = sy_others sy 0 s;
              local_chain = bc_chain (nd_blockchain (rt_node (snd s)))
          in if local_chain = [] then (s, Inl (Runtime_error Local_blockchain_empty))
             else let local_height = word_of_nat (length local_chain) :: u64;
                      local_genesis_hash = blk_hash (hd local_chain);
                      local_tip_hash = blk_hash (last local_chain)
             in if cc_blocks status = [] then (s, Inl (Runtime_error Status_without_genesis))
             else let remote_genesis = hd (cc_blocks status)
             in if blk_index remote_genesis \<noteq> 0 \<or>
                   blk_hash remote_genesis \<noteq> calculate_hash (pf_crypto pf) remote_genesis \<or>
                   blk_hash remote_genesis \<noteq> local_genesis_hash
             then (s, Inl (Runtime_error Remote_genesis_mismatch))
             else if cc_total_blocks status < local_height then (s, Inr ())
             else if cc_total_blocks status = local_height then
               (case compare_remote_chain wr pf sy s cn status local_tip_hash of (s, cn, r) \<Rightarrow> (s, r))
             else (case find_anchor wr (sy_answers sy 1) cn status local_height of
                     (cn, Inl e) \<Rightarrow> (s, Inl e)
                   | (cn, Inr (anchor_offset, anchor_blocks, remote_anchor)) \<Rightarrow>
                       if blk_hash remote_anchor = local_tip_hash
                       then (case extend_from_common_tip wr pf sy s 2 cn (cc_total_blocks status)
                                    local_height (drop (anchor_offset + 1) anchor_blocks) of
                               (s, cn, r) \<Rightarrow> (s, r))
                       else (case replace_from_full_chain_stream wr pf sy s 2 cn status of
                               (s, cn, r) \<Rightarrow> (s, r)))))"

text \<open>
  The rounds of the synchronization task: production is off while it runs, and stays off until
  one peer was synchronized with. \<open>others\<close> acts before the two short regions.
\<close>

definition set_sync_active :: "bool \<Rightarrow> shared \<Rightarrow> shared" where
  "set_sync_active active s = (case s of (fs, rt) \<Rightarrow> (fs, rt\<lparr>rt_chain_sync_active := active\<rparr>))"

fun sync_peers ::
  "wire \<Rightarrow> platform \<Rightarrow> wallet \<Rightarrow> string \<Rightarrow> sync_io list \<Rightarrow> shared \<Rightarrow> shared \<times> bool result" where
  "sync_peers wr pf p2p_identity listen_address [] s = (s, Inr False)"
| "sync_peers wr pf p2p_identity listen_address (sy # peers) s =
     (case sync_from_peer wr pf sy p2p_identity listen_address s of
        (s, r) \<Rightarrow>
          (case r of
             Inl e \<Rightarrow>
               if is_panic e then (s, Inl e)
               else sync_peers wr pf p2p_identity listen_address peers s
           | Inr _ \<Rightarrow>
               (case sync_peers wr pf p2p_identity listen_address peers s of
                  (s, rest) \<Rightarrow> (s, and_then rest (\<lambda>_. Inr True)))))"

definition sync_round ::
  "wire \<Rightarrow> platform \<Rightarrow> wallet \<Rightarrow> string \<Rightarrow> sync_io list \<Rightarrow> interference \<Rightarrow> shared \<Rightarrow>
   shared \<times> bool result" where
  "sync_round wr pf p2p_identity listen_address peers others s =
     (case sync_peers wr pf p2p_identity listen_address peers (set_sync_active True (others 0 s)) of
        (s, Inl e) \<Rightarrow> (s, Inl e)
      | (s, Inr synchronized) \<Rightarrow>
          (set_sync_active (\<not> synchronized) (others 1 s), Inr synchronized))"

text \<open>What \<open>run\<close> does before its loop: the peers to synchronize with are those it could add.\<close>

fun add_peers :: "runtime \<Rightarrow> string list \<Rightarrow> runtime \<times> string list" where
  "add_peers rt [] = (rt, [])"
| "add_peers rt (peer # peers) =
     (case node_add_peer (rt_node rt) peer of
        (nd, added) \<Rightarrow>
          (case add_peers (rt\<lparr>rt_node := nd\<rparr>) peers of
             (rt, added_peers) \<Rightarrow> (rt, if added then peer # added_peers else added_peers)))"

definition start_run ::
  "unit result \<Rightarrow> runtime \<Rightarrow> string \<Rightarrow> string list \<Rightarrow> (runtime \<times> string list) result" where
  "start_run bound rt listen_address peers =
     (if listen_address = ONE_SHOT_CLIENT_LISTEN_ADDRESS
      then Inl (Runtime_error One_shot_listen_address)
      else and_then bound (\<lambda>_.
        case add_peers rt peers of
          (rt, added_peers) \<Rightarrow> Inr (rt\<lparr>rt_chain_sync_active := added_peers \<noteq> []\<rparr>, added_peers)))"

end
