(* ===== verification/Runtime_Steps.thy ===== *)
theory Runtime_Steps
  imports Runtime
begin

text \<open>
  The tasks of a running node, whatever they interleave with. A region of a task does what
  the handlers of the node do; so the shared state only evolves by the steps of the node, and
  every task may rely on the others doing the same. The interface \<open>evolution\<close> states the two
  laws of such a relation that the proofs use.
\<close>

section \<open>Evolution of a shared state\<close>

locale evolution =
  fixes good :: "'s \<Rightarrow> bool" and evolves_to :: "'s \<Rightarrow> 's \<Rightarrow> bool"
  assumes refl: "evolves_to s s"
    and trans: "\<lbrakk>evolves_to s s'; evolves_to s' s''\<rbrakk> \<Longrightarrow> evolves_to s s''"
    and keeps: "\<lbrakk>good s; evolves_to s s'\<rbrakk> \<Longrightarrow> good s'"
begin

lemma after: "\<lbrakk>good s; evolves_to s s'; \<And>s'. good s' \<Longrightarrow> evolves_to s' (f s')\<rbrakk> \<Longrightarrow> evolves_to s (f s')"
  using trans keeps by blast

lemma before: "\<lbrakk>good s; \<And>s. good s \<Longrightarrow> evolves_to s (f s); \<And>s'. good s' \<Longrightarrow> s' = f s \<Longrightarrow> evolves_to s' t\<rbrakk> \<Longrightarrow>
    evolves_to s t"
  using trans keeps by blast

lemma run_all: "\<lbrakk>good s; \<And>f s. f \<in> set fs \<Longrightarrow> good s \<Longrightarrow> evolves_to s (f s)\<rbrakk> \<Longrightarrow> evolves_to s (fold (\<lambda>f. f) fs s)"
proof (induction fs arbitrary: s)
  case Nil
  then show ?case by (simp add: refl)
next
  case (Cons f fs)
  then show ?case
    using trans[of s "f s"] keeps[of s "f s"] by simp
qed

end

lemma reachable_trans:
  assumes "reachable pf s s'" and "reachable pf s' s''"
  shows "reachable pf s s''"
  using assms(2,1) by induction (auto intro: reachable_step)

lemma reachable_one: "node_step pf s s' \<Longrightarrow> reachable pf s s'"
  by (rule reachable_step[OF reachable_start])

definition node_at :: "shared \<Rightarrow> file_system \<times> node" where
  "node_at s = (fst s, rt_node (snd s))"

definition evolves :: "platform \<Rightarrow> shared \<Rightarrow> shared \<Rightarrow> bool" where
  "evolves pf s s' \<longleftrightarrow> reachable pf (node_at s) (node_at s') \<and>
     rt_validator_identity (snd s') = rt_validator_identity (snd s) \<and>
     rt_validator_keystore_locked (snd s') = rt_validator_keystore_locked (snd s) \<and>
     rt_data_directory (snd s') = rt_data_directory (snd s)"

text \<open>
  A good runtime: a consistent node on the canonical genesis, and an identity that can sign.
\<close>

definition canonical_genesis :: "crypto \<Rightarrow> node \<Rightarrow> bool" where
  "canonical_genesis cr nd \<longleftrightarrow>
     (\<exists>cb. canonical_bootstrap cr = Inr cb \<and> nd_consensus nd = cb_consensus cb \<and>
        nd_genesis_state nd = cb_state cb \<and> nd_genesis_economy nd = bc_economy (cb_blockchain cb))"

definition runtime_wf :: "platform \<Rightarrow> shared \<Rightarrow> bool" where
  "runtime_wf pf s \<longleftrightarrow> crypto_spec (pf_crypto pf) \<and>
     node_wf (pf_crypto pf) (rt_node (snd s)) \<and>
     canonical_genesis (pf_crypto pf) (rt_node (snd s)) \<and>
     (\<forall>identity. rt_validator_identity (snd s) = Some identity \<longrightarrow>
        wallet_wf (pf_crypto pf) (vi_wallet identity))"

lemma canonical_genesis_frame:
  "node_frame nd nd' \<Longrightarrow> canonical_genesis cr nd' = canonical_genesis cr nd"
  by (simp add: node_frame_def canonical_genesis_def)

lemma evolves_node_frame: "evolves pf s s' \<Longrightarrow> node_frame (rt_node (snd s)) (rt_node (snd s'))"
  using reachable_frame[of pf "fst s" "rt_node (snd s)" "node_at s'"]
  by (simp add: evolves_def node_at_def)

lemma evolves_wf:
  assumes "runtime_wf pf s" and "evolves pf s s'"
  shows "runtime_wf pf s'"
proof -
  have "node_wf (pf_crypto pf) (rt_node (snd s'))"
    using reachable_wf[of pf "fst s" "rt_node (snd s)" "node_at s'"] assms
    by (simp add: evolves_def node_at_def runtime_wf_def)
  then show ?thesis
    using assms canonical_genesis_frame[OF evolves_node_frame[OF assms(2)]]
    by (simp add: runtime_wf_def evolves_def)
qed

interpretation tasks: evolution "runtime_wf pf" "evolves pf" for pf
proof unfold_locales
  show "evolves pf s s" for s
    by (simp add: evolves_def reachable_start)
  show "evolves pf s s''" if "evolves pf s s'" "evolves pf s' s''" for s s' s''
    using that reachable_trans unfolding evolves_def by metis
qed (rule evolves_wf)

text \<open>What a task may rely on.\<close>

definition rely :: "platform \<Rightarrow> interference \<Rightarrow> bool" where
  "rely pf others \<longleftrightarrow> (\<forall>n s. runtime_wf pf s \<longrightarrow> evolves pf s (others n s))"

lemma relyD: "rely pf others \<Longrightarrow> runtime_wf pf s \<Longrightarrow> evolves pf s (others n s)"
  unfolding rely_def by blast

section \<open>Regions\<close>

lemma evolves_step:
  "node_step pf (fs, rt_node rt) (fs', nd') \<Longrightarrow> evolves pf (fs, rt) (fs', rt\<lparr>rt_node := nd'\<rparr>)"
  by (simp add: evolves_def node_at_def reachable_one)

lemma evolves_message:
  "receive_message pf ef fs (rt_node rt) m = (fs', nd', r) \<Longrightarrow>
     evolves pf (fs, rt) (fs', rt\<lparr>rt_node := nd'\<rparr>)"
  by (intro evolves_step step_message)

lemma evolves_produce:
  "\<lbrakk>runtime_wf pf (fs, rt); rt_validator_identity rt = Some identity;
    produce_block pf ef fs (rt_node rt) t (vi_wallet identity) = (fs', nd', r)\<rbrakk> \<Longrightarrow>
     evolves pf (fs, rt) (fs', rt\<lparr>rt_node := nd'\<rparr>)"
  by (intro evolves_step step_produce) (simp_all add: runtime_wf_def)

lemma try_produce_block_evolves:
  assumes "runtime_wf pf (fs, rt)" and "try_produce_block pf ef fs rt t = (fs', rt', r)"
  shows "evolves pf (fs, rt) (fs', rt')"
  using assms tasks.refl[of pf]
  by (auto simp: try_produce_block_def dest: evolves_produce split: if_splits option.splits prod.splits)

lemma try_produce_pending_evolves:
  assumes "runtime_wf pf (fs, rt)" and "try_produce_pending_block pf re fs rt = (fs', rt', r)"
  shows "evolves pf (fs, rt) (fs', rt')"
  using assms tasks.refl[of pf]
  by (auto simp: try_produce_pending_block_def Let_def dest: evolves_produce
      split: if_splits option.splits prod.splits sum.splits)

lemma append_pending_evolves:
  assumes "runtime_wf pf (fs, rt)" and "append_pending_block_action pf re fs rt actions = (fs', rt', r)"
  shows "evolves pf (fs, rt) (fs', rt')"
  using assms
  by (auto simp: append_pending_block_action_def dest: try_produce_pending_evolves
      split: option.splits prod.splits sum.splits)

lemma append_pending_after:
  assumes "runtime_wf pf s" and "evolves pf s (fs1, rt1)"
    and "append_pending_block_action pf re fs1 rt1 actions = (fs', rt', r)"
  shows "evolves pf s (fs', rt')"
  using append_pending_evolves[OF evolves_wf[OF assms(1,2)] assms(3)] tasks.trans[OF assms(2)] by blast

lemma process_message_evolves:
  assumes wf: "runtime_wf pf (fs, rt)"
    and run: "process_message pf re fs rt message one_shot_client = (fs', rt', r)"
  shows "evolves pf (fs, rt) (fs', rt')"
proof (cases message)
  case (Transaction_message tx)
  obtain nd q where relay: "receive_transaction_with_result pf (rt_node rt) tx = (nd, q)"
    by fastforce
  have step: "evolves pf (fs, rt) (fs, rt\<lparr>rt_node := nd\<rparr>)"
    by (rule evolves_step) (rule step_relay[OF relay])
  show ?thesis
    using run append_pending_after[OF wf step] step
    by (auto simp: Transaction_message process_message_def process_transaction_def relay Let_def
        split: sum.splits)
next
  case (Block_message b)
  obtain fs1 nd q where receive: "receive_message pf (re_handler re) fs (rt_node rt) (Block_message b) = (fs1, nd, q)"
    using prod_cases3 by blast
  note step = evolves_message[OF receive]
  show ?thesis
    using run append_pending_after[OF wf step] step
    by (auto simp: Block_message process_message_def process_block_def receive Let_def
        split: sum.splits if_splits)
qed (use run tasks.refl[of pf] in \<open>auto simp: process_message_def dest: evolves_message split: prod.splits\<close>)

section \<open>Sessions\<close>

lemma execute_actions_evolves:
  assumes "rely pf others" and "runtime_wf pf s"
    and "execute_actions wr answers others n s cn actions = (n', s', cn', bs, r)"
  shows "evolves pf s s'"
  using assms(2,3)
proof (induction actions arbitrary: n s cn n' s' cn' bs r)
  case Nil
  then show ?case by (simp add: tasks.refl)
next
  case (Cons a actions)
  show ?case
  proof (cases a)
    case (Reply m)
    then show ?thesis
      using Cons by (auto split: prod.splits)
  next
    case (Broadcast m)
    have step: "evolves pf s (others n s)"
      using relyD[OF assms(1) Cons.prems(1)] .
    obtain n2 s2 cn2 bs2 r2 where rest:
      "execute_actions wr answers others (Suc n) (others n s) cn actions = (n2, s2, cn2, bs2, r2)"
      using prod_cases5 by blast
    show ?thesis
      using Cons.IH[OF evolves_wf[OF Cons.prems(1) step] rest] tasks.trans[OF step] Cons.prems(2)
      by (simp add: Broadcast rest Let_def)
  qed
qed

lemma session_loop_evolves:
  assumes "rely pf others" and "runtime_wf pf s"
    and "session_loop wr pf regions answers others one_shot n s cn = (s', cn', bs, r)"
  shows "evolves pf s s'"
  using assms
proof (induction wr pf regions answers others one_shot n s cn arbitrary: s' cn' bs r
    rule: session_loop.induct)
  case (1 wr pf regions answers others one_shot n s cn)
  note unfolded = 1(4)[unfolded session_loop.simps[of wr pf regions answers others one_shot n s cn]]
  obtain fs rt where env: "others n s = (fs, rt)"
    by fastforce
  have step: "evolves pf s (fs, rt)"
    using relyD[OF 1(2,3), of n] by (simp add: env)
  show ?case
  proof (cases "\<exists>cn1 m. read_message_or_eof wr cn = (cn1, Inr (Some m)) \<and> \<not> is_chunk_response m")
    case False
    then show ?thesis
      using unfolded by (auto simp: tasks.refl split: prod.splits sum.splits option.splits if_splits)
  next
    case True
    then obtain cn1 m where read: "read_message_or_eof wr cn = (cn1, Inr (Some m))"
      and m: "\<not> is_chunk_response m"
      by blast
    obtain fs1 rt1 q where proc: "process_message pf (regions n) fs rt m one_shot = (fs1, rt1, q)"
      using prod_cases3 by blast
    have step1: "evolves pf s (fs1, rt1)"
      using process_message_evolves[OF evolves_wf[OF 1(3) step] proc] tasks.trans[OF step] by blast
    show ?thesis
    proof (cases q)
      case (Inl e)
      then show ?thesis
        using unfolded step1 by (simp add: read m env proc)
    next
      case (Inr actions)
      obtain n2 s2 cn2 bs2 r2 where exec:
        "execute_actions wr answers others (Suc n) (fs1, rt1) cn1 actions = (n2, s2, cn2, bs2, r2)"
        using prod_cases5 by blast
      have step2: "evolves pf s s2"
        using execute_actions_evolves[OF 1(2) evolves_wf[OF 1(3) step1] exec] tasks.trans[OF step1] by blast
      obtain s3 cn3 bs3 r3 where loop: "session_loop wr pf regions answers others one_shot n2 s2 cn2 = (s3, cn3, bs3, r3)"
        using prod_cases4 by blast
      have "evolves pf s2 s3" if "r2 = Inr ()"
        using 1(1)[OF read[symmetric] refl refl m env[symmetric] proc[symmetric] refl Inr exec[symmetric]
            refl refl refl that 1(2) evolves_wf[OF 1(3) step2] loop] .
      then show ?thesis
        using unfolded step2 tasks.trans[OF step2]
        by (auto simp: read m env proc exec loop Inr split: sum.splits)
    qed
  qed
qed

lemma handle_session_evolves:
  assumes "rely pf others" and "runtime_wf pf s"
    and "handle_session wr pf regions answers others s cn handshake = (s', cn', bs, r)"
  shows "evolves pf s s'"
proof -
  obtain fs rt where env: "others 0 s = (fs, rt)"
    by fastforce
  have step: "evolves pf s (fs, rt)"
    using relyD[OF assms(1,2), of 0] unfolding env .
  obtain fs1 nd q where receive: "receive_message pf (re_handler (regions 0)) fs (rt_node rt) handshake = (fs1, nd, q)"
    using prod_cases3 by blast
  have step1: "evolves pf s (fs1, rt\<lparr>rt_node := nd\<rparr>)"
    using tasks.trans[OF step evolves_message[OF receive]] .
  show ?thesis
    using assms(3) step1 tasks.trans[OF step1 session_loop_evolves[OF assms(1) evolves_wf[OF assms(2) step1]]]
    by (auto simp: handle_session_def env receive split: sum.splits)
qed

lemma serve_connection_evolves:
  assumes "rely pf others" and "runtime_wf pf s"
    and "serve_connection wr pf clock sa identity regions answers others s cn = (s', cn', bs, r)"
  shows "evolves pf s s'"
  using assms handle_session_evolves[OF assms(1,2)]
  by (auto simp: serve_connection_def tasks.refl split: prod.splits sum.splits)

lemma production_tick_evolves:
  assumes "rely pf others" and "runtime_wf pf s"
    and "production_tick pf re others s = (s', bs, r)"
  shows "evolves pf s s'"
proof -
  obtain fs rt where env: "others 0 s = (fs, rt)"
    by fastforce
  have step: "evolves pf s (fs, rt)"
    using relyD[OF assms(1,2), of 0] unfolding env .
  obtain fs1 rt1 q where prod: "try_produce_pending_block pf re fs rt = (fs1, rt1, q)"
    using prod_cases3 by blast
  have step1: "evolves pf s (fs1, rt1)"
    using tasks.trans[OF step try_produce_pending_evolves[OF evolves_wf[OF assms(2) step] prod]] .
  show ?thesis
    using assms(3) step1 tasks.trans[OF step1 relyD[OF assms(1) evolves_wf[OF assms(2) step1], of 1]]
    by (auto simp: production_tick_def env prod Let_def split: sum.splits option.splits)
qed

section \<open>Synchronization\<close>

lemma candidate_of_frame:
  "node_frame nd nd' \<Longrightarrow> candidate_of cr nd' = candidate_of cr nd"
  by (simp add: node_frame_def candidate_of_def rebuilds_def replay_chain_def fun_eq_iff)

lemma apply_blocks_candidate:
  assumes "candidate_of (pf_crypto pf) nd (fst cj)" and "apply_blocks pf ticks cj bs = Inr cj'"
  shows "candidate_of (pf_crypto pf) nd (fst cj')"
  using assms
proof (induction bs arbitrary: cj)
  case Nil
  then show ?case by simp
next
  case (Cons b bs)
  obtain candidate j where cj: "cj = (candidate, j)"
    by fastforce
  obtain candidate' r where applied: "apply_block_to_sync_candidate pf (ticks j) candidate b = (candidate', r)"
    by fastforce
  have "candidate_of (pf_crypto pf) nd candidate'"
    using apply_block_candidate[of pf nd candidate "ticks j" b] Cons.prems(1) by (simp add: cj applied)
  then show ?case
    using Cons.IH[of "(candidate', Suc j)"] Cons.prems(2)
    by (auto simp: cj applied apply_tick_def split: sum.splits)
qed

lemma catch_up_candidate:
  assumes "candidate_of (pf_crypto pf) nd (fst cj)"
    and "catch_up wr pf answers ticks k cn total_blocks cj = (cn', Inr candidate)"
  shows "candidate_of (pf_crypto pf) nd candidate"
  using assms
proof (induction wr pf answers ticks k cn total_blocks cj arbitrary: cn' candidate rule: catch_up.induct)
  case (1 wr pf answers ticks k cn total_blocks cj)
  note unfolded = 1(3)[unfolded catch_up.simps[of wr pf answers ticks k cn total_blocks cj] Let_def]
  let ?next = "word_of_nat (candidate_length (fst cj)) :: u64"
  show ?case
  proof (cases "?next < total_blocks")
    case False
    then show ?thesis
      using unfolded 1(2) by simp
  next
    case True
    then obtain cn1 chunk where chunk: "request_chunk wr (answers k) cn ?next = (cn1, Inr chunk)"
      and enough: "\<not> cc_total_blocks chunk < total_blocks"
      using unfolded by (auto split: prod.splits sum.splits if_splits)
    then obtain cj1 where blocks:
      "apply_blocks pf ticks cj (take (unat (total_blocks - ?next)) (cc_blocks chunk)) = Inr cj1"
      and rest: "catch_up wr pf answers ticks (Suc k) cn1 total_blocks cj1 = (cn', Inr candidate)"
      using unfolded True by (auto split: sum.splits)
    show ?thesis
      using 1(1)[OF refl True chunk[symmetric] refl enough refl blocks
          apply_blocks_candidate[OF 1(2) blocks] rest] .
  qed
qed

lemma adopt_when_unchanged_evolves:
  assumes "adopt_when_unchanged pf ef s n candidate = (s', r)"
    and "candidate_of (pf_crypto pf) (rt_node (snd s)) candidate"
  shows "evolves pf s s'"
proof -
  obtain fs rt where s: "s = (fs, rt)"
    by fastforce
  obtain fs1 nd q where adopt: "adopt_validated_sync_candidate pf ef fs (rt_node rt) (nd_blockchain candidate)
      (nd_state candidate) = (fs1, nd, q)"
    using prod_cases3 by blast
  have "evolves pf (fs, rt) (fs1, rt\<lparr>rt_node := nd\<rparr>)"
    by (rule evolves_step, rule step_adopt[OF _ adopt]) (use assms(2) in \<open>simp add: s\<close>)
  then show ?thesis
    using assms(1) tasks.refl[of pf s] by (auto simp: adopt_when_unchanged_def s adopt split: if_splits)
qed

text \<open>The tail of both ways to catch up: what was built from the genesis of the node is adopted.\<close>

lemma adopt_after_evolves:
  assumes "rely pf others" and "runtime_wf pf s" and "evolves pf s s1"
    and "candidate_of (pf_crypto pf) (rt_node (snd s)) candidate"
    and "adopt_when_unchanged pf ef (others n s1) h candidate = (s', r)"
  shows "evolves pf s s'"
proof -
  have step: "evolves pf s (others n s1)"
    using tasks.trans[OF assms(3) relyD[OF assms(1) evolves_wf[OF assms(2,3)]]] .
  have "candidate_of (pf_crypto pf) (rt_node (snd (others n s1))) candidate"
    using candidate_of_frame[OF evolves_node_frame[OF step]] assms(4) by simp
  with adopt_when_unchanged_evolves[OF assms(5)] tasks.trans[OF step] show ?thesis
    by blast
qed

lemma extend_evolves:
  assumes rely: "rely pf (sy_others sy)" and wf: "runtime_wf pf s"
    and run: "extend_from_common_tip wr pf sy s k cn total_blocks h suffix = (s', cn', r)"
  shows "evolves pf s s'"
proof -
  let ?s = "sy_others sy 1 s" and ?c = "sync_candidate_snapshot (rt_node (snd (sy_others sy 1 s)))"
  have step: "evolves pf s ?s"
    using relyD[OF rely wf] .
  have wf1: "runtime_wf pf ?s"
    using evolves_wf[OF wf step] .
  have start: "candidate_of (pf_crypto pf) (rt_node (snd ?s)) (fst (?c, 0))"
    using snapshot_candidate wf1 by (simp add: runtime_wf_def)
  have tail: "evolves pf s s2"
    if "apply_blocks pf ticks (?c, 0) bs = Inr cj" "catch_up wr pf answers ticks' k cn n cj = (cn2, Inr candidate)"
      "adopt_when_unchanged pf ef (sy_others sy i ?s) h candidate = (s2, r2)"
    for s2 ticks bs cj answers ticks' k cn n cn2 candidate ef i h r2
    using adopt_after_evolves[OF rely wf1 tasks.refl
        catch_up_candidate[OF apply_blocks_candidate[OF start that(1)] that(2)] that(3)] tasks.trans[OF step]
    by blast
  show ?thesis
    using run step
    by (auto simp: extend_from_common_tip_def Let_def simp del: One_nat_def dest: tail
        split: sum.splits prod.splits if_splits)
qed

lemma replace_evolves:
  assumes rely: "rely pf (sy_others sy)" and wf: "runtime_wf pf s"
    and run: "replace_from_full_chain_stream wr pf sy s k cn first_chunk = (s', cn', r)"
  shows "evolves pf s s'"
proof -
  let ?s = "sy_others sy 1 s"
  have step: "evolves pf s ?s"
    using relyD[OF rely wf] .
  have wf1: "runtime_wf pf ?s"
    using evolves_wf[OF wf step] .
  obtain cb where cb: "canonical_bootstrap (pf_crypto pf) = Inr cb"
    and genesis: "nd_consensus (rt_node (snd ?s)) = cb_consensus cb"
      "nd_genesis_state (rt_node (snd ?s)) = cb_state cb"
      "nd_genesis_economy (rt_node (snd ?s)) = bc_economy (cb_blockchain cb)"
    using wf1 by (auto simp: runtime_wf_def canonical_genesis_def)
  let ?c = "node_new_with_data_directory (cb_blockchain cb) (cb_state cb) (cb_consensus cb) []"
  have "node_wf (pf_crypto pf) ?c"
    using canonical_node_wf(1)[OF _ cb] wf1 by (simp add: runtime_wf_def crypto_spec_def)
  then have "candidate_of (pf_crypto pf) ?c ?c"
    by (simp add: candidate_of_def node_wf_def)
  then have start: "candidate_of (pf_crypto pf) (rt_node (snd ?s)) (fst (?c, 0))"
    using genesis by (simp add: candidate_of_def rebuilds_def replay_chain_def node_new_with_data_directory_def)
  have tail: "evolves pf s s2"
    if "apply_blocks pf ticks (?c, 0) bs = Inr cj" "catch_up wr pf answers ticks' k cn n cj = (cn2, Inr candidate)"
      "adopt_when_unchanged pf ef (sy_others sy i ?s) h candidate = (s2, r2)"
    for s2 ticks bs cj answers ticks' k cn n cn2 candidate ef i h r2
    using adopt_after_evolves[OF rely wf1 tasks.refl
        catch_up_candidate[OF apply_blocks_candidate[OF start that(1)] that(2)] that(3)] tasks.trans[OF step]
    by blast
  show ?thesis
    using run step
    by (auto simp: replace_from_full_chain_stream_def cb Let_def simp del: One_nat_def dest: tail
        split: sum.splits prod.splits if_splits)
qed

lemma compare_evolves:
  assumes "rely pf (sy_others sy)" and "runtime_wf pf s"
    and "compare_remote_chain wr pf sy s cn status tip = (s', cn', r)"
  shows "evolves pf s s'"
proof -
  obtain fs rt where env: "sy_others sy 1 s = (fs, rt)"
    by fastforce
  have step: "evolves pf s (fs, rt)"
    using relyD[OF assms(1,2), of 1] unfolding env .
  have verify: "evolves pf s (fs1, rt\<lparr>rt_node := nd\<rparr>)"
    if "verify_equal_chain pf ef fs (rt_node rt) chain = (fs1, nd, q)" for ef chain fs1 nd q
    using tasks.trans[OF step evolves_step[OF step_verify[OF that]]] .
  show ?thesis
    using assms(3) by (auto simp: compare_remote_chain_def env tasks.refl dest: verify
        simp del: One_nat_def split: prod.splits sum.splits if_splits)
qed

lemma sync_from_peer_evolves:
  assumes rely: "rely pf (sy_others sy)" and wf: "runtime_wf pf s"
    and run: "sync_from_peer wr pf sy identity a s = (s', r)"
  shows "evolves pf s s'"
proof -
  let ?s = "sy_others sy 0 s"
  have step: "evolves pf s ?s"
    using relyD[OF rely wf] .
  have wf1: "runtime_wf pf ?s"
    using evolves_wf[OF wf step] .
  note parts = compare_evolves[OF rely wf1, THEN tasks.trans[OF step]]
    extend_evolves[OF rely wf1, THEN tasks.trans[OF step]]
    replace_evolves[OF rely wf1, THEN tasks.trans[OF step]]
  show ?thesis
    using run step
    by (auto simp: sync_from_peer_def Let_def tasks.refl dest: parts split: prod.splits sum.splits if_splits)
qed

lemma sync_peers_evolves:
  assumes "\<And>sy. sy \<in> set peers \<Longrightarrow> rely pf (sy_others sy)" and "runtime_wf pf s"
    and "sync_peers wr pf identity a peers s = (s', r)"
  shows "evolves pf s s'"
  using assms
proof (induction peers arbitrary: s s' r)
  case Nil
  then show ?case by (simp add: tasks.refl)
next
  case (Cons sy peers)
  obtain s1 q where sync: "sync_from_peer wr pf sy identity a s = (s1, q)"
    by fastforce
  obtain s2 q2 where rest: "sync_peers wr pf identity a peers s1 = (s2, q2)"
    by fastforce
  have step: "evolves pf s s1"
    using sync_from_peer_evolves[OF _ Cons.prems(2) sync] Cons.prems(1) by simp
  have "evolves pf s s2"
    using Cons.IH[OF _ evolves_wf[OF Cons.prems(2) step] rest] Cons.prems(1) tasks.trans[OF step] by simp
  then show ?case
    using Cons.prems(3) step by (auto simp: sync rest split: sum.splits if_splits)
qed

lemma set_sync_active_evolves: "evolves pf s (set_sync_active b s)"
  by (cases s) (simp add: evolves_def node_at_def set_sync_active_def reachable_start)

lemma sync_round_evolves:
  assumes peers: "\<And>sy. sy \<in> set peers \<Longrightarrow> rely pf (sy_others sy)" and rely: "rely pf others"
    and wf: "runtime_wf pf s" and run: "sync_round wr pf identity a peers others s = (s', r)"
  shows "evolves pf s s'"
proof -
  let ?s = "set_sync_active True (others 0 s)"
  have step: "evolves pf s ?s"
    using tasks.trans[OF relyD[OF rely wf] set_sync_active_evolves] .
  obtain s1 q where sync: "sync_peers wr pf identity a peers ?s = (s1, q)"
    by fastforce
  have step1: "evolves pf s s1"
    using tasks.trans[OF step sync_peers_evolves[OF peers evolves_wf[OF wf step] sync]] .
  have "evolves pf s (set_sync_active b (others 1 s1))" for b
    using tasks.trans[OF step1 tasks.trans[OF relyD[OF rely evolves_wf[OF wf step1]] set_sync_active_evolves]] .
  then show ?thesis
    using run step1 by (auto simp: sync_round_def sync split: sum.splits)
qed

lemma add_peers_evolves: "add_peers rt peers = (rt', added) \<Longrightarrow> evolves pf (fs, rt) (fs, rt')"
proof (induction peers arbitrary: rt rt' added)
  case Nil
  then show ?case by (simp add: tasks.refl)
next
  case (Cons peer peers)
  obtain nd ok where add: "node_add_peer (rt_node rt) peer = (nd, ok)"
    by fastforce
  have step: "evolves pf (fs, rt) (fs, rt\<lparr>rt_node := nd\<rparr>)"
    by (rule evolves_step, rule step_peer[OF add])
  show ?case
    using Cons.prems Cons.IH tasks.trans[OF step] by (auto simp: add split: prod.splits)
qed

lemma start_run_evolves:
  "start_run bound rt a peers = Inr (rt', added) \<Longrightarrow> evolves pf (fs, rt) (fs, rt')"
proof -
  assume "start_run bound rt a peers = Inr (rt', added)"
  then obtain rt1 where "add_peers rt peers = (rt1, added)"
    and rt': "rt' = rt1\<lparr>rt_chain_sync_active := added \<noteq> []\<rparr>"
    by (auto simp: start_run_def result_simps split: prod.splits if_splits)
  then have "evolves pf (fs, rt) (fs, rt1)"
    by (intro add_peers_evolves)
  then show ?thesis
    using tasks.trans[OF _ set_sync_active_evolves] by (simp add: rt' set_sync_active_def) (simp add: evolves_def node_at_def)
qed

section \<open>The initialized runtime\<close>

lemma initialize_at_Inr:
  assumes "initialize_at pf va vj kio rio ef fs dir password = (fs', Inr rt)"
  obtains cb nd where "canonical_bootstrap (pf_crypto pf) = Inr cb"
    "evolves pf (fs, rt\<lparr>rt_node := node_new_with_data_directory (cb_blockchain cb) (cb_state cb)
        (cb_consensus cb) dir\<rparr>) (fs', rt) \<or> rt_node rt = node_new_with_data_directory (cb_blockchain cb)
        (cb_state cb) (cb_consensus cb) dir"
    "rt_data_directory rt = dir" "\<not> rt_chain_sync_active rt"
    "rt_validator_identity rt \<noteq> None \<Longrightarrow> \<exists>p. password = Some p \<and>
       load_authorized (pf_crypto pf) va vj kio fs dir p (cb_consensus cb) (cb_genesis_fingerprint cb) =
         Inr (rt_validator_identity rt)"
proof -
  obtain cb present identity loaded where cb: "canonical_bootstrap (pf_crypto pf) = Inr cb"
    and identity: "(case password of
               Some password \<Rightarrow>
                 load_authorized (pf_crypto pf) va vj kio fs dir password (cb_consensus cb)
                   (cb_genesis_fingerprint cb)
             | None \<Rightarrow> Inr None) = Inr identity"
    and loaded: "load_blockchain_from (pf_json pf) rio fs dir = Inr loaded"
    and locked: "validator_keystore_exists kio fs dir = Inr present"
    using assms by (auto simp: initialize_at_def Let_def and_then_def split: sum.splits)
  let ?nd = "node_new_with_data_directory (cb_blockchain cb) (cb_state cb) (cb_consensus cb) dir"
  let ?rt = "\<lambda>nd. \<lparr>rt_node = nd, rt_validator_identity = identity,
    rt_validator_keystore_locked = present \<and> password = None, rt_data_directory = dir,
    rt_chain_sync_active = False\<rparr>"
  have "\<exists>nd. rt = ?rt nd \<and> (nd = ?nd \<or> evolves pf (fs, ?rt ?nd) (fs', ?rt nd))"
    using assms cb identity loaded locked
    by (auto simp: initialize_at_def Let_def evolves_def node_at_def intro!: reachable_one step_restore
        split: option.splits prod.splits sum.splits)
  then show thesis
    using that[OF cb] identity by (auto split: option.splits)
qed

lemma initialize_at_wf:
  assumes cr: "crypto_spec (pf_crypto pf)"
    and init: "initialize_at pf va vj kio rio ef fs dir password = (fs', Inr rt)"
  shows "runtime_wf pf (fs', rt)"
proof -
  obtain cb where cb: "canonical_bootstrap (pf_crypto pf) = Inr cb"
    and node: "evolves pf (fs, rt\<lparr>rt_node := node_new_with_data_directory (cb_blockchain cb) (cb_state cb)
        (cb_consensus cb) dir\<rparr>) (fs', rt) \<or> rt_node rt = node_new_with_data_directory (cb_blockchain cb)
        (cb_state cb) (cb_consensus cb) dir"
    and identity: "rt_validator_identity rt \<noteq> None \<Longrightarrow> \<exists>p. password = Some p \<and>
       load_authorized (pf_crypto pf) va vj kio fs dir p (cb_consensus cb) (cb_genesis_fingerprint cb) =
         Inr (rt_validator_identity rt)"
    using init by (rule initialize_at_Inr) blast
  let ?nd = "node_new_with_data_directory (cb_blockchain cb) (cb_state cb) (cb_consensus cb) dir"
  have "wallet_wf (pf_crypto pf) (vi_wallet i)" if "rt_validator_identity rt = Some i" for i
    using identity that load_authorized_allowed(2) by fastforce
  then have start: "runtime_wf pf (f, rt\<lparr>rt_node := ?nd\<rparr>)" for f
    using canonical_node_wf(1)[OF _ cb] cb cr
    by (simp add: runtime_wf_def canonical_genesis_def crypto_spec_def node_new_with_data_directory_def)
  show ?thesis
    using node
  proof
    assume "rt_node rt = ?nd"
    then have "rt\<lparr>rt_node := ?nd\<rparr> = rt"
      by simp
    then show ?thesis
      using start[of fs'] by simp
  qed (use evolves_wf[OF start] in blast)
qed

end
