(* ===== verification/Runtime_Sync.thy ===== *)
theory Runtime_Sync
  imports Runtime_Steps Node_Transfer
begin

text \<open>
  What a synchronization achieves: the check of the length before a candidate is adopted sees
  every change of the local chain, a failed synchronization leaves the chain alone, and with an
  honest peer that is ahead the node ends with the blockchain and state of the peer. Last,
  the answer that is too long to be sent.
\<close>

section \<open>The length of the chain tells whether it changed\<close>

definition grows :: "node \<Rightarrow> node \<Rightarrow> bool" where
  "grows nd nd' \<longleftrightarrow>
     nd_blockchain nd' = nd_blockchain nd \<and> nd_state nd' = nd_state nd \<or>
     length (bc_chain (nd_blockchain nd)) < length (bc_chain (nd_blockchain nd'))"

lemma grows_trans: "grows a b \<Longrightarrow> grows b c \<Longrightarrow> grows a c"
  by (auto simp: grows_def)

lemma synchronize_chain_grows:
  "synchronize_chain pf ef fs nd chain = (fs', nd', r) \<Longrightarrow> grows nd nd'"
  using synchronize_chain_ok[of pf ef fs nd chain fs' nd'] synchronize_chain_error[of pf ef fs nd chain fs' nd']
  by (cases r) (auto simp: grows_def)

lemma receive_block_grows: "receive_block pf ef fs nd b = (fs', nd', r) \<Longrightarrow> grows nd nd'"
  by (erule receive_block_cases) (auto simp: grows_def validate_and_apply_block_Inr)

lemma produce_block_grows:
  assumes "produce_block pf ef fs nd t w = (fs', nd', r)"
  shows "grows nd nd'"
proof (cases r)
  case (Inl e)
  show ?thesis
    using produce_block_error[OF assms[unfolded Inl]] by (simp add: grows_def)
next
  case (Inr b)
  then show ?thesis
    using assms by (auto simp: produce_block_def grows_def result_simps
        elim!: create_block_Inr split: sum.splits prod.splits error.splits if_splits)
qed

lemma adopt_grows: "adopt_validated_sync_candidate pf ef fs nd bc st = (fs', nd', r) \<Longrightarrow> grows nd nd'"
  by (auto simp: adopt_validated_sync_candidate_def grows_def Let_def
      split: if_splits sum.splits prod.splits error.splits)

lemma accept_chain_chunk_grows:
  assumes "accept_chain_chunk pf ef fs nd start_index total_blocks blocks = (fs', nd', r)"
  shows "grows nd nd'"
proof -
  have sync: "grows nd nd1"
    if "synchronize_chain pf ef fs (nd\<lparr>nd_sync_buffer := x, nd_sync_expected_total := y\<rparr>) chain =
      (fs1, nd1, r1)" for x y chain fs1 nd1 r1
    using synchronize_chain_grows[OF that] by (simp add: grows_def)
  show ?thesis
    using assms by (auto simp: accept_chain_chunk_def open_chunk_def Let_def grows_def
        dest: sync[unfolded grows_def] split: if_splits sum.splits prod.splits)
qed

lemma insert_transaction_grows: "grows nd (fst (insert_transaction_into_mempool pf nd tx))"
  by (auto simp: insert_transaction_into_mempool_def grows_def split: sum.splits prod.splits)

lemma grows_network:
  "grows nd (node_broadcast pf ef nd' m) = grows nd nd'"
  "grows nd (node_network_receive pf ef nd' m) = grows nd nd'"
  "grows nd nd"
  by (simp_all add: grows_def node_broadcast_def node_network_receive_def)

lemma receive_message_grows:
  "receive_message pf ef fs nd m = (fs', nd', r) \<Longrightarrow> grows nd nd'"
  by (cases m) (auto simp: receive_message_def answer_chunk_request_def Let_def grows_network
      insert_transaction_grows dest: receive_block_grows accept_chain_chunk_grows
      split: if_splits sum.splits prod.splits option.splits)

lemma node_step_grows:
  assumes "node_step pf (fs, nd) (fs', nd')"
  shows "grows nd nd'"
proof (rule node_stepE[OF assms], goal_cases)
  case (2 ef tx r)
  then show ?case
    using insert_transaction_grows[of nd pf tx]
    by (auto simp: node_add_transaction_def grows_network split: prod.splits sum.splits)
next
  case (3 tx q)
  then show ?case
    using insert_transaction_grows[of nd pf tx] by (simp add: receive_transaction_with_result_def)
next
  case (8 ef chain r)
  then show ?case
    using verify_equal_chain_eq synchronize_chain_grows grows_network(3) by metis
next
  case (10 ef)
  then show ?case
    by (auto simp: request_chain_def grows_network) (simp add: grows_def)
next
  case (11 peer ok)
  then show ?case
    by (auto simp: node_add_peer_def grows_def split: prod.splits)
qed (auto simp: apply_chain_chunk_def restore_chain_from_storage_def
    dest: receive_message_grows receive_block_grows produce_block_grows synchronize_chain_grows
      accept_chain_chunk_grows adopt_grows)

lemma reachable_grows:
  assumes "reachable pf (fs0, nd0) s"
  shows "grows nd0 (snd s)"
  using assms
proof induction
  case reachable_start
  show ?case by (simp add: grows_network)
next
  case (reachable_step s s')
  then show ?case
    using node_step_grows[of pf "fst s" "snd s" "fst s'" "snd s'"] grows_trans by simp
qed

lemma evolves_grows: "evolves pf s s' \<Longrightarrow> grows (rt_node (snd s)) (rt_node (snd s'))"
  using reachable_grows[of pf "fst s" "rt_node (snd s)" "node_at s'"]
  by (simp add: evolves_def node_at_def)

section \<open>Honest answers\<close>

definition honest_answer :: "block list \<Rightarrow> nat \<Rightarrow> network_message" where
  "honest_answer chain i = Chain_chunk_response (word_of_nat i) (word_of_nat (length chain)) (chunk_of chain i)"

definition honest_chunk :: "block list \<Rightarrow> nat \<Rightarrow> chain_chunk" where
  "honest_chunk chain i = \<lparr>cc_start_index = word_of_nat i, cc_total_blocks = word_of_nat (length chain),
     cc_blocks = chunk_of chain i\<rparr>"

text \<open>They are the answers of a runtime that holds the chain.\<close>

lemma chain_chunk_response_honest:
  assumes "i \<le> length (bc_chain (nd_blockchain (rt_node rt)))" and "i < 2 ^ 64"
  shows "chain_chunk_response rt (word_of_nat i) = Inr (honest_answer (bc_chain (nd_blockchain (rt_node rt))) i)"
proof -
  have "take (min (i + n) (length xs) - i) (drop i xs) = take n (drop i xs)" for n and xs :: "block list"
    by (simp add: min_def)
  then show ?thesis
    using assms by (simp add: chain_chunk_response_def honest_answer_def chunk_of_def Let_def
        unat_word_of_nat64 not_less)
qed

lemma block_order_ok:
  assumes "well_indexed chain" and "start + offset + length bs \<le> length chain" and "length chain < 2 ^ 64"
    and "bs = take (length bs) (drop (start + offset) chain)"
  shows "try_fold (check_block_order (word_of_nat start)) () (List.enumerate offset bs) = Inr ()"
  using assms(2,4)
proof (induction bs arbitrary: offset)
  case Nil
  then show ?case by simp
next
  case (Cons b bs)
  then have lt: "start + offset < length chain"
    by simp
  then have "drop (start + offset) chain = chain ! (start + offset) # drop (start + Suc offset) chain"
    by (simp add: Cons_nth_drop_Suc)
  with Cons.prems(2) have b: "b = chain ! (start + offset)"
    and bs: "bs = take (length bs) (drop (start + Suc offset) chain)"
    by simp_all
  have "blk_index b = word_of_nat (start + offset)"
    using assms(1) b lt by (simp add: well_indexed_def)
  moreover have "unat (word_of_nat start :: u64) + unat (word_of_nat offset :: u64) < 2 ^ 64"
    using lt assms(3) by (simp add: unat_word_of_nat64)
  ultimately have "check_block_order (word_of_nat start) () (offset, b) = Inr ()"
    by (simp add: check_block_order_def checked_add_def)
  moreover have "try_fold (check_block_order (word_of_nat start)) () (List.enumerate (Suc offset) bs) = Inr ()"
    by (rule Cons.IH) (use Cons.prems(1) bs in simp_all)
  ultimately show ?case
    by simp
qed

lemma honest_chunk_valid:
  assumes "well_indexed chain" and "i < length chain" and "length chain < 2 ^ 64"
  shows "validate_chunk (honest_chunk chain i) (word_of_nat i) = Inr ()"
proof -
  let ?n = "length (chunk_of chain i)"
  have n: "?n = min MAX_SYNC_BLOCKS_PER_MESSAGE (length chain - i)"
    by (rule length_chunk_of)
  then have fits: "i + ?n \<le> length chain" "?n < 2 ^ 64" "i < 2 ^ 64" "i + ?n < 2 ^ 64"
    using assms by auto
  have ne: "chunk_of chain i \<noteq> []"
    using assms(2) by (simp add: chunk_of_def MAX_SYNC_BLOCKS_PER_MESSAGE_def)
  have words: "unat (word_of_nat i :: u64) = i" "unat (word_of_nat ?n :: u64) = ?n"
    "unat (word_of_nat (length chain) :: u64) = length chain"
    using fits assms(3) by (simp_all only: unat_word_of_nat64)
  have sum: "checked_add (word_of_nat i :: u64) (word_of_nat ?n) = Some (word_of_nat (i + ?n))"
    using fits by (simp add: checked_add_def words)
  have order: "try_fold (check_block_order (word_of_nat i)) () (List.enumerate 0 (chunk_of chain i)) = Inr ()"
    by (rule block_order_ok[OF assms(1) _ assms(3)]) (use fits in \<open>auto simp: chunk_of_def min_def\<close>)
  have "(word_of_nat (length chain) :: u64) \<noteq> 0"
    using assms(2) words(3) by (metis less_nat_zero_code unsigned_0)
  moreover have "\<not> (word_of_nat (i + ?n) :: u64) > word_of_nat (length chain)"
    using fits(1) assms(3) by (simp only: word_less_nat_alt unat_word_of_nat64[OF fits(4)] words)
  moreover have "\<not> (word_of_nat i :: u64) > word_of_nat (length chain)"
    using assms(2) by (simp add: word_less_nat_alt words)
  moreover have "?n \<le> MAX_SYNC_BLOCKS_PER_MESSAGE"
    by (simp add: n)
  ultimately show ?thesis
    unfolding validate_chunk_def honest_chunk_def using ne order
    by (simp add: sum not_less)
qed

lemma request_honest_chunk:
  assumes wire: "wire_spec wr" and chain: "well_indexed chain" "i < length chain" "length chain < 2 ^ 64"
    and request: "sendable wr (Chain_chunk_request (word_of_nat i))"
    and answer: "sendable wr (honest_answer chain i)"
    and cn: "cn_incoming cn = frame_of wr (honest_answer chain i) @ rest"
  shows "request_chunk wr all_written cn (word_of_nat i) =
    (cn\<lparr>cn_incoming := rest,
        cn_outgoing := cn_outgoing cn @ frame_of wr (Chain_chunk_request (word_of_nat i))\<rparr>,
     Inr (honest_chunk chain i))"
proof -
  let ?cn = "cn\<lparr>cn_outgoing := cn_outgoing cn @ frame_of wr (Chain_chunk_request (word_of_nat i))\<rparr>"
  have sent: "send_message wr all_written cn (Chain_chunk_request (word_of_nat i)) = (?cn, Inr ())"
    using request by (subst send_message_ok) simp
  have read: "read_message wr ?cn = (?cn\<lparr>cn_incoming := rest\<rparr>, Inr (honest_answer chain i))"
    by (rule read_message_frame[OF wire answer]) (simp add: cn)
  show ?thesis
    unfolding request_chunk_def sent
    using honest_chunk_valid[OF chain]
    by (simp add: read[unfolded honest_answer_def] honest_chunk_def Let_def)
qed

section \<open>Catching up with an honest peer\<close>

text \<open>The chunks requested from a start index on.\<close>

function chunk_starts :: "nat \<Rightarrow> nat \<Rightarrow> nat list" where
  "chunk_starts n i = (if i < n then i # chunk_starts n (i + MAX_SYNC_BLOCKS_PER_MESSAGE) else [])"
  by pat_completeness auto
termination chunk_starts
  by (relation "measure (\<lambda>(n, i). n - i)") (auto simp: MAX_SYNC_BLOCKS_PER_MESSAGE_def)

declare chunk_starts.simps [simp del]

abbreviation answers_for :: "wire \<Rightarrow> block list \<Rightarrow> nat list \<Rightarrow> byte list" where
  "answers_for wr chain starts \<equiv> concat (map (\<lambda>i. frame_of wr (honest_answer chain i)) starts)"

abbreviation requests_for :: "wire \<Rightarrow> nat list \<Rightarrow> byte list" where
  "requests_for wr starts \<equiv> concat (map (\<lambda>i. frame_of wr (Chain_chunk_request (word_of_nat i))) starts)"

definition servable :: "wire \<Rightarrow> block list \<Rightarrow> bool" where
  "servable wr chain \<longleftrightarrow> well_indexed chain \<and> length chain < 2 ^ 64 \<and>
     (\<forall>i<length chain. sendable wr (honest_answer chain i) \<and>
        sendable wr (Chain_chunk_request (word_of_nat i)))"

lemma apply_blocks_replay:
  assumes "replay_blocks (pf_crypto pf) clock (nd_consensus candidate)
      (nd_blockchain candidate, nd_state candidate) n bs = Inr (bc, st)"
    and "\<And>i. i < length bs \<Longrightarrow> ef_clock (ticks (j + i)) 0 = clock (n + i)"
  shows "\<exists>candidate'. apply_blocks pf ticks (candidate, j) bs = Inr (candidate', j + length bs) \<and>
    nd_blockchain candidate' = bc \<and> nd_state candidate' = st \<and> nd_consensus candidate' = nd_consensus candidate"
  using assms
proof (induction bs arbitrary: candidate j n)
  case Nil
  then show ?case by simp
next
  case (Cons b bs)
  then obtain bc1 st1 where first: "validate_and_apply_block (pf_crypto pf) (clock n) (nd_consensus candidate) b
      (nd_blockchain candidate) (nd_state candidate) = Inr (bc1, st1)"
    and rest: "replay_blocks (pf_crypto pf) clock (nd_consensus candidate) (bc1, st1) (Suc n) bs = Inr (bc, st)"
    by (auto simp: result_simps)
  define next_one where "next_one = candidate\<lparr>nd_blockchain := bc1, nd_state := st1,
    nd_mempool := remove_confirmed_transactions (nd_mempool candidate) b\<rparr>"
  have "ef_clock (ticks j) 0 = clock n"
    using Cons.prems(2)[of 0] by simp
  then have "apply_tick pf ticks (candidate, j) b = Inr (next_one, Suc j)"
    using first by (simp add: apply_tick_def apply_block_to_sync_candidate_def next_one_def)
  moreover have "ef_clock (ticks (Suc j + i)) 0 = clock (Suc n + i)" if "i < length bs" for i
    using Cons.prems(2)[of "Suc i"] that by simp
  with Cons.IH[of next_one "Suc n" "Suc j"] rest obtain candidate' where
    "apply_blocks pf ticks (next_one, Suc j) bs = Inr (candidate', Suc j + length bs)"
    "nd_blockchain candidate' = bc" "nd_state candidate' = st" "nd_consensus candidate' = nd_consensus candidate"
    by (auto simp: next_one_def)
  ultimately show ?case
    by simp
qed

lemma apply_blocks_length:
  "apply_blocks pf ticks cj bs = Inr cj' \<Longrightarrow> candidate_length (fst cj') = candidate_length (fst cj) + length bs"
proof (induction bs arbitrary: cj)
  case Nil
  then show ?case by simp
next
  case (Cons b bs)
  then obtain cj1 where first: "apply_tick pf ticks cj b = Inr cj1" and rest: "apply_blocks pf ticks cj1 bs = Inr cj'"
    by (auto simp: result_simps)
  have "candidate_length (fst cj1) = Suc (candidate_length (fst cj))"
    using first by (cases cj) (auto simp: apply_tick_def apply_block_to_sync_candidate_def
        validate_and_apply_block_Inr split: sum.splits prod.splits)
  with Cons.IH[OF rest] show ?case
    by simp
qed

lemma catch_up_honest:
  assumes wire: "wire_spec wr" and chain: "servable wr chain" and answers: "\<And>k. answers k = all_written"
    and "cn_incoming cn = answers_for wr chain (chunk_starts (length chain) n) @ rest"
    and "candidate_length (fst cj) = n" and "n \<le> length chain"
    and "apply_blocks pf ticks cj (drop n chain) = Inr cj'"
  shows "catch_up wr pf answers ticks k cn (word_of_nat (length chain)) cj =
    (cn\<lparr>cn_incoming := rest,
        cn_outgoing := cn_outgoing cn @ requests_for wr (chunk_starts (length chain) n)\<rparr>, Inr (fst cj'))"
  using assms(4-)
proof (induction "length chain" n arbitrary: k cn cj rule: chunk_starts.induct)
  case (1 n)
  let ?N = "length chain" and ?m = "n + MAX_SYNC_BLOCKS_PER_MESSAGE"
  have indexed: "well_indexed chain" and short: "?N < 2 ^ 64"
    using chain by (simp_all add: servable_def)
  have words: "unat (word_of_nat n :: u64) = n" "unat (word_of_nat ?N :: u64) = ?N"
    using 1(4) short by (simp_all only: unat_word_of_nat64 order_le_less_trans)
  show ?case
  proof (cases "n < ?N")
    case False
    then have "\<not> (word_of_nat n :: u64) < word_of_nat ?N"
      by (simp add: word_less_nat_alt words)
    moreover have "chunk_starts ?N n = []"
      using False by (simp add: chunk_starts.simps)
    moreover have "cn\<lparr>cn_incoming := rest\<rparr> = cn" if "cn_incoming cn = rest"
      using that by simp
    ultimately show ?thesis
      using 1(2-5) False by (subst catch_up.simps) simp
  next
    case True
    let ?req = "frame_of wr (Chain_chunk_request (word_of_nat n))"
    let ?rest = "answers_for wr chain (chunk_starts ?N ?m) @ rest"
    let ?cn = "cn\<lparr>cn_incoming := ?rest, cn_outgoing := cn_outgoing cn @ ?req\<rparr>"
    have starts: "chunk_starts ?N n = n # chunk_starts ?N ?m"
      using True by (simp add: chunk_starts.simps[of ?N n])
    have request: "request_chunk wr (answers k) cn (word_of_nat n) = (?cn, Inr (honest_chunk chain n))"
      unfolding answers
      by (rule request_honest_chunk[OF wire indexed True short])
        (use chain True 1(2) in \<open>auto simp: servable_def starts\<close>)
    have less: "(word_of_nat n :: u64) < word_of_nat ?N"
      using True by (simp add: word_less_nat_alt words)
    then have remaining: "unat (word_of_nat ?N - word_of_nat n :: u64) = ?N - n"
      by (simp add: unat_sub words order_less_imp_le)
    have whole: "take (?N - n) (chunk_of chain n) = chunk_of chain n"
      by (rule take_all) (simp add: length_chunk_of)
    have "drop n chain = chunk_of chain n @ drop ?m chain"
      by (metis append_take_drop_id chunk_of_def drop_drop add.commute)
    with 1(5) obtain cj1 where blocks: "apply_blocks pf ticks cj (chunk_of chain n) = Inr cj1"
      and later: "apply_blocks pf ticks cj1 (drop ?m chain) = Inr cj'"
      by (auto simp: try_fold_append result_simps)
    have len: "candidate_length (fst cj1) = min ?m ?N"
      using apply_blocks_length[OF blocks] 1(3) True by (simp add: length_chunk_of)
    have "catch_up wr pf answers ticks (Suc k) ?cn (word_of_nat ?N) cj1 =
        (?cn\<lparr>cn_incoming := rest, cn_outgoing := cn_outgoing ?cn @ requests_for wr (chunk_starts ?N ?m)\<rparr>,
         Inr (fst cj'))"
    proof (cases "?m \<le> ?N")
      case True
      show ?thesis
        by (rule 1(1)) (use \<open>n < ?N\<close> True len later in simp_all)
    next
      case False
      then have "chunk_starts ?N ?m = []" "fst cj' = fst cj1"
        using later by (simp_all add: chunk_starts.simps)
      then show ?thesis
        using False len by (simp add: catch_up.simps[of wr pf answers ticks "Suc k"])
    qed
    then show ?thesis
      using 1(3) less request
      by (subst catch_up.simps) (simp add: honest_chunk_def remaining whole blocks starts Let_def)
  qed
qed

section \<open>Synchronizing with an honest peer that is ahead\<close>

text \<open>Both chains start from the same genesis, so the blocks of the peer apply to the local state.\<close>

lemma peer_blocks_replay:
  assumes "node_wf cr nd" and "node_wf cr peer"
    and same: "nd_consensus peer = nd_consensus nd" "nd_genesis_state peer = nd_genesis_state nd"
      "nd_genesis_economy peer = nd_genesis_economy nd"
    and chains: "bc_chain (nd_blockchain peer) = bc_chain (nd_blockchain nd) @ later"
  shows "\<exists>clock n. replay_blocks cr clock (nd_consensus nd) (nd_blockchain nd, nd_state nd) n later =
    Inr (nd_blockchain peer, nd_state peer)"
proof -
  let ?local = "bc_chain (nd_blockchain nd)" and ?chain = "bc_chain (nd_blockchain peer)"
  let ?clock = "willing_clock (tl ?chain)"
  have ne: "?local \<noteq> []"
    using assms(1) by (rule node_wf_chain)
  then have chain: "hd ?chain = hd ?local" "tl ?chain = tl ?local @ later"
    by (simp_all add: chains)
  have start: "genesis_start peer (hd ?chain) = genesis_start nd (hd ?local)"
    by (simp add: genesis_start_def same chain)
  have "replay_chain cr ?clock peer ?chain = Inr (nd_blockchain peer, nd_state peer)"
    using assms(2) willing_clock_allows by (simp add: node_wf_def rebuilds_def)
  then have whole: "replay_blocks cr ?clock (nd_consensus nd) (genesis_start nd (hd ?local)) 0 (tl ?local @ later) =
      Inr (nd_blockchain peer, nd_state peer)"
    by (simp add: replay_chain_eq start same flip: chain(2))
  then obtain r where prefix: "replay_blocks cr ?clock (nd_consensus nd) (genesis_start nd (hd ?local)) 0 (tl ?local) = Inr r"
    by (auto simp: replay_blocks_append result_simps)
  then have "clock_allows ?clock 0 (tl ?local)"
    by (rule replay_allows)
  then have "r = (nd_blockchain nd, nd_state nd)"
    using assms(1) prefix by (simp add: node_wf_def rebuilds_def replay_chain_eq)
  with whole prefix show ?thesis
    by (auto simp: replay_blocks_append)
qed

lemma peer_blocks_apply:
  assumes "node_wf (pf_crypto pf) nd" and "node_wf (pf_crypto pf) peer"
    and "nd_consensus peer = nd_consensus nd" "nd_genesis_state peer = nd_genesis_state nd"
      "nd_genesis_economy peer = nd_genesis_economy nd"
    and "bc_chain (nd_blockchain peer) = bc_chain (nd_blockchain nd) @ later"
    and clock: "clock_allows (\<lambda>i. ef_clock (ticks i) 0) 0 later"
  obtains candidate j where
    "apply_blocks pf ticks (sync_candidate_snapshot nd, 0) later = Inr (candidate, j)"
    "nd_blockchain candidate = nd_blockchain peer" "nd_state candidate = nd_state peer"
proof -
  obtain clock n where "replay_blocks (pf_crypto pf) clock (nd_consensus nd) (nd_blockchain nd, nd_state nd) n later =
    Inr (nd_blockchain peer, nd_state peer)"
    using peer_blocks_replay[OF assms(1-6)] by blast
  moreover have "clock_allows (\<lambda>i. ef_clock (ticks (i - n)) 0) n later"
    using clock by (simp add: clock_allows_def)
  ultimately have "replay_blocks (pf_crypto pf) (\<lambda>i. ef_clock (ticks (i - n)) 0) (nd_consensus nd)
      (nd_blockchain nd, nd_state nd) n later = Inr (nd_blockchain peer, nd_state peer)"
    by (rule replay_other_clock)
  then show thesis
    using apply_blocks_replay[of pf "\<lambda>i. ef_clock (ticks (i - n)) 0" "sync_candidate_snapshot nd" n later
        "nd_blockchain peer" "nd_state peer" ticks 0] that
    by (auto simp: sync_candidate_snapshot_def node_new_with_data_directory_def)
qed

text \<open>The requests of a synchronization: the status, the anchor if it is not in there, the rest.\<close>

definition sync_requests :: "nat \<Rightarrow> nat \<Rightarrow> nat list" where
  "sync_requests n h =
     0 # (if h \<le> MAX_SYNC_BLOCKS_PER_MESSAGE then chunk_starts n MAX_SYNC_BLOCKS_PER_MESSAGE
          else (h - 1) # chunk_starts n (h - 1 + MAX_SYNC_BLOCKS_PER_MESSAGE))"

lemma chunk_starts_min: "chunk_starts n (min m n) = chunk_starts n m"
  by (auto simp: min_def chunk_starts.simps)

lemma find_anchor_honest:
  fixes h :: nat and chain :: "block list"
  defines "early \<equiv> h \<le> MAX_SYNC_BLOCKS_PER_MESSAGE"
  defines "start \<equiv> (if early then 0 else h - 1)"
  assumes wire: "wire_spec wr" and chain: "servable wr chain" and h: "0 < h" "h < length chain"
    and cn: "cn_incoming cn = (if early then [] else frame_of wr (honest_answer chain (h - 1))) @ rest"
  shows "\<exists>out. find_anchor wr all_written cn (honest_chunk chain 0) (word_of_nat h) =
    (cn\<lparr>cn_incoming := rest, cn_outgoing := out\<rparr>,
     Inr (h - 1 - start, chunk_of chain start, chain ! (h - 1)))"
proof -
  have short: "h < 2 ^ 64" "h - 1 < 2 ^ 64" "length chain < 2 ^ 64" and indexed: "well_indexed chain"
    using chain h by (auto simp: servable_def)
  have one: "unat (word_of_nat h :: u64) = h"
    using short by (simp only: unat_word_of_nat64)
  define i :: u64 where "i = word_of_nat (h - 1)"
  have index: "checked_sub (word_of_nat h :: u64) 1 = Some i"
    using h short by (simp add: checked_sub_def word_le_nat_alt one i_def)
  have words: "unat i = h - 1"
    unfolding i_def using short by (simp only: unat_word_of_nat64)
  have offsets: "checked_sub i 0 = Some i" "checked_sub i i = Some 0"
    by (simp_all add: checked_sub_def)
  have len: "length (chunk_of chain i) = min MAX_SYNC_BLOCKS_PER_MESSAGE (length chain - i)" for i
    by (rule length_chunk_of)
  show ?thesis
  proof (cases early)
    case True
    then have "h - 1 < length (chunk_of chain 0)"
      using h by (auto simp: len early_def)
    moreover have "chunk_of chain 0 ! (h - 1) = chain ! (h - 1)"
      using True h by (simp add: chunk_of_def early_def)
    moreover have "cn\<lparr>cn_incoming := rest, cn_outgoing := cn_outgoing cn\<rparr> = cn"
      using cn True by simp
    ultimately have "find_anchor wr all_written cn (honest_chunk chain 0) (word_of_nat h) =
        (cn\<lparr>cn_incoming := rest, cn_outgoing := cn_outgoing cn\<rparr>,
         Inr (h - 1 - start, chunk_of chain start, chain ! (h - 1)))"
      using True by (simp add: find_anchor_def index words honest_chunk_def start_def Let_def offsets
            del: One_nat_def)
    then show ?thesis
      by blast
  next
    case False
    have "h - 1 < length chain"
      using h by simp
    then have parts: "sendable wr (honest_answer chain (h - 1))"
      "sendable wr (Chain_chunk_request (word_of_nat (h - 1)))"
      using chain unfolding servable_def by blast+
    have request: "request_chunk wr all_written cn i =
        (cn\<lparr>cn_incoming := rest, cn_outgoing := cn_outgoing cn @ frame_of wr (Chain_chunk_request i)\<rparr>,
         Inr (honest_chunk chain (h - 1)))"
      unfolding i_def by (rule request_honest_chunk[OF wire indexed])
        (use parts h cn False short in simp_all)
    have "\<not> h - 1 < length (chunk_of chain 0)"
      using False unfolding len early_def by linarith
    moreover have "0 < length (chunk_of chain (h - 1))" "chunk_of chain (h - 1) ! 0 = chain ! (h - 1)"
      using h by (simp_all add: chunk_of_def MAX_SYNC_BLOCKS_PER_MESSAGE_def)
    ultimately show ?thesis
      using False request
      by (simp add: find_anchor_def index words honest_chunk_def start_def Let_def offsets
          flip: i_def del: One_nat_def) (rule exI, rule refl)
  qed
qed

lemma anchor_suffix:
  assumes "start < h" and "h \<le> start + MAX_SYNC_BLOCKS_PER_MESSAGE"
  shows "drop h chain = drop (h - start) (chunk_of chain start) @ drop (start + MAX_SYNC_BLOCKS_PER_MESSAGE) chain"
proof -
  have "drop start chain = chunk_of chain start @ drop (start + MAX_SYNC_BLOCKS_PER_MESSAGE) chain"
    by (metis append_take_drop_id chunk_of_def drop_drop add.commute)
  then have "drop (h - start) (drop start chain) =
      drop (h - start) (chunk_of chain start) @
      drop (h - start - length (chunk_of chain start)) (drop (start + MAX_SYNC_BLOCKS_PER_MESSAGE) chain)"
    by simp
  moreover have "drop (h - start - length (chunk_of chain start)) (drop (start + MAX_SYNC_BLOCKS_PER_MESSAGE) chain) =
      drop (start + MAX_SYNC_BLOCKS_PER_MESSAGE) chain"
    using assms by (cases "start + MAX_SYNC_BLOCKS_PER_MESSAGE \<le> length chain") (auto simp: length_chunk_of)
  ultimately show ?thesis
    using assms(1) by simp
qed

lemma valid_well_indexed: "is_valid cr bc \<Longrightarrow> well_indexed (bc_chain bc)"
proof -
  assume "is_valid cr bc"
  then have "block_ok cr i (bc_chain bc ! i)" if "i < length (bc_chain bc)" for i
    unfolding is_valid_iff using id_take_nth_drop[OF that] that by (metis length_take min.absorb4)
  then show "well_indexed (bc_chain bc)"
    by (simp add: well_indexed_def block_ok_def)
qed

lemma adopt_longer:
  assumes "bc_chain bc = bc_chain (nd_blockchain nd) @ later" and "later \<noteq> []"
    and "bc_chain (nd_blockchain nd) \<noteq> []"
    and "node_save pf ef fs nd (bc_chain bc) = (fs', Inr ())"
  shows "adopt_validated_sync_candidate pf ef fs nd bc st =
    (fs', nd\<lparr>nd_blockchain := bc, nd_state := st, nd_mempool := mempool_new\<rparr>, Inr ())"
  using assms by (simp add: adopt_validated_sync_candidate_def Let_def)

lemma extend_honest:
  assumes wire: "wire_spec wr" and chain: "servable wr chain" and start: "start < h" "h \<le> start + MAX_SYNC_BLOCKS_PER_MESSAGE"
    and local_chain: "bc_chain (nd_blockchain (rt_node rt)) = take h chain" "h < length chain"
    and answers: "\<And>k. sy_answers sy k = all_written" and alone: "\<And>n s. sy_others sy n s = s"
    and cn: "cn_incoming cn = answers_for wr chain (chunk_starts (length chain) (start + MAX_SYNC_BLOCKS_PER_MESSAGE))"
    and applied: "apply_blocks pf (sy_ticks sy) (sync_candidate_snapshot (rt_node rt), 0) (drop h chain) = Inr (candidate, j)"
    and adopt: "adopt_validated_sync_candidate pf (sy_effects sy) fs (rt_node rt) (nd_blockchain candidate)
      (nd_state candidate) = (fs', nd', Inr ())"
  shows "\<exists>cn'. extend_from_common_tip wr pf sy (fs, rt) k cn (word_of_nat (length chain)) (word_of_nat h)
      (drop (h - start) (chunk_of chain start)) = ((fs', rt\<lparr>rt_node := nd'\<rparr>), cn', Inr ())"
proof -
  let ?m = "start + MAX_SYNC_BLOCKS_PER_MESSAGE" and ?snapshot = "sync_candidate_snapshot (rt_node rt)"
  let ?suffix = "drop (h - start) (chunk_of chain start)"
  have short: "length chain < 2 ^ 64"
    using chain by (simp add: servable_def)
  obtain cj where first: "apply_blocks pf (sy_ticks sy) (?snapshot, 0) ?suffix = Inr cj"
    and later: "apply_blocks pf (sy_ticks sy) cj (drop ?m chain) = Inr (candidate, j)"
    using applied anchor_suffix[OF start, of chain] by (auto simp: try_fold_append result_simps)
  have "candidate_length ?snapshot = h"
    using local_chain by (simp add: sync_candidate_snapshot_def node_new_with_data_directory_def)
  moreover have "length ?suffix = min ?m (length chain) - h"
    using start local_chain(2) by (auto simp: length_chunk_of min_def)
  ultimately have len: "candidate_length (fst cj) = min ?m (length chain)"
    using apply_blocks_length[OF first] start local_chain(2) by (simp add: min_def)
  have "\<not> (word_of_nat (min ?m (length chain)) :: u64) < word_of_nat h"
    using start local_chain(2) short by (simp add: word_less_nat_alt unat_word_of_nat64 not_less)
  moreover have "drop (min ?m (length chain)) chain = drop ?m chain"
    by (simp add: min_def)
  then have "catch_up wr pf (sy_answers sy) (sy_ticks sy) k cn (word_of_nat (length chain)) cj =
      (cn\<lparr>cn_incoming := [], cn_outgoing := cn_outgoing cn @
          requests_for wr (chunk_starts (length chain) (min ?m (length chain)))\<rparr>, Inr candidate)"
    using catch_up_honest[OF wire chain answers, where cn = cn and n = "min ?m (length chain)" and rest = "[]"
        and cj = cj and pf = pf and ticks = "sy_ticks sy" and cj' = "(candidate, j)" and k = k]
      cn len later by (simp add: chunk_starts_min)
  ultimately show ?thesis
    using first len adopt
    by (simp add: extend_from_common_tip_def alone Let_def adopt_when_unchanged_def)
qed

lemma sync_with_honest_peer:
  assumes wire: "wire_spec wr" and local_wf: "node_wf (pf_crypto pf) (rt_node rt)"
    and peer_wf: "node_wf (pf_crypto pf) peer" and peer_valid: "is_valid (pf_crypto pf) (nd_blockchain peer)"
    and same: "nd_consensus peer = nd_consensus (rt_node rt)"
      "nd_genesis_state peer = nd_genesis_state (rt_node rt)"
      "nd_genesis_economy peer = nd_genesis_economy (rt_node rt)"
    and chains: "bc_chain (nd_blockchain peer) = bc_chain (nd_blockchain (rt_node rt)) @ later" "later \<noteq> []"
    and servable: "servable wr (bc_chain (nd_blockchain peer))"
    and clock: "clock_allows (\<lambda>i. ef_clock (sy_ticks sy i) 0) 0 later"
    and answers: "\<And>k. sy_answers sy k = all_written" and alone: "\<And>n s. sy_others sy n s = s"
    and connected: "connect_authenticated wr (pf_crypto pf) (sy_clock sy) (sy_random sy)
      (sy_handshake_answers sy) w a (sy_dialled sy) = Inr cn"
    and incoming: "cn_incoming cn = answers_for wr (bc_chain (nd_blockchain peer))
      (sync_requests (length (bc_chain (nd_blockchain peer))) (length (bc_chain (nd_blockchain (rt_node rt)))))"
    and save: "node_save pf (sy_effects sy) fs (rt_node rt) (bc_chain (nd_blockchain peer)) = (fs', Inr ())"
  shows "sync_from_peer wr pf sy w a (fs, rt) =
    ((fs', rt\<lparr>rt_node := (rt_node rt)\<lparr>nd_blockchain := nd_blockchain peer, nd_state := nd_state peer,
        nd_mempool := mempool_new\<rparr>\<rparr>), Inr ())"
proof -
  let ?chain = "bc_chain (nd_blockchain peer)" and ?local = "bc_chain (nd_blockchain (rt_node rt))"
  let ?h = "length ?local"
  define start where "start = (if ?h \<le> MAX_SYNC_BLOCKS_PER_MESSAGE then 0 else ?h - 1)"
  have ne: "?local \<noteq> []"
    using local_wf by (rule node_wf_chain)
  have h: "0 < ?h" "?h < length ?chain"
    using ne chains by simp_all
  have short: "length ?chain < 2 ^ 64" "?h < 2 ^ 64" and indexed: "well_indexed ?chain"
    using servable h by (auto simp: servable_def)
  have start_h: "start < ?h" "?h \<le> start + MAX_SYNC_BLOCKS_PER_MESSAGE"
    using h by (auto simp: start_def MAX_SYNC_BLOCKS_PER_MESSAGE_def)
  have genesis: "blk_index (hd ?chain) = 0" "blk_hash (hd ?chain) = calculate_hash (pf_crypto pf) (hd ?chain)"
    "hd ?chain = hd ?local"
    using valid_genesis(1,3)[OF peer_valid] ne chains by simp_all
  have tip: "?chain ! (?h - 1) = last ?local"
    using ne by (simp add: chains(1) nth_append last_conv_nth)
  let ?rest = "answers_for wr ?chain (chunk_starts (length ?chain) (start + MAX_SYNC_BLOCKS_PER_MESSAGE))"
  let ?anchor = "(if ?h \<le> MAX_SYNC_BLOCKS_PER_MESSAGE then [] else frame_of wr (honest_answer ?chain (?h - 1)))"
  let ?cn = "cn\<lparr>cn_incoming := ?anchor @ ?rest,
    cn_outgoing := cn_outgoing cn @ frame_of wr (Chain_chunk_request (word_of_nat 0))\<rparr>"
  have "0 < length ?chain"
    by (rule less_trans[OF h])
  then have zero: "sendable wr (honest_answer ?chain 0)" "sendable wr (Chain_chunk_request (word_of_nat 0))"
    using servable unfolding servable_def by blast+
  have "request_chunk wr all_written cn (word_of_nat 0) = (?cn, Inr (honest_chunk ?chain 0))"
    by (rule request_honest_chunk[OF wire indexed _ short(1)])
      (use zero h incoming in \<open>auto simp: sync_requests_def start_def\<close>)
  then have status: "request_chunk wr (sy_answers sy 0) cn 0 = (?cn, Inr (honest_chunk ?chain 0))"
    by (simp add: answers)
  have "cn_incoming ?cn = ?anchor @ ?rest"
    by simp
  from find_anchor_honest[OF wire servable h this, folded start_def] obtain out where
    "find_anchor wr all_written ?cn (honest_chunk ?chain 0) (word_of_nat ?h) =
      (?cn\<lparr>cn_incoming := ?rest, cn_outgoing := out\<rparr>,
       Inr (?h - 1 - start, chunk_of ?chain start, ?chain ! (?h - 1)))"
    by blast
  then have anchor: "find_anchor wr (sy_answers sy 1) ?cn (honest_chunk ?chain 0) (word_of_nat ?h) =
      (cn\<lparr>cn_incoming := ?rest, cn_outgoing := out\<rparr>,
       Inr (?h - 1 - start, chunk_of ?chain start, last ?local))"
    unfolding answers tip by simp
  obtain candidate j where blocks:
    "apply_blocks pf (sy_ticks sy) (sync_candidate_snapshot (rt_node rt), 0) later = Inr (candidate, j)"
    "nd_blockchain candidate = nd_blockchain peer" "nd_state candidate = nd_state peer"
    using peer_blocks_apply[OF local_wf peer_wf same chains(1) clock] .
  obtain cn' where extend: "extend_from_common_tip wr pf sy (fs, rt) 2
      (cn\<lparr>cn_incoming := ?rest, cn_outgoing := out\<rparr>) (word_of_nat (length ?chain)) (word_of_nat ?h)
      (drop (?h - start) (chunk_of ?chain start)) =
      ((fs', rt\<lparr>rt_node := (rt_node rt)\<lparr>nd_blockchain := nd_blockchain peer, nd_state := nd_state peer,
        nd_mempool := mempool_new\<rparr>\<rparr>), cn', Inr ())"
    using extend_honest[OF wire servable start_h _ h(2) answers alone, of rt
        "cn\<lparr>cn_incoming := ?rest, cn_outgoing := out\<rparr>" pf candidate j fs fs' _ 2]
      adopt_longer[OF chains ne save] blocks chains(1) by auto
  have "chunk_of ?chain 0 \<noteq> []" "hd (chunk_of ?chain 0) = hd ?chain"
    using h by (cases ?chain; simp add: chunk_of_def MAX_SYNC_BLOCKS_PER_MESSAGE_def)+
  moreover have "\<not> (word_of_nat (length ?chain) :: u64) < word_of_nat ?h"
    "(word_of_nat (length ?chain) :: u64) \<noteq> word_of_nat ?h"
    using h short by (auto simp: word_less_nat_alt unat_word_of_nat64 word_of_nat64_inject)
  moreover have "drop (?h - 1 - start + 1) (chunk_of ?chain start) = drop (?h - start) (chunk_of ?chain start)"
    using start_h(1) by (simp add: Suc_diff_Suc)
  ultimately show ?thesis
    unfolding sync_from_peer_def connected status sum.case prod.case alone Let_def
    using ne genesis anchor extend by (simp add: honest_chunk_def)
qed

section \<open>Answers that are too long\<close>

text \<open>
  A node answers with up to 256 blocks, whatever their size. When the text of these blocks is
  longer than a message may be, the answer cannot be sent: the session that asked ends, and no
  byte of an answer was written.
\<close>

lemma oversized_answer_ends_session:
  assumes read: "read_message_or_eof wr cn = (cn', Inr (Some (Chain_chunk_request (word_of_nat i))))"
    and env: "others n s = (fs, rt)"
    and i: "i \<le> length (bc_chain (nd_blockchain (rt_node rt)))" "i < 2 ^ 64"
    and size: "wr_to_vec wr (honest_answer (bc_chain (nd_blockchain (rt_node rt))) i) = Some bytes"
      "MAX_NETWORK_MESSAGE_BYTES < length bytes"
  shows "session_loop wr pf regions answers others one_shot n s cn =
    ((fs, rt), cn', [], Inl (Transport_error Message_limit_exceeded))"
proof -
  have proc: "process_message pf re fs rt (Chain_chunk_request (word_of_nat i)) one_shot =
      (fs, rt, Inr [Reply (honest_answer (bc_chain (nd_blockchain (rt_node rt))) i)])" for re
    using chain_chunk_response_honest[OF i] by (simp add: process_message_def)
  have "bytes \<noteq> []"
    using size(2) by auto
  then have send: "send_message wr sa cn' (honest_answer (bc_chain (nd_blockchain (rt_node rt))) i) =
      (cn', Inl (Transport_error Message_limit_exceeded))" for sa
    using size by (simp add: send_message_def)
  show ?thesis
    by (subst session_loop.simps) (simp add: read env proc send is_chunk_response_def)
qed

end
