(* ===== verification/Panic_Free.thy ===== *)
theory Panic_Free
  imports Runtime_Steps Node_Production
begin

text \<open>
  A panic can come from the split of a fee (\<open>expect\<close> in \<open>economy/mod.rs\<close>), from the slice of the
  chain that answers a request for blocks (\<open>runtime.rs\<close>, \<open>node/mod.rs\<close>) and from the remainder by
  the total stake (\<open>consensus/mod.rs\<close>). The split succeeds when the shares are at most 100 percent,
  which the books of a consistent node include; the slice and the remainder are behind guards of
  the code. So no handler of a consistent node panics, and what a runtime answers is well formed.
\<close>

definition returns :: "'a result \<Rightarrow> bool" where
  "returns r \<longleftrightarrow> (case r of Inl e \<Rightarrow> \<not> is_panic e | Inr _ \<Rightarrow> True)"

lemma returns_simps [simp]: "returns (Inr a)" "returns (Inl e) \<longleftrightarrow> \<not> is_panic e"
  by (simp_all add: returns_def)

lemma is_panic_simps [simp]:
  "\<not> is_panic (State_error e1)" "\<not> is_panic (Economy_error e2)" "\<not> is_panic (Consensus_error e3)"
  "\<not> is_panic (Mempool_error e4)" "\<not> is_panic (Wallet_error e5)" "\<not> is_panic (Format_error e6)"
  "\<not> is_panic (Chain_error e7)" "\<not> is_panic (Transaction_check e8)" "\<not> is_panic (Block_check e9)"
  "\<not> is_panic (Sync_error e10)" "\<not> is_panic (Storage_error e11)" "\<not> is_panic (Runtime_error e12)"
  "is_panic (Panic p)"
  by (simp_all add: is_panic_def)

lemma returns_and_then [simp]:
  "returns (and_then m f) \<longleftrightarrow> returns m \<and> (\<forall>a. m = Inr a \<longrightarrow> returns (f a))"
  by (cases m) simp_all

lemma returns_ok_or [simp]: "returns (ok_or m e) \<longleftrightarrow> m \<noteq> None \<or> \<not> is_panic e"
  by (cases m) (simp_all add: ok_or_def)

lemma returns_try_fold: "(\<And>s x. x \<in> set xs \<Longrightarrow> returns (f s x)) \<Longrightarrow> returns (try_fold f s xs)"
  by (induction xs arbitrary: s) simp_all

section \<open>Checks and state changes\<close>

named_theorems returning

lemma apply_transaction_returns [returning]: "returns (keep_ok apply_transaction st tx)"
  by (auto simp: keep_ok_def apply_transaction_def apply_coinbase_def apply_transfer_def Let_def
      split: option.split prod.split sum.split)

lemma distribute_fee_returns [returning]: "shares_ok e \<Longrightarrow> returns (distribute_fee e fee)"
  using distribute_fee_exact[of e fee] by auto

lemma add_fee_shares_returns [returning]: "shares_ok e \<Longrightarrow> returns (add_fee_shares e ft tx)"
  by (auto simp: add_fee_shares_def distribute_fee_returns split: prod.split)

lemma settle_fees_returns [returning]: "returns (settle_fees v ft st e)"
  by (auto simp: settle_fees_def add_balance_def add_treasury_def add_liquidity_reserve_def
      state_burn_def split: option.split)

lemma mint_returns [returning]: "returns (mint e x)"
  by (simp add: mint_def)

lemma field_sizes_returns [returning]: "returns (validate_transaction_field_sizes tx)"
  by (auto simp: validate_transaction_field_sizes_def split: option.split)

lemma transaction_base_returns [returning]: "returns (validate_transaction_base cr tx e)"
  by (auto simp: validate_transaction_base_def node_field_sizes_eq field_sizes_returns)

lemma transaction_returns [returning]: "returns (validate_transaction cr tx st e)"
  by (auto simp: validate_transaction_def transaction_base_returns Let_def)

lemma block_field_sizes_returns [returning]: "returns (validate_block_field_sizes b)"
  by (auto simp: validate_block_field_sizes_def intro!: returns_try_fold field_sizes_returns)

lemma block_format_returns [returning]: "returns (check_block_format b)"
  by (auto simp: check_block_format_def node_field_sizes_eq intro!: returns_try_fold field_sizes_returns)

lemma uniqueness_returns [returning]: "returns (validate_transaction_id_uniqueness bc b)"
  by (auto simp: validate_transaction_id_uniqueness_def insert_id_def intro!: returns_try_fold)

lemma future_timestamp_returns [returning]: "returns (validate_future_timestamp clock t)"
  by (auto simp: validate_future_timestamp_def)

lemma add_received_block_returns [returning]: "returns (add_received_block cr clock bc b)"
  by (auto simp: add_received_block_def last_block_def returning)

lemma select_validation_returns [returning]:
  "returns (select_validator_from_hash cr co previous_hash)"
  using select_validator_from_hash_total[of cr co previous_hash] by (auto simp: returns_def split: sum.split)

lemma block_validator_returns [returning]: "returns (check_block_validator cr co b)"
  by (auto simp: check_block_validator_def select_validation_returns)

lemma run_transaction_returns [returning]:
  "shares_ok e \<Longrightarrow> returns (run_transaction cr b e run pt)"
  by (cases pt) (auto simp: run_transaction_def check_coinbase_def returning)

lemma finish_block_returns [returning]: "returns (finish_block b e run)"
  by (auto simp: finish_block_def returning)

lemma validate_and_apply_block_returns [returning]:
  "shares_ok (bc_economy bc) \<Longrightarrow> returns (validate_and_apply_block cr clock co b bc st)"
  by (auto simp: validate_and_apply_block_def Let_def returning intro!: returns_try_fold)

lemma execute_transactions_returns [returning]:
  assumes "shares_ok (bc_economy bc)"
  shows "returns (execute_transactions cr bc w txs st)"
proof -
  have "returns (snd (apply_transactions_atomically st txs))"
    using returns_try_fold[of txs "keep_ok apply_transaction" st] apply_transaction_returns
    by (auto simp: apply_transactions_atomically_def split: sum.split)
  moreover have "returns (try_fold (check_fee e) () txs)" for e
    by (rule returns_try_fold) (simp add: check_fee_def)
  moreover have "returns (try_fold (add_fee_shares (bc_economy bc)) no_fees txs)"
    using assms by (intro returns_try_fold add_fee_shares_returns)
  ultimately show ?thesis
    by (auto simp: execute_transactions_def reward_validator_def Let_def returning split: prod.split sum.split)
qed

lemma create_block_returns [returning]:
  "shares_ok (bc_economy bc) \<Longrightarrow> returns (create_block_from_mempool cr clock bc t w mp st)"
  by (auto simp: create_block_from_mempool_def last_block_def Let_def returning split: prod.split)

lemma next_nonce_returns [returning]: "returns (next_nonce mp a n)"
  by (cases "next_nonce mp a n") (auto dest: next_nonce_Inl)

lemma pending_cost_returns [returning]: "returns (pending_cost mp a)"
  by (auto simp: pending_cost_def add_cost_def intro!: returns_try_fold)

lemma for_mempool_returns [returning]: "returns (validate_transaction_for_mempool cr tx st e mp)"
  by (auto simp: validate_transaction_for_mempool_def Let_def returning)

lemma save_error:
  assumes "save_blockchain_to js io fs dir chain = (fs', Inl e)"
  shows "\<exists>x. e = Storage_error x"
proof -
  have steps: "ensure_data_directory_at io = Inl e \<Longrightarrow> \<exists>x. e = Storage_error x"
    "create_temp io fs t = (fs', Inl e) \<Longrightarrow> \<exists>x. e = Storage_error x"
    "write_all io fs t bs = (fs', Inl e) \<Longrightarrow> \<exists>x. e = Storage_error x"
    "replace_file io fs t f = (fs', Inl e) \<Longrightarrow> \<exists>x. e = Storage_error x" for fs t bs f fs' and e :: error
    by (auto simp: ensure_data_directory_at_def create_temp_def write_all_def replace_file_def
        split: option.splits if_splits)
  from assms show ?thesis
    unfolding save_blockchain_to_def Let_def
    by (cases "chain = []"; cases "js_to_vec js chain"; cases "io_sync io")
      (auto split: prod.splits sum.splits dest: steps)
qed

lemma save_returns [returning]: "returns (snd (save_blockchain_to js io fs dir chain))"
  using save_error[of js io fs dir chain] by (auto simp: returns_def split: sum.split) (metis is_panic_simps(11) prod.collapse)

lemma save_no_panic [simp]: "save_blockchain_to js io fs dir chain \<noteq> (fs', Inl (Panic p))"
  using save_error[of js io fs dir chain fs' "Panic p"] by auto

section \<open>Handlers of a node\<close>

lemma chunk_slice_fits:
  assumes "start \<le> length chain"
  shows "slice_range chain start (min (start + n) (length chain)) = Inr (take n (drop start chain))"
proof -
  have "take (min (start + n) (length chain) - start) (drop start chain) = take n (drop start chain)"
    by (simp add: min_def)
  then show ?thesis
    using assms by simp
qed

lemma answer_chunk_request_returns: "snd (answer_chunk_request pf ef nd start_index) = Inr ()"
  by (auto simp: answer_chunk_request_def Let_def chunk_slice_fits not_less)

lemma chain_chunk_response_returns [returning]: "returns (chain_chunk_response rt start_index)"
  by (auto simp: chain_chunk_response_def Let_def chunk_slice_fits not_less)

lemma node_wf_shares:
  assumes "node_wf cr nd"
  shows "shares_ok (bc_economy (nd_blockchain nd))" and "shares_ok (nd_genesis_economy nd)"
  using assms node_wf_books[OF assms] by (simp_all add: node_wf_def books_balanced_def)

lemma accepted_block_settings:
  assumes "validate_and_apply_block cr clock co b bc st = Inr (bc', st')"
  shows "settings (bc_economy bc') = settings (bc_economy bc)"
proof -
  obtain txs e' where "block_result cr b (bc_economy bc) st txs = Inr (e', st')" and e': "bc_economy bc' = e'"
    using assms by (auto simp: validate_and_apply_block_Inr)
  from this(1) obtain s1 ft s2 e2 where "settle_fees (blk_validator b) ft s1 (bc_economy bc) = Inr (s2, e2)"
    "mint e2 (tx_amount (block_coinbase cr b (bc_economy bc))) = Inr e'"
    by (rule block_result_Inr)
  with settle_fees_settings[of "blk_validator b" ft s1 "bc_economy bc" s2 e2] show ?thesis
    by (auto simp: mint_def e' split: if_splits)
qed

lemma replay_blocks_returns:
  "shares_ok (bc_economy bc) \<Longrightarrow> returns (replay_blocks cr clock co (bc, st) n bs)"
proof (induction bs arbitrary: bc st n)
  case Nil
  then show ?case by simp
next
  case (Cons b bs)
  have "returns (replay_blocks cr clock co (bc1, st1) (Suc n) bs)"
    if "validate_and_apply_block cr (clock n) co b bc st = Inr (bc1, st1)" for bc1 st1
    using Cons.IH Cons.prems settings_fields(3)[OF accepted_block_settings[OF that]] by simp
  then show ?case
    using validate_and_apply_block_returns[OF Cons.prems] by auto
qed

lemma synchronize_chain_returns:
  assumes "node_wf (pf_crypto pf) nd"
  shows "returns (snd (snd (synchronize_chain pf ef fs nd chain)))"
proof -
  have "returns (replay_chain (pf_crypto pf) (ef_clock ef) nd chain)" if "chain \<noteq> []"
    using node_wf_shares(2)[OF assms] that
    by (cases chain) (simp_all add: replay_chain_eq genesis_start_def replay_blocks_returns)
  moreover have "returns (check_incoming_genesis pf nd chain)"
    by (simp add: check_incoming_genesis_def Let_def)
  moreover have "returns (compare_equal_chain pf nd chain)"
    by (simp add: compare_equal_chain_def Let_def)
  moreover have "\<not> is_panic e" if "node_save pf ef fs nd c = (fs', Inl e)" for fs' e c
    using save_error[OF that] by auto
  ultimately show ?thesis
    unfolding synchronize_chain_def
    by (cases "chain = []") (auto simp: returns_def split: prod.split sum.splits error.splits)
qed

lemma accept_chain_chunk_returns:
  assumes "node_wf (pf_crypto pf) nd"
  shows "returns (snd (snd (accept_chain_chunk pf ef fs nd start_index total_blocks blocks)))"
proof -
  have bounds: "returns (check_chunk_bounds start_index total_blocks blocks)"
    by (simp add: check_chunk_bounds_def)
  have opened: "returns (snd (open_chunk nd start_index total_blocks))"
    by (simp add: open_chunk_def)
  have wf: "node_wf (pf_crypto pf) (fst (open_chunk nd start_index total_blocks))"
    using assms by (simp add: open_chunk_def)
  have indices: "returns (try_fold (check_chunk_index start_index) () (List.enumerate 0 blocks))"
    by (rule returns_try_fold) (auto simp: check_chunk_index_def Let_def)
  have sync: "\<not> is_panic e"
    if "node_wf (pf_crypto pf) nd1" and "synchronize_chain pf ef fs
      (nd1\<lparr>nd_sync_buffer := [], nd_sync_expected_total := None\<rparr>) c = (fs1, nd2, Inl e)" for nd1 c e fs1 nd2
    using synchronize_chain_returns[of pf "nd1\<lparr>nd_sync_buffer := [], nd_sync_expected_total := None\<rparr>" ef fs c] that
    by simp
  show ?thesis
    using bounds opened wf indices
    by (auto simp: accept_chain_chunk_def returns_def Let_def split: prod.splits sum.splits dest: sync)
qed

lemma receive_block_returns:
  "node_wf cr nd \<Longrightarrow> returns (snd (snd (receive_block pf ef fs nd b)))"
  using validate_and_apply_block_returns[of "nd_blockchain nd" "pf_crypto pf" "ef_clock ef 0" "nd_consensus nd" b "nd_state nd"]
    node_wf_shares(1)[of cr nd]
  by (auto simp: receive_block_def returns_def split: sum.split prod.split)

lemma receive_message_returns:
  assumes "node_wf (pf_crypto pf) nd"
  shows "snd (snd (receive_message pf ef fs nd m)) = Inr ()"
proof (cases m)
  case (Block_message b)
  then show ?thesis
    using receive_block_returns[OF assms, of pf ef fs b]
    by (auto simp: receive_message_def receive_block_def split: sum.splits prod.splits if_splits)
next
  case (Chain_chunk_response start_index total_blocks blocks)
  then show ?thesis
    using accept_chain_chunk_returns[OF assms, of ef fs start_index total_blocks blocks]
    by (auto simp: receive_message_def returns_def split: sum.splits prod.splits option.splits)
qed (simp_all add: receive_message_def answer_chunk_request_returns)

lemma node_select_no_panic [simp]: "node_select_validator pf nd seed \<noteq> Inl e"
  by (simp add: node_select_validator_def and_then_def select_validator_from_hash_total split: sum.split)

lemma produce_block_returns:
  assumes "node_wf cr nd"
  shows "returns (snd (snd (produce_block pf ef fs nd t w)))"
proof -
  have "returns (create_block_from_mempool (pf_crypto pf) (ef_clock ef 0) (nd_blockchain nd) t w (nd_mempool nd) (nd_state nd))"
    by (rule create_block_returns[OF node_wf_shares(1)[OF assms]])
  moreover have "\<not> is_panic e" if "node_save pf ef fs nd c = (fs', Inl e)" for fs' e c
    using save_error[OF that] by auto
  ultimately show ?thesis
    by (auto simp: produce_block_def last_block_def returns_def and_then_def ok_or_def
        select_validator_from_hash_total
        split: sum.splits prod.splits error.splits option.splits if_splits)
qed

lemma insert_transaction_returns: "returns (snd (insert_transaction_into_mempool pf nd tx))"
  using for_mempool_returns[of "pf_crypto pf" tx "nd_state nd" "bc_economy (nd_blockchain nd)" "nd_mempool nd"]
  by (auto simp: insert_transaction_into_mempool_def returns_def split: sum.splits prod.splits)

section \<open>Tasks of a runtime\<close>

lemma try_produce_pending_returns:
  assumes "node_wf (pf_crypto pf) (rt_node rt)"
  shows "returns (snd (snd (try_produce_pending_block pf re fs rt)))"
proof -
  have "\<not> is_panic e" if "produce_block pf ef fs (rt_node rt) t w = (fs', nd', Inl e)" for ef t w fs' nd' e
    using produce_block_returns[OF assms, of pf ef fs t w] that by simp
  then show ?thesis
    by (auto simp: try_produce_pending_block_def Let_def split: option.split prod.split sum.split)
qed

lemma append_pending_returns:
  assumes "node_wf (pf_crypto pf) (rt_node rt)"
  shows "\<exists>more. snd (snd (append_pending_block_action pf re fs rt actions)) = Inr (actions @ more) \<and>
    (\<forall>m. Reply m \<notin> set more)"
  using try_produce_pending_returns[OF assms, of re fs]
  by (auto simp: append_pending_block_action_def split: prod.split sum.split option.split)

lemma process_message_returns:
  assumes "node_wf (pf_crypto pf) (rt_node rt)"
  shows "returns (snd (snd (process_message pf re fs rt m one_shot)))"
proof (cases m)
  case (Transaction_message tx)
  have "node_wf (pf_crypto pf) (fst (insert_transaction_into_mempool pf (rt_node rt) tx))"
    by (rule insert_transaction_wf[OF assms])
  then show ?thesis
    using Transaction_message insert_transaction_returns[of pf "rt_node rt" tx]
      append_pending_returns[of pf "rt\<lparr>rt_node := fst (insert_transaction_into_mempool pf (rt_node rt) tx)\<rparr>" re fs]
    by (auto simp: process_message_def process_transaction_def receive_transaction_with_result_def Let_def
        split: prod.split sum.split) (metis returns_simps(1))+
next
  case (Block_message b)
  obtain fs' nd' where received: "receive_message pf (re_handler re) fs (rt_node rt) (Block_message b) = (fs', nd', Inr ())"
    using receive_message_returns[OF assms] by (metis prod.collapse)
  then have "node_wf (pf_crypto pf) nd'"
    using receive_message_wf[OF assms, of "re_handler re" fs "Block_message b"] by simp
  then show ?thesis
    using Block_message append_pending_returns[of pf "rt\<lparr>rt_node := nd'\<rparr>" re fs' "[Broadcast (Block_message b)]"]
    by (auto simp: process_message_def process_block_def received Let_def)
qed (auto simp: process_message_def chain_chunk_response_def account_state_response_def
      receive_message_returns[OF assms] Let_def split: prod.split
      dest!: arg_cong[where f = "\<lambda>r. snd (snd r)"])

section \<open>Answers\<close>

lemma admitted_id:
  assumes "insert_transaction_into_mempool pf nd tx = (nd', Inr ())"
  shows "is_fixed_hex (tx_id tx) HASH_HEX_LENGTH"
proof -
  have "validate_transaction_for_mempool (pf_crypto pf) tx (nd_state nd) (bc_economy (nd_blockchain nd))
      (nd_mempool nd) = Inr ()"
    using assms by (auto simp: insert_transaction_into_mempool_def split: sum.splits prod.splits)
  then have "tx_authentic (pf_crypto pf) tx"
    by (rule validate_for_mempool_Inr(1))
  then show ?thesis
    unfolding tx_authentic_def by blast
qed

text \<open>What a runtime replies passes the checks its receiver makes on every message, if it is not too long.\<close>

lemma replies_within_limits:
  assumes wf: "node_wf (pf_crypto pf) (rt_node rt)" and valid: "is_valid (pf_crypto pf) (nd_blockchain (rt_node rt))"
    and run: "process_message pf re fs rt m one_shot = (fs', rt', Inr actions)"
    and reply: "Reply answer \<in> set actions"
    and size: "msize answer = Some n" "n \<le> MAX_NETWORK_MESSAGE_BYTES"
  shows "message_within_limits cr msize clock answer"
proof -
  let ?chain = "bc_chain (nd_blockchain (rt_node rt))"
  have tip: "?chain \<noteq> []" "is_fixed_hex (blk_hash (last ?chain)) HASH_HEX_LENGTH"
    using node_wf_chain[OF wf] valid_tip_hash[OF valid] by simp_all
  have reason: "REJECTION_REASON \<noteq> []" "length REJECTION_REASON \<le> MAX_TRANSACTION_ACK_REASON_LENGTH"
    by (simp_all add: REJECTION_REASON_def MAX_TRANSACTION_ACK_REASON_LENGTH_def)
  have chunk: "message_within_limits cr msize clock answer"
    if "chain_chunk_response rt i = Inr answer" for i
    using that size by (auto simp: chain_chunk_response_def message_within_limits_def Let_def min_def split: if_splits)
  show ?thesis
  proof (cases m)
    case (Transaction_message tx)
    obtain nd r where insert: "insert_transaction_into_mempool pf (rt_node rt) tx = (nd, r)"
      by fastforce
    then have wf': "node_wf (pf_crypto pf) nd"
      using insert_transaction_wf[OF wf, of tx] by simp
    show ?thesis
    proof (cases r)
      case (Inl e)
      then show ?thesis
        using run reply size insert reason Transaction_message
        by (auto simp: process_message_def process_transaction_def receive_transaction_with_result_def Let_def
            message_within_limits_def transaction_ack_fields_valid_def split: if_splits)
    next
      case (Inr u)
      then have "is_fixed_hex (tx_id tx) HASH_HEX_LENGTH"
        using insert admitted_id[of pf "rt_node rt" tx nd] by simp
      then show ?thesis
        using run reply size insert Inr Transaction_message
          append_pending_returns[of pf "rt\<lparr>rt_node := nd\<rparr>" re fs
            "(if one_shot then [Reply (Transaction_ack (tx_id tx) True None)] else []) @ [Broadcast (Transaction_message tx)]"] wf'
        by (auto simp: process_message_def process_transaction_def receive_transaction_with_result_def Let_def
            message_within_limits_def transaction_ack_fields_valid_def split: if_splits)
    qed
  next
    case (Block_message b)
    obtain fs1 nd1 where received: "receive_message pf (re_handler re) fs (rt_node rt) (Block_message b) = (fs1, nd1, Inr ())"
      using receive_message_returns[OF wf] by (metis prod.collapse)
    then have "node_wf (pf_crypto pf) nd1"
      using receive_message_wf[OF wf, of "re_handler re" fs "Block_message b"] by simp
    then show ?thesis
      using run reply Block_message received
        append_pending_returns[of pf "rt\<lparr>rt_node := nd1\<rparr>" re fs1 "[Broadcast (Block_message b)]"]
      by (auto simp: process_message_def process_block_def Let_def split: if_splits)
  next
    case (Account_state_request a)
    then show ?thesis
      using run reply size tip
      by (auto simp: process_message_def account_state_response_def message_within_limits_def Let_def
          result_simps split: if_splits)
  next
    case (Chain_chunk_request i)
    then show ?thesis
      using run reply chunk by (auto simp: process_message_def result_simps)
  next
    case Sync_request
    then show ?thesis
      using run reply chunk by (auto simp: process_message_def result_simps)
  qed (use run reply in \<open>auto simp: process_message_def result_simps split: prod.splits\<close>)
qed

end
