(* ===== verification/User_Wallet.thy ===== *)
theory User_Wallet
  imports Vault
begin

text \<open>
  \<open>src/user_wallet.rs\<close> (the code for Unix): the encrypted wallet of a user. It is sealed and
  published as the key of a validator is, with its own texts. The lemmas show that a created
  wallet is the one that is loaded and that it is never replaced.
\<close>

definition USER_WALLET_FILE_NAME :: string where
  "USER_WALLET_FILE_NAME = ''user-wallet.json''"
definition USER_WALLET_FORMAT :: string where
  "USER_WALLET_FORMAT = ''kybernetes-user-wallet-v1''"
definition USER_WALLET_AAD :: "byte list" where
  "USER_WALLET_AAD = as_bytes ''KYBERNETES_USER_WALLET_V1''"

record stored_user_wallet =
  su_format :: string
  su_address :: string
  su_private_key_hex :: string

text \<open>\<open>serde_json\<close> on the payload.\<close>

record user_wallet_json =
  uj_to_vec :: "stored_user_wallet \<Rightarrow> byte list option"
  uj_from_slice :: "byte list \<Rightarrow> stored_user_wallet option"

definition user_wallet_json_spec :: "user_wallet_json \<Rightarrow> bool" where
  "user_wallet_json_spec uj \<longleftrightarrow>
     (\<forall>w bs. uj_to_vec uj w = Some bs \<longrightarrow> uj_from_slice uj bs = Some w)"

definition user_wallet_path :: "string \<Rightarrow> path" where
  "user_wallet_path dir = (dir, USER_WALLET_FILE_NAME)"

text \<open>\<open>Path::exists\<close> is \<open>false\<close> also when the system refuses to say.\<close>

definition user_wallet_exists :: "key_io \<Rightarrow> file_system \<Rightarrow> string \<Rightarrow> bool" where
  "user_wallet_exists io fs dir \<longleftrightarrow> fmlookup fs (user_wallet_path dir) \<noteq> None \<and> ki_metadata io"

definition user_encrypt ::
  "crypto \<Rightarrow> vault \<Rightarrow> key_io \<Rightarrow> string \<Rightarrow> byte list \<Rightarrow> byte list result" where
  "user_encrypt cr va io password plaintext =
     encrypt User_wallet cr va io password plaintext USER_WALLET_AAD"

definition user_decrypt ::
  "crypto \<Rightarrow> vault \<Rightarrow> string \<Rightarrow> byte list \<Rightarrow> byte list result" where
  "user_decrypt cr va password encrypted =
     decrypt User_wallet cr va password encrypted USER_WALLET_AAD"

definition write_new ::
  "crypto \<Rightarrow> key_io \<Rightarrow> file_system \<Rightarrow> string \<Rightarrow> byte list \<Rightarrow> file_system \<times> unit result" where
  "write_new cr io fs dir contents =
     publish_new User_wallet cr io fs dir (user_wallet_path dir) ''.user-wallet'' contents"

definition user_wallet_create ::
  "crypto \<Rightarrow> vault \<Rightarrow> user_wallet_json \<Rightarrow> key_io \<Rightarrow> file_system \<Rightarrow> string \<Rightarrow> string \<Rightarrow>
   file_system \<times> wallet result" where
  "user_wallet_create cr va uj io fs dir password =
     (if user_wallet_exists io fs dir then (fs, Inl (Keystore_error User_wallet Keystore_exists))
      else if \<not> ki_create_dir io
      then (fs, Inl (Keystore_error User_wallet Keystore_directory_not_created))
      else let w = wallet_new cr (ki_signing_key io);
               stored = \<lparr>su_format = USER_WALLET_FORMAT, su_address = w_address w,
                         su_private_key_hex = private_key_hex cr w\<rparr>
           in (case and_then (ok_or (uj_to_vec uj stored) (Keystore_error User_wallet Payload_not_created))
                      (user_encrypt cr va io password) of
                 Inl e \<Rightarrow> (fs, Inl e)
               | Inr encrypted \<Rightarrow>
                   (case write_new cr io fs dir encrypted of
                      (fs, Inl e) \<Rightarrow> (fs, Inl e)
                    | (fs, Inr _) \<Rightarrow> (fs, Inr w))))"

definition user_wallet_load ::
  "crypto \<Rightarrow> vault \<Rightarrow> user_wallet_json \<Rightarrow> key_io \<Rightarrow> file_system \<Rightarrow> string \<Rightarrow> string \<Rightarrow>
   wallet option result" where
  "user_wallet_load cr va uj io fs dir password =
     (case (if user_wallet_exists io fs dir then fmlookup fs (user_wallet_path dir) else None) of
        None \<Rightarrow> Inr None
      | Some encrypted \<Rightarrow>
          if \<not> ki_read io then Inl (Keystore_error User_wallet Keystore_not_read)
          else and_then (user_decrypt cr va password encrypted) (\<lambda>plaintext.
            and_then (ok_or (uj_from_slice uj plaintext) (Keystore_error User_wallet Payload_invalid))
              (\<lambda>stored.
            if su_format stored \<noteq> USER_WALLET_FORMAT
            then Inl (Keystore_error User_wallet Identity_mismatch)
            else and_then (from_private_key_hex cr (su_private_key_hex stored)) (\<lambda>w.
              if w_address w \<noteq> su_address stored
              then Inl (Keystore_error User_wallet Keystore_address_mismatch)
              else Inr (Some w)))))"

section \<open>A created wallet is loaded and stays\<close>

lemma user_place_ok [simp]: "place_ok (file, cr, dir, user_wallet_path dir', ''.user-wallet'')"
  by (simp add: place_ok_def user_wallet_path_def USER_WALLET_FILE_NAME_def)

lemma user_wallet_create_Inr:
  assumes "user_wallet_create cr va uj io fs dir password = (fs', Inr w)"
  obtains plaintext c where "w = wallet_new cr (ki_signing_key io)"
    "uj_to_vec uj \<lparr>su_format = USER_WALLET_FORMAT, su_address = w_address w,
       su_private_key_hex = private_key_hex cr w\<rparr> = Some plaintext"
    "encrypt User_wallet cr va io password plaintext USER_WALLET_AAD = Inr c"
    "publish_new User_wallet cr io fs dir (user_wallet_path dir) ''.user-wallet'' c = (fs', Inr ())"
  using assms that
  by (auto simp: user_wallet_create_def user_encrypt_def write_new_def Let_def result_simps
      split: sum.splits prod.splits if_splits)

lemma user_wallet_create_load:
  assumes spec: "hex_spec cr" "vault_spec va" "user_wallet_json_spec uj" "generated_lengths io"
    and create: "user_wallet_create cr va uj io fs dir password = (fs', Inr w)"
    and io': "readable io'"
  shows "user_wallet_load cr va uj io' fs' dir password = Inr (Some w)"
    and "wallet_wf cr w" and "fmlookup fs (user_wallet_path dir) = None"
proof -
  obtain plaintext c where w: "w = wallet_new cr (ki_signing_key io)"
    and pt: "uj_to_vec uj \<lparr>su_format = USER_WALLET_FORMAT, su_address = w_address w,
       su_private_key_hex = private_key_hex cr w\<rparr> = Some plaintext"
    and c: "encrypt User_wallet cr va io password plaintext USER_WALLET_AAD = Inr c"
    and pub: "publish_new User_wallet cr io fs dir (user_wallet_path dir) ''.user-wallet'' c = (fs', Inr ())"
    using create by (rule user_wallet_create_Inr)
  obtain bs where bs: "fmlookup fs' (user_wallet_path dir) = Some bs"
    "decrypt User_wallet cr va password bs USER_WALLET_AAD = Inr plaintext"
    and absent: "fmlookup fs (user_wallet_path dir) = None"
    using keystore.stored_message[of "(User_wallet, cr, va, USER_WALLET_AAD)" io
        "(User_wallet, cr, dir, user_wallet_path dir, ''.user-wallet'')"
        password plaintext c io fs fs'] spec c pub by auto
  show wf: "wallet_wf cr w"
    using spec(4) by (simp add: w wallet_new_wf generated_lengths_def)
  show "user_wallet_load cr va uj io' fs' dir password = Inr (Some w)"
    using bs pt spec(3) io' private_key_roundtrip[OF spec(1) wf]
    by (simp add: user_wallet_load_def user_wallet_exists_def user_decrypt_def user_wallet_json_spec_def
        readable_def)
  show "fmlookup fs (user_wallet_path dir) = None"
    by (rule absent)
qed

lemma user_wallet_create_keeps:
  assumes "fmlookup fs p = Some c" and "snd p = [] \<or> hd (snd p) \<noteq> CHR ''.''"
  shows "fmlookup (fst (user_wallet_create cr va uj io fs dir password)) p = Some c"
proof -
  have "fmlookup fs1 p = Some c" if "write_new cr io fs dir x = (fs1, r)" for x fs1 r
    using publish_new_keeps[OF assms(1), of "''.user-wallet''"] assms(2) that
    by (simp add: write_new_def) (metis fst_conv)
  then show ?thesis
    using assms(1) by (auto simp: user_wallet_create_def Let_def split: sum.splits prod.splits)
qed

lemma user_wallet_load_wf:
  "user_wallet_load cr va uj io fs dir password = Inr (Some w) \<Longrightarrow> wallet_wf cr w"
  using from_private_key_hex_wf
  by (auto simp: user_wallet_load_def result_simps split: option.splits if_splits)

end
