(* ===== verification/Submission.thy ===== *)
theory Submission
  imports Runtime_Sync Panic_Free User_Wallet
begin

text \<open>
  \<open>src/transaction_submission.rs\<close>: a wallet signs a transfer and a one-shot client hands it to
  a node. The amounts come from the stored chain, replayed from the canonical genesis, or from
  the answer of the node. The lemmas show which transactions are prepared, that a node in the
  reported state admits them, what the replay of a stored chain yields, and which answers of the
  node end the submission.
\<close>

section \<open>Preparing a transaction\<close>

definition prepare_signed_transaction_from_values ::
  "crypto \<Rightarrow> wallet \<Rightarrow> string \<Rightarrow> u64 \<Rightarrow> u64 \<Rightarrow> u64 \<Rightarrow> economy \<Rightarrow> transaction result" where
  "prepare_signed_transaction_from_values cr signer recipient amount_micro_kbn balance nonce e =
     (if \<not> is_fixed_hex recipient ADDRESS_HEX_LENGTH
      then Inl (Submission_error Recipient_address_invalid)
      else if amount_micro_kbn = 0 then Inl (Submission_error Submitted_amount_zero)
      else let fee = calculate_fee e amount_micro_kbn in
        and_then (ok_or (checked_add amount_micro_kbn fee) (Submission_error Submitted_cost_overflow))
          (\<lambda>total_cost.
        if balance < total_cost then Inl (Submission_error Submitted_cost_exceeds_balance)
        else let tx = transaction_new cr (w_address signer) (public_key_hex cr signer) recipient
                   amount_micro_kbn fee nonce;
                 tx = tx_sign tx (wallet_sign cr signer (tx_message tx)) in
          and_then (ok_or (tx_signature tx) (Submission_error Signature_not_created)) (\<lambda>signature.
          and_then (ok_or (address_from_public_key cr (tx_public_key tx))
                      (Submission_error Key_address_not_derived)) (\<lambda>derived_address.
            if derived_address \<noteq> tx_from tx \<or> tx_id tx \<noteq> calculate_id cr tx \<or>
               \<not> wallet_verify cr (tx_public_key tx) (tx_message tx) signature
            then Inl (Submission_error Own_verification_failed)
            else Inr tx))))"

definition prepare_signed_transaction ::
  "crypto \<Rightarrow> wallet \<Rightarrow> string \<Rightarrow> u64 \<Rightarrow> state \<Rightarrow> economy \<Rightarrow> transaction result" where
  "prepare_signed_transaction cr signer recipient amount_micro_kbn st e =
     (let sender = w_address signer in
      prepare_signed_transaction_from_values cr signer recipient amount_micro_kbn
        (balance_of st sender) (nonce_of st sender) e)"

section \<open>The stored chain\<close>

definition load_replayed_state ::
  "platform \<Rightarrow> io_read \<Rightarrow> (nat \<Rightarrow> effects) \<Rightarrow> file_system \<Rightarrow> string \<Rightarrow> (state \<times> economy) result" where
  "load_replayed_state pf rio ticks fs dir =
     and_then (load_blockchain_from (pf_json pf) rio fs dir) (\<lambda>loaded.
     and_then (ok_or loaded (Submission_error Chain_file_not_found)) (\<lambda>chain.
     and_then (canonical_bootstrap (pf_crypto pf)) (\<lambda>bootstrap.
       if chain = [] then Inl (Storage_error Stored_chain_empty)
       else if bc_chain (cb_blockchain bootstrap) = []
       then Inl (Submission_error Canonical_chain_without_genesis)
       else let stored_genesis = hd chain;
                canonical_genesis = hd (bc_chain (cb_blockchain bootstrap)) in
         if blk_hash stored_genesis \<noteq> calculate_hash (pf_crypto pf) stored_genesis
         then Inl (Submission_error Stored_genesis_hash_invalid)
         else if blk_hash stored_genesis \<noteq> blk_hash canonical_genesis
         then Inl (Submission_error Stored_genesis_not_canonical)
         else let replay_node = node_new_with_data_directory (cb_blockchain bootstrap)
                    (cb_state bootstrap) (cb_consensus bootstrap) [] in
           and_then (apply_blocks pf ticks (replay_node, 0) (tl chain)) (\<lambda>(replay_node, _).
             Inr (nd_state replay_node, bc_economy (nd_blockchain replay_node))))))"

definition prepare_from_active_validator ::
  "platform \<Rightarrow> vault \<Rightarrow> validator_json \<Rightarrow> key_io \<Rightarrow> io_read \<Rightarrow> (nat \<Rightarrow> effects) \<Rightarrow> file_system \<Rightarrow>
   string \<Rightarrow> string \<Rightarrow> string \<Rightarrow> u64 \<Rightarrow> transaction result" where
  "prepare_from_active_validator pf va vj kio rio ticks fs dir validator_password recipient amount_micro_kbn =
     and_then (canonical_bootstrap (pf_crypto pf)) (\<lambda>bootstrap.
     and_then (load_authorized (pf_crypto pf) va vj kio fs dir validator_password
                 (cb_consensus bootstrap) (cb_genesis_fingerprint bootstrap)) (\<lambda>loaded.
     and_then (ok_or loaded (Submission_error Active_keystore_not_found)) (\<lambda>identity.
     and_then (load_replayed_state pf rio ticks fs dir) (\<lambda>(st, e).
       prepare_signed_transaction (pf_crypto pf) (vi_wallet identity) recipient amount_micro_kbn st e))))"

section \<open>The one-shot client\<close>

text \<open>
  What the operating system answers during one request: the key of the throw-away identity, the
  connection, and the clock when the response is checked.
\<close>

record request_io =
  rq_identity_key :: "byte list"
  rq_clock :: "nat \<Rightarrow> u64 option"
  rq_random :: "byte list"
  rq_handshake_answers :: send_answers
  rq_answers :: send_answers
  rq_dialled :: "connection result"
  rq_now :: "u64 option"

definition one_shot_request ::
  "wire \<Rightarrow> crypto \<Rightarrow> request_io \<Rightarrow> network_message \<Rightarrow> network_message result" where
  "one_shot_request wr cr rq request =
     (let p2p_identity = wallet_new cr (rq_identity_key rq) in
      send_authenticated_request wr cr (rq_clock rq) (rq_random rq) (rq_handshake_answers rq)
        (rq_answers rq) p2p_identity ONE_SHOT_CLIENT_LISTEN_ADDRESS (rq_dialled rq) request)"

definition query_account_state_from_node ::
  "wire \<Rightarrow> crypto \<Rightarrow> request_io \<Rightarrow> string \<Rightarrow> (string \<times> u64 \<times> u64 \<times> u64 \<times> string) result" where
  "query_account_state_from_node wr cr rq address =
     (if \<not> is_fixed_hex address ADDRESS_HEX_LENGTH
      then Inl (Submission_error Account_address_invalid)
      else and_then (one_shot_request wr cr rq (Account_state_request address)) (\<lambda>response.
        if \<not> validate_account_state_response cr (wire_size wr) (rq_now rq) response address
        then Inl (Submission_error Account_response_invalid)
        else case response of
               Account_state_response address balance nonce tip_index tip_hash \<Rightarrow>
                 Inr (address, balance, nonce, tip_index, tip_hash)
             | _ \<Rightarrow> Inl (Submission_error Account_response_unexpected)))"

text \<open>Handing over a transaction and reading the acknowledgement.\<close>

definition submit_prepared ::
  "wire \<Rightarrow> crypto \<Rightarrow> request_io \<Rightarrow> transaction \<Rightarrow> transaction result" where
  "submit_prepared wr cr rq tx =
     and_then (one_shot_request wr cr rq (Transaction_message tx)) (\<lambda>response.
       if \<not> validate_transaction_ack cr (wire_size wr) (rq_now rq) response (tx_id tx)
       then Inl (Submission_error Ack_not_matching)
       else case response of
              Transaction_ack _ True None \<Rightarrow> Inr tx
            | Transaction_ack _ False (Some reason) \<Rightarrow> Inl (Submission_error (Rejected_by_node reason))
            | _ \<Rightarrow> Inl (Submission_error Ack_invalid))"

definition submit_from_user_wallet ::
  "wire \<Rightarrow> crypto \<Rightarrow> vault \<Rightarrow> user_wallet_json \<Rightarrow> key_io \<Rightarrow> request_io \<Rightarrow> request_io \<Rightarrow> file_system \<Rightarrow>
   string \<Rightarrow> string \<Rightarrow> string \<Rightarrow> u64 \<Rightarrow> transaction result" where
  "submit_from_user_wallet wr cr va uj kio rq rq' fs dir wallet_password recipient amount_micro_kbn =
     and_then (user_wallet_load cr va uj kio fs dir wallet_password) (\<lambda>loaded.
     and_then (ok_or loaded (Submission_error User_wallet_not_found)) (\<lambda>w.
     and_then (query_account_state_from_node wr cr rq (w_address w))
       (\<lambda>(_, balance, nonce, _, _).
     and_then (canonical_bootstrap cr) (\<lambda>bootstrap.
     and_then (prepare_signed_transaction_from_values cr w recipient amount_micro_kbn balance nonce
                 (bc_economy (cb_blockchain bootstrap))) (\<lambda>tx.
       submit_prepared wr cr rq' tx)))))"

definition submit_from_active_validator ::
  "wire \<Rightarrow> platform \<Rightarrow> vault \<Rightarrow> validator_json \<Rightarrow> key_io \<Rightarrow> io_read \<Rightarrow> (nat \<Rightarrow> effects) \<Rightarrow> request_io \<Rightarrow>
   file_system \<Rightarrow> string \<Rightarrow> string \<Rightarrow> string \<Rightarrow> u64 \<Rightarrow> transaction result" where
  "submit_from_active_validator wr pf va vj kio rio ticks rq fs dir validator_password recipient
       amount_micro_kbn =
     and_then (prepare_from_active_validator pf va vj kio rio ticks fs dir validator_password recipient
                 amount_micro_kbn) (\<lambda>tx.
       submit_prepared wr (pf_crypto pf) rq tx)"

section \<open>What is prepared is admitted\<close>

lemma prepare_Inr:
  assumes cr: "crypto_spec cr" and w: "wallet_wf cr signer"
  shows "prepare_signed_transaction_from_values cr signer recipient amount balance nonce e = Inr tx \<longleftrightarrow>
    is_fixed_hex recipient ADDRESS_HEX_LENGTH \<and> amount \<noteq> 0 \<and>
    unat amount + unat (calculate_fee e amount) \<le> unat balance \<and>
    tx = signed_transfer cr signer recipient amount (calculate_fee e amount) nonce"
proof -
  let ?tx = "transaction_new cr (w_address signer) (public_key_hex cr signer) recipient amount
    (calculate_fee e amount) nonce"
  let ?signed = "tx_sign ?tx (wallet_sign cr signer (tx_message ?tx))"
  have same: "?signed = signed_transfer cr signer recipient amount (calculate_fee e amount) nonce"
    by (simp add: signed_transfer_def Let_def)
  have message: "tx_message ?signed = tx_message ?tx"
    by (simp add: tx_sign_def tx_message_def Let_def)
  have key: "tx_public_key ?signed = public_key_hex cr signer" "tx_from ?signed = w_address signer"
    "tx_signature ?signed = Some (wallet_sign cr signer (tx_message ?tx))"
    by (simp_all add: tx_sign_def)
  have id: "tx_id ?signed = calculate_id cr ?signed"
    unfolding same by simp
  have bound: "unat balance < 2 ^ 64"
    by (rule order_less_le_trans[OF unsigned_less]) simp
  have cost: "(\<exists>c. checked_add amount (calculate_fee e amount) = Some c \<and> \<not> balance < c) \<longleftrightarrow>
      unat amount + unat (calculate_fee e amount) \<le> unat balance"
    using bound by (auto simp: checked_add_def unat_add_fits word_less_nat_alt not_less)
  show ?thesis
    unfolding prepare_signed_transaction_from_values_def Let_def key message
    using wallet_address_derived[OF cr w] wallet_signature_verifies[OF cr w] id cost
    by (auto simp: result_simps same simp del: signed_transfer_sel)
qed

text \<open>
  A node that reports the state of the sender, and whose mempool holds nothing of the sender,
  admits the transaction.
\<close>

lemma prepared_is_admitted:
  assumes cr: "crypto_spec cr" and w: "wallet_wf cr signer"
    and prepared: "prepare_signed_transaction cr signer recipient amount st e = Inr tx"
    and free: "\<And>t. t \<in> set (mp_transactions mp) \<Longrightarrow> tx_from t \<noteq> w_address signer"
  shows "validate_transaction_for_mempool cr tx st e mp = Inr ()"
proof -
  let ?fee = "calculate_fee e amount" and ?n = "nonce_of st (w_address signer)"
  have ok: "is_fixed_hex recipient ADDRESS_HEX_LENGTH" "amount \<noteq> 0"
    "unat amount + unat ?fee \<le> unat (balance_of st (w_address signer))"
    and tx: "tx = signed_transfer cr signer recipient amount ?fee ?n"
    using prepared unfolding prepare_signed_transaction_def Let_def prepare_Inr[OF cr w] by blast+
  have none: "filter (\<lambda>t. tx_from t = w_address signer) (mp_transactions mp) = []"
    using free by (simp add: filter_empty_conv)
  have "pending_nonces mp (w_address signer) = {}"
    using free by (auto simp: pending_nonces_def)
  then have "next_nonce mp (w_address signer) ?n = Inr ?n"
    by (auto simp: next_nonce_Inr_iff)
  then show ?thesis
    unfolding validate_for_mempool_iff
    using signed_transfer_authentic[OF cr w ok(1,2)] ok(3) none
    by (simp add: tx validate_fee_def cost_sum_def)
qed

text \<open>
  While one transaction of the sender waits, the state still shows its nonce, so the next one
  that is prepared with that nonce is refused.
\<close>

lemma second_prepared_is_refused:
  assumes cr: "crypto_spec cr" and w: "wallet_wf cr signer"
    and prepared: "prepare_signed_transaction_from_values cr signer recipient amount balance
      (nonce_of st (w_address signer)) e' = Inr tx"
    and waiting: "t \<in> set (mp_transactions mp)" "tx_from t = w_address signer"
      "tx_nonce t = nonce_of st (w_address signer)"
  shows "validate_transaction_for_mempool cr tx st e mp \<noteq> Inr ()"
proof -
  have tx: "tx_from tx = w_address signer" "tx_nonce tx = nonce_of st (w_address signer)"
    using prepared unfolding prepare_Inr[OF cr w] by auto
  have "tx_nonce tx \<in> pending_nonces mp (w_address signer)"
    using waiting tx by (force simp: pending_nonces_def)
  then show ?thesis
    by (simp add: validate_for_mempool_iff next_nonce_Inr_iff tx)
qed

section \<open>The answers of the node\<close>

lemma calculate_id_hex_length: "crypto_spec cr \<Longrightarrow> is_fixed_hex (calculate_id cr tx) HASH_HEX_LENGTH"
  using calculate_id_fixed_hex by (simp add: crypto_spec_def)

lemma prepared_is_acknowledged:
  assumes cr: "crypto_spec (pf_crypto pf)" and w: "wallet_wf (pf_crypto pf) signer"
    and prepared: "prepare_signed_transaction (pf_crypto pf) signer recipient amount
      (nd_state (rt_node rt)) (bc_economy (nd_blockchain (rt_node rt))) = Inr tx"
    and free: "\<And>t. t \<in> set (mp_transactions (nd_mempool (rt_node rt))) \<Longrightarrow>
      tx_from t \<noteq> w_address signer \<and> tx_id t \<noteq> tx_id tx"
    and room: "length (mp_transactions (nd_mempool (rt_node rt))) < MAX_MEMPOOL_TRANSACTIONS"
    and wf: "node_wf (pf_crypto pf) (rt_node rt)"
  shows "\<exists>more. snd (snd (process_message pf re fs rt (Transaction_message tx) True)) =
    Inr (Reply (Transaction_ack (tx_id tx) True None) # Broadcast (Transaction_message tx) # more)"
proof -
  let ?mp = "nd_mempool (rt_node rt)"
  have admitted: "validate_transaction_for_mempool (pf_crypto pf) tx (nd_state (rt_node rt))
      (bc_economy (nd_blockchain (rt_node rt))) ?mp = Inr ()"
    using prepared_is_admitted[OF cr w prepared] free by blast
  have sender: "tx_from tx = w_address signer" and id: "tx_id tx = calculate_id (pf_crypto pf) tx"
    using prepared unfolding prepare_signed_transaction_def Let_def prepare_Inr[OF cr w] by auto
  have "mempool_add (pf_crypto pf) ?mp tx = (?mp\<lparr>mp_transactions := mp_transactions ?mp @ [tx]\<rparr>, True)"
  proof -
    have "tx_id tx \<notin> tx_id ` set (mp_transactions ?mp)"
      using free by (metis imageE)
    moreover have "(tx_from tx, tx_nonce tx) \<notin> (\<lambda>tx. (tx_from tx, tx_nonce tx)) ` set (mp_transactions ?mp)"
      using sender by (auto dest!: free)
    ultimately show ?thesis
      using admitted room by (simp add: mempool_add_iff validate_for_mempool_iff)
  qed
  with admitted have insert: "insert_transaction_into_mempool pf (rt_node rt) tx =
      ((rt_node rt)\<lparr>nd_mempool := ?mp\<lparr>mp_transactions := mp_transactions ?mp @ [tx]\<rparr>\<rparr>, Inr ())"
    by (simp add: insert_transaction_into_mempool_def)
  moreover have "is_fixed_hex (tx_id tx) HASH_HEX_LENGTH"
    unfolding id by (rule calculate_id_hex_length[OF cr])
  ultimately have "process_message pf re fs rt (Transaction_message tx) True =
      append_pending_block_action pf re fs (rt\<lparr>rt_node := (rt_node rt)\<lparr>nd_mempool :=
          ?mp\<lparr>mp_transactions := mp_transactions ?mp @ [tx]\<rparr>\<rparr>\<rparr>)
        [Reply (Transaction_ack (tx_id tx) True None), Broadcast (Transaction_message tx)]"
    by (simp add: process_message_def process_transaction_def receive_transaction_with_result_def)
  then show ?thesis
    using append_pending_returns[of pf "rt\<lparr>rt_node := (rt_node rt)\<lparr>nd_mempool :=
          ?mp\<lparr>mp_transactions := mp_transactions ?mp @ [tx]\<rparr>\<rparr>\<rparr>" re fs
        "[Reply (Transaction_ack (tx_id tx) True None), Broadcast (Transaction_message tx)]"]
      insert_transaction_wf[OF wf, of tx] insert by auto
qed

text \<open>What a node reports of an account are the balance and the nonce of its account state.\<close>

lemma account_request_answered:
  assumes "process_message pf re fs rt (Account_state_request address) one_shot =
      (fs', rt', Inr [Reply (Account_state_response a balance nonce tip_index tip_hash)])"
  shows "a = address" "balance = balance_of (nd_state (rt_node rt)) address"
    "nonce = nonce_of (nd_state (rt_node rt)) address"
  using assms by (auto simp: process_message_def account_state_response_def result_simps Let_def split: if_splits)

lemma second_prepared_is_turned_down:
  assumes cr: "crypto_spec (pf_crypto pf)" and w: "wallet_wf (pf_crypto pf) signer"
    and reported: "process_message pf re0 fs0 rt (Account_state_request (w_address signer)) True =
      (fs0, rt, Inr [Reply (Account_state_response a balance nonce tip_index tip_hash)])"
    and prepared: "prepare_signed_transaction_from_values (pf_crypto pf) signer recipient amount
      balance nonce e' = Inr tx"
    and waiting: "t \<in> set (mp_transactions (nd_mempool (rt_node rt)))" "tx_from t = w_address signer"
      "tx_nonce t = nonce_of (nd_state (rt_node rt)) (w_address signer)"
  shows "process_message pf re fs rt (Transaction_message tx) True =
    (fs, rt, Inr [Reply (Transaction_ack (tx_id tx) False (Some REJECTION_REASON))])"
proof -
  have id: "tx_id tx = calculate_id (pf_crypto pf) tx"
    using prepared unfolding prepare_Inr[OF cr w] by auto
  note same_nonce = prepared[unfolded account_request_answered(3)[OF reported]]
  obtain e where "validate_transaction_for_mempool (pf_crypto pf) tx (nd_state (rt_node rt))
      (bc_economy (nd_blockchain (rt_node rt))) (nd_mempool (rt_node rt)) = Inl e"
    using second_prepared_is_refused[OF cr w same_nonce waiting]
    by (cases "validate_transaction_for_mempool (pf_crypto pf) tx (nd_state (rt_node rt))
      (bc_economy (nd_blockchain (rt_node rt))) (nd_mempool (rt_node rt))") auto
  then have "receive_transaction_with_result pf (rt_node rt) tx = (rt_node rt, Inl e)"
    by (simp add: receive_transaction_with_result_def insert_transaction_into_mempool_def)
  moreover have "is_fixed_hex (tx_id tx) HASH_HEX_LENGTH"
    unfolding id by (rule calculate_id_hex_length[OF cr])
  moreover have "\<not> is_panic e"
    using insert_transaction_returns[of pf "rt_node rt" tx] calculation(1)
    by (simp add: receive_transaction_with_result_def)
  ultimately show ?thesis
    by (simp add: process_message_def process_transaction_def)
qed

section \<open>The replayed state is the state of the node\<close>

lemma load_replayed_state_node:
  assumes cr: "crypto_spec (pf_crypto pf)" and cb: "canonical_bootstrap (pf_crypto pf) = Inr cb"
    and wf: "node_wf (pf_crypto pf) nd"
    and same: "nd_consensus nd = cb_consensus cb" "nd_genesis_state nd = cb_state cb"
      "nd_genesis_economy nd = bc_economy (cb_blockchain cb)"
    and chain: "bc_chain (nd_blockchain nd) = bc_chain (cb_blockchain cb) @ later"
    and clock: "clock_allows (\<lambda>i. ef_clock (ticks i) 0) 0 later"
    and stored: "load_blockchain_from (pf_json pf) rio fs dir = Inr (Some (bc_chain (nd_blockchain nd)))"
  shows "load_replayed_state pf rio ticks fs dir = Inr (nd_state nd, bc_economy (nd_blockchain nd))"
proof -
  let ?nd0 = "node_new_with_data_directory (cb_blockchain cb) (cb_state cb) (cb_consensus cb) []"
  have sha: "sha256_spec (pf_crypto pf)"
    using cr by (simp add: crypto_spec_def)
  have wf0: "node_wf (pf_crypto pf) ?nd0" and valid: "is_valid (pf_crypto pf) (cb_blockchain cb)"
    using canonical_node_wf(1,2)[OF sha cb] by (simp_all add: node_new_with_data_directory_def)
  have ne: "bc_chain (cb_blockchain cb) \<noteq> []"
    using node_wf_chain[OF wf0] by (simp add: node_new_with_data_directory_def)
  have one: "tl (bc_chain (cb_blockchain cb)) = []"
    using cb by (auto simp: canonical_bootstrap_def elim: build_bootstrap_Inr)
  then have later: "tl (bc_chain (nd_blockchain nd)) = later" "hd (bc_chain (nd_blockchain nd)) = hd (bc_chain (cb_blockchain cb))"
    using ne by (simp_all add: chain)
  obtain candidate j where
    "apply_blocks pf ticks (sync_candidate_snapshot ?nd0, 0) later = Inr (candidate, j)"
    "nd_blockchain candidate = nd_blockchain nd" "nd_state candidate = nd_state nd"
    by (rule peer_blocks_apply[OF wf0 wf _ _ _ _ clock])
      (simp_all add: same chain node_new_with_data_directory_def)
  moreover have "sync_candidate_snapshot ?nd0 = ?nd0"
    by (simp add: sync_candidate_snapshot_def node_new_with_data_directory_def)
  ultimately show ?thesis
    using ne valid_genesis(3)[OF valid ne]
    by (simp add: load_replayed_state_def stored cb one chain Let_def)
qed

end
