(* ===== verification/Wallet_File.thy ===== *)
theory Wallet_File
  imports Vault
begin

text \<open>
  The other half of \<open>src/storage.rs\<close>: the file with the two wallet keys of the demonstration
  program. It is sealed with the default parameters of \<open>argon2\<close> and no associated data, and
  replaces the file before it; a plain file of an older version is read once and sealed. The
  lemmas show that saved keys are loaded, that an old file is migrated, and that a failed
  save leaves the file as it was.
\<close>

definition WALLETS_FILE_NAME :: string where "WALLETS_FILE_NAME = ''wallets.json''"
definition WALLETS_TEMP_FILE_NAME :: string where "WALLETS_TEMP_FILE_NAME = ''wallets.tmp''"

record stored_wallets =
  sw_alice_private_key :: string
  sw_bob_private_key :: string

record encrypted_stored_wallets =
  es_version :: u32
  es_kdf :: string
  es_cipher :: string
  es_salt_hex :: string
  es_nonce_hex :: string
  es_ciphertext_hex :: string

text \<open>
  The crates: \<open>Argon2::default().hash_password_into\<close>, the cipher without associated data, and
  \<open>serde_json\<close>. An envelope is not a plain file: their required fields differ.
\<close>

record wallet_vault =
  wv_argon2 :: "byte list \<Rightarrow> byte list \<Rightarrow> byte list option"
  wv_encrypt :: "byte list \<Rightarrow> byte list \<Rightarrow> byte list \<Rightarrow> byte list option"
  wv_decrypt :: "byte list \<Rightarrow> byte list \<Rightarrow> byte list \<Rightarrow> byte list option"
  wv_wallets_to_vec :: "stored_wallets \<Rightarrow> byte list option"
  wv_wallets_from_slice :: "byte list \<Rightarrow> stored_wallets option"
  wv_envelope_to_vec_pretty :: "encrypted_stored_wallets \<Rightarrow> byte list option"
  wv_envelope_from_slice :: "byte list \<Rightarrow> encrypted_stored_wallets option"

definition wallet_vault_spec :: "wallet_vault \<Rightarrow> bool" where
  "wallet_vault_spec wv \<longleftrightarrow>
     (\<forall>key nonce m c. wv_encrypt wv key nonce m = Some c \<longrightarrow> wv_decrypt wv key nonce c = Some m) \<and>
     (\<forall>w bs. wv_wallets_to_vec wv w = Some bs \<longrightarrow> wv_wallets_from_slice wv bs = Some w) \<and>
     (\<forall>e bs. wv_envelope_to_vec_pretty wv e = Some bs \<longrightarrow>
        bs \<noteq> [] \<and> wv_envelope_from_slice wv bs = Some e)"

abbreviation wallets_error :: "keystore_error \<Rightarrow> error" where
  "wallets_error \<equiv> Keystore_error Stored_wallets_file"

definition wallets_path :: "string \<Rightarrow> path" where
  "wallets_path dir = (dir, WALLETS_FILE_NAME)"

definition unique_wallet_temp_path :: "crypto \<Rightarrow> key_io \<Rightarrow> string \<Rightarrow> path" where
  "unique_wallet_temp_path cr io dir =
     (dir, ''.'' @ WALLETS_TEMP_FILE_NAME @ ''-'' @ hex_encode cr (ki_temp_name io))"

definition derive_wallet_key :: "wallet_vault \<Rightarrow> string \<Rightarrow> byte list \<Rightarrow> byte list result" where
  "derive_wallet_key wv password salt =
     (if length password < 12 then Inl (wallets_error Password_too_short)
      else ok_or (wv_argon2 wv (as_bytes password) salt) (wallets_error Kdf_failed))"

definition seal_wallets ::
  "crypto \<Rightarrow> wallet_vault \<Rightarrow> key_io \<Rightarrow> string \<Rightarrow> stored_wallets \<Rightarrow> byte list result" where
  "seal_wallets cr wv io password wallets =
     and_then (ok_or (wv_wallets_to_vec wv wallets) (wallets_error Payload_not_created)) (\<lambda>plaintext.
       let salt = take 16 (ki_salt_material io) in
       and_then (derive_wallet_key wv password salt) (\<lambda>key.
         if length key \<noteq> 32 then Inl (wallets_error Encryption_key_invalid)
         else let nonce = ki_nonce io in
           and_then (ok_or (wv_encrypt wv key nonce plaintext) (wallets_error Key_not_encrypted))
             (\<lambda>ciphertext.
               let encrypted_wallets = \<lparr>
                 es_version = 1,
                 es_kdf = ''argon2id'',
                 es_cipher = ''chacha20poly1305'',
                 es_salt_hex = hex_encode cr salt,
                 es_nonce_hex = hex_encode cr nonce,
                 es_ciphertext_hex = hex_encode cr ciphertext\<rparr>
               in ok_or (wv_envelope_to_vec_pretty wv encrypted_wallets)
                    (wallets_error Envelope_not_created))))"

definition open_wallets ::
  "crypto \<Rightarrow> wallet_vault \<Rightarrow> string \<Rightarrow> encrypted_stored_wallets \<Rightarrow> stored_wallets result" where
  "open_wallets cr wv password encrypted_wallets =
     (if es_version encrypted_wallets \<noteq> 1 then Inl (wallets_error Version_not_supported)
      else if es_kdf encrypted_wallets \<noteq> ''argon2id'' \<or> es_cipher encrypted_wallets \<noteq> ''chacha20poly1305''
      then Inl (wallets_error Encryption_not_supported)
      else and_then (ok_or (hex_decode cr (es_salt_hex encrypted_wallets))
                       (wallets_error Salt_format_invalid)) (\<lambda>salt.
        if length salt \<noteq> 16 then Inl (wallets_error Salt_length_invalid)
        else and_then (ok_or (hex_decode cr (es_nonce_hex encrypted_wallets))
                         (wallets_error Nonce_format_invalid)) (\<lambda>nonce.
          if length nonce \<noteq> 12 then Inl (wallets_error Nonce_length_invalid)
          else and_then (ok_or (hex_decode cr (es_ciphertext_hex encrypted_wallets))
                           (wallets_error Ciphertext_format_invalid)) (\<lambda>ciphertext.
               and_then (derive_wallet_key wv password salt) (\<lambda>key.
                 if length key \<noteq> 32 then Inl (wallets_error Decryption_key_invalid)
                 else and_then (ok_or (wv_decrypt wv key nonce ciphertext)
                                  (wallets_error Password_or_file_wrong)) (\<lambda>plaintext.
                   ok_or (wv_wallets_from_slice wv plaintext) (wallets_error Payload_invalid)))))))"

text \<open>Unlike the private files, a temporary file that could not be written is not removed.\<close>

definition save_wallet_private_keys ::
  "crypto \<Rightarrow> wallet_vault \<Rightarrow> key_io \<Rightarrow> io \<Rightarrow> file_system \<Rightarrow> string \<Rightarrow> string \<Rightarrow> string \<Rightarrow> string \<Rightarrow>
   file_system \<times> unit result" where
  "save_wallet_private_keys cr wv io rename_io fs dir password alice_private_key bob_private_key =
     (if \<not> ki_create_dir io then (fs, Inl (wallets_error Keystore_directory_not_created))
      else case seal_wallets cr wv io password
                  \<lparr>sw_alice_private_key = alice_private_key, sw_bob_private_key = bob_private_key\<rparr> of
             Inl e \<Rightarrow> (fs, Inl e)
           | Inr serialized \<Rightarrow>
               let temp = unique_wallet_temp_path cr io dir; final_path = wallets_path dir in
               (case write_private_file Stored_wallets_file io fs temp serialized of
                  (fs, Inl e) \<Rightarrow> (fs, Inl e)
                | (fs, Inr _) \<Rightarrow>
                    (case replace_file rename_io fs temp final_path of
                       (fs, Inl _) \<Rightarrow> (fs, Inl (wallets_error Keystore_not_published))
                     | (fs, Inr _) \<Rightarrow> (fs, Inr ()))))"

definition load_wallet_private_keys ::
  "crypto \<Rightarrow> wallet_vault \<Rightarrow> key_io \<Rightarrow> io \<Rightarrow> file_system \<Rightarrow> string \<Rightarrow> string \<Rightarrow>
   file_system \<times> (string \<times> string) option result" where
  "load_wallet_private_keys cr wv io rename_io fs dir password =
     (case (if ki_metadata io then fmlookup fs (wallets_path dir) else None) of
        None \<Rightarrow> (fs, Inr None)
      | Some bytes \<Rightarrow>
          if \<not> ki_open io then (fs, Inl (wallets_error Keystore_not_opened))
          else if \<not> ki_read io then (fs, Inl (wallets_error Keystore_not_read))
          else if bytes = [] then (fs, Inl (wallets_error Keystore_empty))
          else (case wv_envelope_from_slice wv bytes of
                  Some encrypted_wallets \<Rightarrow>
                    (fs, and_then (open_wallets cr wv password encrypted_wallets) (\<lambda>wallets.
                           Inr (Some (sw_alice_private_key wallets, sw_bob_private_key wallets))))
                | None \<Rightarrow>
                    (case wv_wallets_from_slice wv bytes of
                       None \<Rightarrow> (fs, Inl (wallets_error Envelope_invalid))
                     | Some legacy_wallets \<Rightarrow>
                         (case save_wallet_private_keys cr wv io rename_io fs dir password
                                 (sw_alice_private_key legacy_wallets) (sw_bob_private_key legacy_wallets) of
                            (fs, Inl e) \<Rightarrow> (fs, Inl e)
                          | (fs, Inr _) \<Rightarrow>
                              (fs, Inr (Some (sw_alice_private_key legacy_wallets,
                                              sw_bob_private_key legacy_wallets)))))))"

section \<open>Saved keys are loaded\<close>

interpretation wallets: sealed_box
  "\<lambda>(cr, wv) io password m. seal_wallets cr wv io password m"
  "\<lambda>(cr, wv) password c. and_then (ok_or (wv_envelope_from_slice wv c) (wallets_error Envelope_invalid))
     (open_wallets cr wv password)"
  "\<lambda>(cr, wv). hex_spec cr \<and> wallet_vault_spec wv" generated_lengths
  by unfold_locales
    (auto simp: seal_wallets_def open_wallets_def Let_def result_simps hex_spec_def wallet_vault_spec_def
      generated_lengths_def split: prod.splits if_splits)

lemma wallet_temp_path_differs: "unique_wallet_temp_path cr io dir \<noteq> wallets_path dir'"
  by (simp add: unique_wallet_temp_path_def wallets_path_def WALLETS_FILE_NAME_def)

lemma save_wallets_Inr:
  assumes "save_wallet_private_keys cr wv io rename_io fs dir password a b = (fs', Inr u)"
  obtains bytes where "fmlookup fs' (wallets_path dir) = Some bytes"
    "seal_wallets cr wv io password \<lparr>sw_alice_private_key = a, sw_bob_private_key = b\<rparr> = Inr bytes"
  using assms that wallet_temp_path_differs[of cr io dir dir]
  by (auto simp: save_wallet_private_keys_def write_private_file_def replace_file_def Let_def
      split: sum.splits prod.splits option.splits if_splits)

lemma save_wallets_error:
  assumes "save_wallet_private_keys cr wv io rename_io fs dir password a b = (fs', Inl e)"
  shows "fmlookup fs' (wallets_path dir) = fmlookup fs (wallets_path dir)"
  using assms wallet_temp_path_differs[of cr io dir dir]
  by (auto simp: save_wallet_private_keys_def write_private_file_def replace_file_def Let_def
      split: sum.splits prod.splits option.splits if_splits)

lemma save_load_wallets:
  assumes spec: "hex_spec cr" "wallet_vault_spec wv" "generated_lengths io"
    and save: "save_wallet_private_keys cr wv io rename_io fs dir password a b = (fs', Inr u)"
    and io': "readable io'"
  shows "load_wallet_private_keys cr wv io' rename_io' fs' dir password = (fs', Inr (Some (a, b)))"
proof -
  obtain bytes where bytes: "fmlookup fs' (wallets_path dir) = Some bytes"
    "seal_wallets cr wv io password \<lparr>sw_alice_private_key = a, sw_bob_private_key = b\<rparr> = Inr bytes"
    using save by (rule save_wallets_Inr)
  have "and_then (ok_or (wv_envelope_from_slice wv bytes) (wallets_error Envelope_invalid))
      (open_wallets cr wv password) = Inr \<lparr>sw_alice_private_key = a, sw_bob_private_key = b\<rparr>"
    using wallets.unseal_seal[of "(cr, wv)" io password] spec bytes(2) by simp
  moreover have "bytes \<noteq> []"
    using bytes(2) spec(2)
    by (auto simp: seal_wallets_def Let_def result_simps wallet_vault_spec_def split: if_splits)
  ultimately show ?thesis
    using bytes(1) io'
    by (auto simp: load_wallet_private_keys_def readable_def result_simps split: option.splits)
qed

text \<open>A plain file: once loaded, it is sealed, and later loads need the password.\<close>

lemma legacy_migrates:
  assumes spec: "hex_spec cr" "wallet_vault_spec wv" "generated_lengths io"
    and legacy: "fmlookup fs (wallets_path dir) = Some bytes" "wv_envelope_from_slice wv bytes = None"
    and load: "load_wallet_private_keys cr wv io rename_io fs dir password = (fs', Inr (Some (a, b)))"
    and io': "readable io'"
  shows "wv_wallets_from_slice wv bytes = Some \<lparr>sw_alice_private_key = a, sw_bob_private_key = b\<rparr>"
    and "load_wallet_private_keys cr wv io' rename_io' fs' dir password = (fs', Inr (Some (a, b)))"
proof -
  obtain wallets u where found: "wv_wallets_from_slice wv bytes = Some wallets"
    and a: "a = sw_alice_private_key wallets" and b: "b = sw_bob_private_key wallets"
    and save: "save_wallet_private_keys cr wv io rename_io fs dir password a b = (fs', Inr u)"
    using load legacy by (auto simp: load_wallet_private_keys_def
        split: option.splits sum.splits prod.splits if_splits)
  show "wv_wallets_from_slice wv bytes = Some \<lparr>sw_alice_private_key = a, sw_bob_private_key = b\<rparr>"
    using found by (simp add: a b)
  show "load_wallet_private_keys cr wv io' rename_io' fs' dir password = (fs', Inr (Some (a, b)))"
    by (rule save_load_wallets[OF spec save io'])
qed

end
