(* ===== verification/Scenarios.thy ===== *)
theory Scenarios
  imports Examples Submission Wallet_File
begin

text \<open>
  The concrete network of \<open>Examples\<close> in the situations of the runtime: a session between two
  nodes, a node that catches up with a peer, keystores on a disk, a wallet that submits
  transactions. Each shows that the hypotheses of a theorem can be met together.
\<close>

section \<open>A session\<close>

definition table_wire :: "network_message list \<Rightarrow> wire" where
  "table_wire known = \<lparr>wr_to_vec = table_encode known, wr_from_slice = table_decode known\<rparr>"

lemma table_wire_spec: "wire_spec (table_wire known)"
  using table_decode_encode(3)[of known] by (simp add: wire_spec_def table_wire_def)

lemma table_wire_sendable:
  assumes "m \<in> set known" and "length known \<le> 1000"
  shows "sendable (table_wire known) m"
proof -
  obtain bs where "table_encode known m = Some bs"
    using table_encode_known[OF assms(1)] by blast
  with table_decode_encode[OF this] assms(2) show ?thesis
    by (auto simp: sendable_def table_wire_def MAX_NETWORK_MESSAGE_BYTES_def)
qed

definition demo_random :: "byte list" where
  "demo_random = replicate 32 7"

definition demo_handshake :: network_message where
  "demo_handshake = create_handshake toy_crypto (Some 1000) demo_random alice ''10.0.0.1:9000''"

definition demo_ack :: network_message where
  "demo_ack = create_handshake_ack toy_crypto (Some 1060) bob True (hex_encode toy_crypto demo_random)"

text \<open>The clocks of the two sides: the first reading and the second.\<close>

definition dialling_clock :: "nat \<Rightarrow> u64 option" where
  "dialling_clock i = (if i = 0 then Some 1000 else Some 1070)"

definition accepting_clock :: "nat \<Rightarrow> u64 option" where
  "accepting_clock i = Some 1060"

lemma demo_random_length [simp]: "length demo_random = 32"
  by (simp add: demo_random_def)

definition demo_wire :: wire where
  "demo_wire = table_wire [demo_handshake, demo_ack, Sync_request]"

lemma demo_wire: "wire_spec demo_wire" "sendable demo_wire demo_handshake" "sendable demo_wire demo_ack"
  "sendable demo_wire Sync_request"
  by (simp_all add: demo_wire_def table_wire_spec table_wire_sendable)

definition incoming :: "byte list \<Rightarrow> connection" where
  "incoming bs = \<lparr>cn_incoming = bs, cn_end = Closed, cn_outgoing = []\<rparr>"

lemma incoming_sel [simp]:
  "cn_incoming (incoming bs) = bs" "cn_end (incoming bs) = Closed" "cn_outgoing (incoming bs) = []"
  by (simp_all add: incoming_def)

section \<open>Catching up\<close>

definition demo_later :: "block list" where
  "demo_later = [demo_genesis, demo_block]"

definition sync_wire :: wire where
  "sync_wire = table_wire [demo_handshake, demo_ack, honest_answer demo_later 0, honest_answer demo_later 1,
     Chain_chunk_request (word_of_nat 0), Chain_chunk_request (word_of_nat 1)]"

lemma sync_wire: "wire_spec sync_wire" "sendable sync_wire demo_handshake" "sendable sync_wire demo_ack"
  "sendable sync_wire (honest_answer demo_later 0)" "sendable sync_wire (honest_answer demo_later 1)"
  "sendable sync_wire (Chain_chunk_request (word_of_nat 0))"
  "sendable sync_wire (Chain_chunk_request (word_of_nat 1))"
  unfolding sync_wire_def by (rule table_wire_spec table_wire_sendable; simp)+

lemma demo_servable: "servable sync_wire demo_later"
proof -
  have "sendable sync_wire (honest_answer demo_later i) \<and> sendable sync_wire (Chain_chunk_request (word_of_nat i))"
    if "i < length demo_later" for i
  proof (cases i)
    case 0
    show ?thesis unfolding 0 using sync_wire(4,6) by blast
  next
    case (Suc j)
    then have i: "i = 1"
      using that by (simp add: demo_later_def)
    show ?thesis unfolding i using sync_wire(5,7) by blast
  qed
  moreover have "well_indexed demo_later"
    using valid_well_indexed[OF demo_blockchain_valid] by (simp add: demo_chain demo_later_def)
  moreover have "length demo_later < 2 ^ 64"
    by (simp add: demo_later_def)
  ultimately show ?thesis
    unfolding servable_def by blast
qed

lemma demo_sync_requests: "sync_requests 2 1 = [0]"
  by (simp add: sync_requests_def chunk_starts.simps MAX_SYNC_BLOCKS_PER_MESSAGE_def)

definition demo_dialled :: connection where
  "demo_dialled = incoming (frame_of sync_wire demo_ack @ answers_for sync_wire demo_later [0])"

definition demo_sync :: sync_io where
  "demo_sync = \<lparr>sy_clock = dialling_clock, sy_random = demo_random, sy_dialled = Inr demo_dialled,
     sy_handshake_answers = all_written, sy_answers = (\<lambda>_. all_written), sy_ticks = (\<lambda>_. demo_effects),
     sy_effects = demo_effects, sy_others = (\<lambda>_ s. s)\<rparr>"

lemma demo_sync_sel [simp]:
  "sy_clock demo_sync = dialling_clock" "sy_random demo_sync = demo_random" "sy_dialled demo_sync = Inr demo_dialled"
  "sy_handshake_answers demo_sync = all_written" "sy_answers demo_sync k = all_written"
  "sy_ticks demo_sync k = demo_effects" "sy_effects demo_sync = demo_effects" "sy_others demo_sync k s = s"
  by (simp_all add: demo_sync_def)

lemma demo_connected:
  "connect_authenticated sync_wire toy_crypto dialling_clock demo_random all_written alice ''10.0.0.1:9000''
     (Inr demo_dialled) =
   Inr (demo_dialled\<lparr>cn_incoming := answers_for sync_wire demo_later [0],
     cn_outgoing := frame_of sync_wire demo_handshake\<rparr>)"
  using connect_fresh[OF sync_wire(1) toy_crypto_ok bob_wf _ _ _ _ _ demo_handshake_def sync_wire(2)
      demo_ack_def sync_wire(3), of dialling_clock 1070 demo_dialled]
  by (simp add: dialling_clock_def demo_dialled_def)

definition demo_runtime :: "node \<Rightarrow> runtime" where
  "demo_runtime nd = \<lparr>rt_node = nd, rt_validator_identity = None, rt_validator_keystore_locked = False,
     rt_data_directory = ''data'', rt_chain_sync_active = False\<rparr>"

definition demo_region :: region_effects where
  "demo_region = \<lparr>re_handler = demo_effects, re_produce = demo_effects, re_now = Some demo_time\<rparr>"

lemma demo_runtime_sel [simp]:
  "rt_node (demo_runtime nd) = nd" "rt_validator_identity (demo_runtime nd) = None"
  by (simp_all add: demo_runtime_def)


section \<open>A started node\<close>

text \<open>The canonical network under \<open>toy_crypto\<close>, on an empty disk and without a password.\<close>

definition toy_bootstrap :: bootstrap_outcome where
  "toy_bootstrap = projr (canonical_bootstrap toy_crypto)"

lemma toy_bootstrap: "canonical_bootstrap toy_crypto = Inr toy_bootstrap"
  using canonical_bootstrap_succeeds[of toy_crypto] by (auto simp: toy_bootstrap_def)

definition canonical_node :: node where
  "canonical_node = node_new_with_data_directory (cb_blockchain toy_bootstrap) (cb_state toy_bootstrap)
     (cb_consensus toy_bootstrap) ''data''"

lemma canonical_node_sel [simp]:
  "nd_blockchain canonical_node = cb_blockchain toy_bootstrap" "nd_state canonical_node = cb_state toy_bootstrap"
  "nd_consensus canonical_node = cb_consensus toy_bootstrap"
  "nd_genesis_state canonical_node = cb_state toy_bootstrap"
  "nd_genesis_economy canonical_node = bc_economy (cb_blockchain toy_bootstrap)"
  by (simp_all add: canonical_node_def node_new_with_data_directory_def)

lemma canonical_node_ok: "node_wf toy_crypto canonical_node"
  using canonical_node_wf(1)[OF _ toy_bootstrap] toy_sha256_spec by (simp add: canonical_node_def)

lemma canonical_node_chain: "bc_chain (cb_blockchain toy_bootstrap) \<noteq> []"
  using node_wf_chain[OF canonical_node_ok] by simp

lemma canonical_runtime_wf:
  "pf_crypto pf = toy_crypto \<Longrightarrow> runtime_wf pf (fs, demo_runtime canonical_node)"
  using toy_crypto_ok canonical_node_ok toy_bootstrap
  by (simp add: runtime_wf_def canonical_genesis_def)

lemma demo_initialized:
  "\<exists>fs'. initialize_at free_platform va vj kio rio demo_effects fmempty ''data'' None =
     (fs', Inr (demo_runtime canonical_node))"
  using free_platform_saves[OF canonical_node_chain, of canonical_node]
  by (auto simp: initialize_at_def toy_bootstrap validator_keystore_exists_def path_exists_def
      load_blockchain_from_def demo_runtime_def simp flip: canonical_node_def)

text \<open>Tasks that leave the others alone.\<close>

lemma alone_rely: "rely pf (\<lambda>n s. s)"
  by (simp add: rely_def tasks.refl)

section \<open>Submissions\<close>

lemma demo_calculate_fee: "calculate_fee demo_economy 1000 = 10" "calculate_fee demo_economy 2000 = 10"
  using demo_fee by (simp_all add: validate_fee_def)

lemma demo_prepared:
  "prepare_signed_transaction toy_crypto alice (w_address bob) 1000 demo_state demo_economy = Inr demo_tx"
  by (simp add: prepare_signed_transaction_def prepare_Inr[OF toy_crypto_ok alice_wf] demo_calculate_fee
      wallet_texts_fixed_hex[OF toy_crypto_ok bob_wf] demo_tx_def)

definition demo_second :: transaction where
  "demo_second = signed_transfer toy_crypto alice (w_address bob) 2000 10 0"

lemma demo_second_prepared:
  "prepare_signed_transaction_from_values toy_crypto alice (w_address bob) 2000
     (balance_of demo_state (w_address alice)) (nonce_of demo_state (w_address alice)) demo_economy = Inr demo_second"
  by (simp add: prepare_Inr[OF toy_crypto_ok alice_wf] demo_calculate_fee
      wallet_texts_fixed_hex[OF toy_crypto_ok bob_wf] demo_second_def)

lemma demo_first_sel [simp]:
  "nd_state demo_first = demo_state" "nd_blockchain demo_first = nd_blockchain demo_node"
  "mp_transactions (nd_mempool demo_first) = [demo_tx]"
  by (simp_all add: demo_first_def demo_first_pool_def)

lemma demo_first_reported:
  "process_message free_platform demo_region fmempty (demo_runtime demo_first) (Account_state_request (w_address alice)) True =
    (fmempty, demo_runtime demo_first, Inr [Reply (Account_state_response (w_address alice)
       (balance_of demo_state (w_address alice)) (nonce_of demo_state (w_address alice))
       (blk_index demo_genesis) (blk_hash demo_genesis))])"
  by (simp add: process_message_def account_state_response_def wallet_texts_fixed_hex[OF toy_crypto_ok alice_wf]
      Let_def)

section \<open>Too long an answer\<close>

text \<open>Every chunk takes one byte more than a message may have.\<close>

definition long_wire :: wire where
  "long_wire = \<lparr>wr_to_vec = (\<lambda>m. if is_chunk_response m then Some (replicate (Suc MAX_NETWORK_MESSAGE_BYTES) 0)
       else table_encode [Chain_chunk_request (word_of_nat 0)] m),
     wr_from_slice = table_decode [Chain_chunk_request (word_of_nat 0)]\<rparr>"

definition asking :: connection where
  "asking = incoming (to_be_bytes (word_of_nat (length [1 :: byte]) :: u32) @ [1] @ [])"

lemma long_wire_request: "read_message_or_eof long_wire asking =
    (incoming [], Inr (Some (Chain_chunk_request (word_of_nat 0))))"
  unfolding read_message_or_eof_Some
  by (rule exI[of _ "[1]"])
    (simp add: asking_def long_wire_def table_decode_def incoming_def MAX_NETWORK_MESSAGE_BYTES_def)

lemma long_wire_answer:
  "wr_to_vec long_wire (honest_answer chain i) = Some (replicate (Suc MAX_NETWORK_MESSAGE_BYTES) 0)"
  by (simp add: long_wire_def honest_answer_def is_chunk_response_def)


section \<open>Key files\<close>

text \<open>
  A key is 32 times the checksum of password and salt, a ciphertext the message behind the
  checksum of everything. The texts of envelopes and payloads come from a table.
\<close>

definition toy_vault :: "encrypted_keystore list \<Rightarrow> vault" where
  "toy_vault envelopes = \<lparr>
     va_params = (\<lambda>m t p n. True),
     va_argon2id = (\<lambda>m t p password salt. Some (replicate 32 (checksum (password @ salt)))),
     va_encrypt = (\<lambda>key nonce aad m. Some (checksum (key @ nonce @ aad @ m) # m)),
     va_decrypt = (\<lambda>key nonce aad c.
       case c of [] \<Rightarrow> None | tag # m \<Rightarrow> if tag = checksum (key @ nonce @ aad @ m) then Some m else None),
     va_to_vec_pretty = table_encode envelopes,
     va_from_slice = table_decode envelopes\<rparr>"

lemma toy_vault_spec: "vault_spec (toy_vault envelopes)"
  using table_decode_encode[of envelopes] by (auto simp: vault_spec_def toy_vault_def)

definition demo_key_io :: key_io where
  "demo_key_io = \<lparr>ki_metadata = True, ki_open = True, ki_file_metadata = True, ki_read = True,
     ki_create_dir = True, ki_create_new = True, ki_write_fails = None, ki_sync = True, ki_hard_link = True,
     ki_remove = True, ki_salt_material = replicate 32 1, ki_nonce = replicate 12 2,
     ki_temp_name = replicate 32 3, ki_signing_key = replicate 32 1\<rparr>"

lemma demo_key_io: "generated_lengths demo_key_io" "readable demo_key_io" "ki_metadata demo_key_io"
  "ki_create_dir demo_key_io" "wallet_new toy_crypto (ki_signing_key demo_key_io) = alice"
  by (simp_all add: generated_lengths_def readable_def demo_key_io_def alice_def)

definition demo_password :: string where
  "demo_password = ''correct horse battery''"

text \<open>The envelope of a message.\<close>

definition toy_envelope :: "byte list \<Rightarrow> byte list \<Rightarrow> encrypted_keystore" where
  "toy_envelope m aad = \<lparr>
     ek_version = 1, ek_kdf = ''argon2id'', ek_kdf_memory_kib = ARGON2_MEMORY_KIB,
     ek_kdf_iterations = ARGON2_ITERATIONS, ek_kdf_parallelism = ARGON2_PARALLELISM,
     ek_cipher = ''chacha20poly1305'', ek_salt_hex = hex_encode toy_crypto (replicate 16 1),
     ek_nonce_hex = hex_encode toy_crypto (replicate 12 2),
     ek_ciphertext_hex = hex_encode toy_crypto
       (checksum (replicate 32 (checksum (as_bytes demo_password @ replicate 16 1)) @ replicate 12 2 @ aad @ m) # m)\<rparr>"

lemma toy_encrypt:
  assumes "toy_envelope m aad \<in> set envelopes"
  shows "\<exists>bs. encrypt file toy_crypto (toy_vault envelopes) demo_key_io demo_password m aad = Inr bs \<and>
    bs \<noteq> [] \<and> length bs \<le> length envelopes"
proof -
  have lengths: "\<not> length demo_password < 12" "take 16 (ki_salt_material demo_key_io) = replicate 16 1"
    "ki_nonce demo_key_io = replicate 12 2"
    by (simp_all add: demo_password_def demo_key_io_def)
  obtain bs where bs: "table_encode envelopes (toy_envelope m aad) = Some bs"
    using table_encode_known[OF assms] by blast
  then have "encrypt file toy_crypto (toy_vault envelopes) demo_key_io demo_password m aad = Inr bs"
    unfolding encrypt_def derive_key_def lengths Let_def
    by (simp add: toy_vault_def lengths flip: toy_envelope_def)
  with table_decode_encode[OF bs] show ?thesis
    by blast
qed

lemma demo_publish:
  assumes "fmlookup fs q = None" and "fmlookup fs (temp_path toy_crypto demo_key_io dir prefix) = None"
    and "place_ok (file, toy_crypto, dir, q, prefix)"
  shows "\<exists>fs'. publish_new file toy_crypto demo_key_io fs dir q prefix bs = (fs', Inr ())"
  using assms place_ok_temp[OF assms(3), of demo_key_io]
  by (auto simp: publish_new_def write_private_file_def hard_link_def Let_def demo_key_io_def)

text \<open>The key of \<open>alice\<close>, provisioned and as a candidate.\<close>

definition demo_fingerprint :: string where
  "demo_fingerprint = genesis_configuration_fingerprint toy_crypto demo_configuration"

definition alice_stored :: stored_validator_key where
  "alice_stored = \<lparr>sk_format = VALIDATOR_KEYSTORE_FORMAT, sk_network_id = NETWORK_ID,
     sk_genesis_fingerprint = demo_fingerprint, sk_validator_address = w_address alice,
     sk_private_key_hex = private_key_hex toy_crypto alice\<rparr>"

definition alice_candidate :: stored_validator_candidate where
  "alice_candidate = \<lparr>sc_format = VALIDATOR_CANDIDATE_FORMAT,
     sc_network_family = VALIDATOR_CANDIDATE_NETWORK_FAMILY, sc_validator_address = w_address alice,
     sc_private_key_hex = private_key_hex toy_crypto alice\<rparr>"

definition demo_validator_json :: validator_json where
  "demo_validator_json = \<lparr>
     vj_key_to_vec = table_encode [alice_stored], vj_key_from_slice = table_decode [alice_stored],
     vj_candidate_to_vec = table_encode [alice_candidate],
     vj_candidate_from_slice = table_decode [alice_candidate]\<rparr>"

lemma demo_validator_json: "validator_json_spec demo_validator_json"
  "vj_key_to_vec demo_validator_json alice_stored = Some [1]"
  "vj_candidate_to_vec demo_validator_json alice_candidate = Some [1]"
  by (simp_all add: validator_json_spec_def demo_validator_json_def table_decode_encode(3))
    (simp_all add: table_encode_def)

definition demo_vault :: vault where
  "demo_vault = toy_vault [toy_envelope [1] VALIDATOR_KEYSTORE_AAD, toy_envelope [1] VALIDATOR_CANDIDATE_AAD,
     toy_envelope [1] USER_WALLET_AAD]"

lemma demo_vault_spec: "vault_spec demo_vault"
  by (simp add: demo_vault_def toy_vault_spec)

lemma alice_key: "from_private_key_hex toy_crypto (private_key_hex toy_crypto alice) = Inr alice"
  by (rule private_key_roundtrip[OF toy_hex_spec alice_wf])

lemma demo_encrypt:
  "aad \<in> {VALIDATOR_KEYSTORE_AAD, VALIDATOR_CANDIDATE_AAD, USER_WALLET_AAD} \<Longrightarrow>
     \<exists>bs. encrypt file toy_crypto demo_vault demo_key_io demo_password [1] aad = Inr bs \<and> bs \<noteq> [] \<and> length bs \<le> 3"
  using toy_encrypt[of "[1]" aad "[toy_envelope [1] VALIDATOR_KEYSTORE_AAD,
      toy_envelope [1] VALIDATOR_CANDIDATE_AAD, toy_envelope [1] USER_WALLET_AAD]"]
  by (simp add: demo_vault_def numeral_3_eq_3) blast

lemma demo_identity:
  "identity_from_private_key toy_crypto (private_key_hex toy_crypto alice) demo_consensus = Inr \<lparr>vi_wallet = alice\<rparr>"
  by (simp add: identity_from_private_key_def alice_key demo_allowed)

lemma demo_provision:
  assumes "fmlookup fs (validator_keystore_path ''data'') = None"
    and "fmlookup fs (temp_path toy_crypto demo_key_io ''data'' ''.validator-keystore'') = None"
  shows "\<exists>fs' bs. provision toy_crypto demo_vault demo_validator_json demo_key_io fs ''data'' demo_password
      (private_key_hex toy_crypto alice) demo_consensus demo_fingerprint = (fs', Inr (w_address alice)) \<and>
    fmlookup fs' (validator_keystore_path ''data'') = Some bs \<and> bs \<noteq> [] \<and> length bs \<le> 3"
proof -
  obtain bs where bs:
    "encrypt Validator_keystore toy_crypto demo_vault demo_key_io demo_password [1] VALIDATOR_KEYSTORE_AAD = Inr bs"
    "bs \<noteq> []" "length bs \<le> 3"
    using demo_encrypt by blast
  obtain fs' where pub: "publish_new Validator_keystore toy_crypto demo_key_io fs ''data''
      (validator_keystore_path ''data'') ''.validator-keystore'' bs = (fs', Inr ())"
    using demo_publish[OF assms places_ok(1)] by blast
  have absent: "validator_keystore_exists demo_key_io fs ''data'' = Inr False"
    by (simp add: validator_keystore_exists_def path_exists_def assms(1))
  have stored: "\<lparr>sk_format = VALIDATOR_KEYSTORE_FORMAT, sk_network_id = NETWORK_ID,
      sk_genesis_fingerprint = demo_fingerprint, sk_validator_address = identity_address \<lparr>vi_wallet = alice\<rparr>,
      sk_private_key_hex = private_key_hex toy_crypto alice\<rparr> = alice_stored"
    by (simp add: alice_stored_def identity_address_def)
  have "provision toy_crypto demo_vault demo_validator_json demo_key_io fs ''data'' demo_password
      (private_key_hex toy_crypto alice) demo_consensus demo_fingerprint = (fs', Inr (w_address alice))"
    unfolding provision_def demo_identity absent Let_def and_then_simps stored demo_validator_json(2)
      store_without_overwrite_def
    by (simp add: demo_key_io bs(1) pub identity_address_def)
  moreover have "fmlookup fs' (validator_keystore_path ''data'') = Some bs"
    by (rule publish_new_ok(2)[OF pub]) (rule place_ok_temp, rule places_ok(1))
  ultimately show ?thesis
    using bs(2,3) by blast
qed


lemma demo_candidate:
  "\<exists>fs' bs. candidate_generate toy_crypto demo_vault demo_validator_json demo_key_io fmempty ''data'' demo_password =
      (fs', Inr (w_address alice)) \<and>
    fs' = fmupd (validator_candidate_path ''data'') bs fmempty \<and> bs \<noteq> [] \<and> length bs \<le> 3"
proof -
  obtain bs where bs:
    "encrypt Validator_keystore toy_crypto demo_vault demo_key_io demo_password [1] VALIDATOR_CANDIDATE_AAD = Inr bs"
    "bs \<noteq> []" "length bs \<le> 3"
    using demo_encrypt by blast
  let ?temp = "temp_path toy_crypto demo_key_io ''data'' ''.validator-candidate''"
  let ?path = "validator_candidate_path ''data''"
  have differ: "?path \<noteq> ?temp"
    by (rule place_ok_temp) (rule places_ok(2))
  have pub: "publish_new Validator_keystore toy_crypto demo_key_io fmempty ''data'' ?path ''.validator-candidate'' bs =
      (fmupd ?path bs fmempty, Inr ())"
    using differ
    by (simp add: publish_new_def write_private_file_def hard_link_def remove_file_def Let_def demo_key_io_def
        fmdrop_fmupd)
  have absent: "validator_candidate_exists demo_key_io fmempty ''data'' = Inr False"
    by (simp add: validator_candidate_exists_def path_exists_def)
  have "candidate_generate toy_crypto demo_vault demo_validator_json demo_key_io fmempty ''data'' demo_password =
      (fmupd ?path bs fmempty, Inr (w_address alice))"
    unfolding candidate_generate_def absent Let_def and_then_simps if_False demo_key_io(5)
      alice_candidate_def[symmetric] demo_validator_json(3) store_without_overwrite_def
    by (simp add: demo_key_io bs(1) pub)
  with bs(2,3) show ?thesis
    by blast
qed

lemma demo_activation:
  "\<exists>fs1 fs2 activation bs.
     candidate_generate toy_crypto demo_vault demo_validator_json demo_key_io fmempty ''data'' demo_password =
       (fs1, Inr (w_address alice)) \<and>
     candidate_activate toy_crypto demo_vault demo_validator_json demo_key_io fs1 ''data'' demo_password
       demo_consensus demo_fingerprint = (fs2, Inr activation) \<and>
     fmlookup fs2 (validator_keystore_path ''data'') = Some bs \<and> bs \<noteq> [] \<and> length bs \<le> 3"
proof -
  obtain fs1 bs where gen: "candidate_generate toy_crypto demo_vault demo_validator_json demo_key_io fmempty ''data''
      demo_password = (fs1, Inr (w_address alice))"
    and fs1: "fs1 = fmupd (validator_candidate_path ''data'') bs fmempty" and bs: "bs \<noteq> []" "length bs \<le> 3"
    using demo_candidate by blast
  obtain w plaintext c where "w = wallet_new toy_crypto (ki_signing_key demo_key_io)" "w_address alice = w_address w"
    and pt: "vj_candidate_to_vec demo_validator_json \<lparr>sc_format = VALIDATOR_CANDIDATE_FORMAT,
       sc_network_family = VALIDATOR_CANDIDATE_NETWORK_FAMILY, sc_validator_address = w_address w,
       sc_private_key_hex = private_key_hex toy_crypto w\<rparr> = Some plaintext"
    and c: "encrypt Validator_keystore toy_crypto demo_vault demo_key_io demo_password plaintext
      VALIDATOR_CANDIDATE_AAD = Inr c"
    and pub: "publish_new Validator_keystore toy_crypto demo_key_io fmempty ''data''
      (validator_candidate_path ''data'') ''.validator-candidate'' c = (fs1, Inr ())"
    using gen by (rule candidate_generate_Inr)
  then have w: "w = alice"
    by (simp add: demo_key_io(5))
  have "fmlookup fs1 (validator_candidate_path ''data'') = Some c"
    by (rule publish_new_ok(2)[OF pub]) (rule place_ok_temp, rule places_ok(2))
  then have c_bs: "c = bs"
    by (simp add: fs1)
  have plain: "decrypt Validator_keystore toy_crypto demo_vault demo_password bs VALIDATOR_CANDIDATE_AAD = Inr plaintext"
    using decrypt_encrypt[OF toy_hex_spec demo_vault_spec demo_key_io(1) c] by (simp add: c_bs)
  have read: "read_encrypted_file Validator_candidate_keystore demo_key_io fs1 (validator_candidate_path ''data'') =
      Inr (Some bs)"
    using bs demo_key_io(2) by (simp add: read_encrypted_file_Some fs1 readable_def MAX_VALIDATOR_KEYSTORE_BYTES_def)
  have stored: "vj_candidate_from_slice demo_validator_json plaintext = Some alice_candidate"
    using demo_validator_json(1) pt by (simp add: validator_json_spec_def w alice_candidate_def)
  have load: "candidate_load toy_crypto demo_vault demo_validator_json demo_key_io fs1 ''data'' demo_password =
      Inr (Some \<lparr>vc_wallet = alice\<rparr>)"
    by (simp add: candidate_load_def read plain stored alice_key alice_candidate_def)
  have other: "fmlookup fs1 p = None" if "p \<noteq> validator_candidate_path ''data''" for p
    using that by (simp add: fs1)
  have "validator_candidate_path ''data'' \<noteq> temp_path toy_crypto demo_key_io ''data'' ''.validator-keystore''"
    by (simp add: validator_candidate_path_def temp_path_def VALIDATOR_CANDIDATE_FILE_NAME_def)
  from other[OF this[symmetric]] obtain fs3 bs' where prov: "provision toy_crypto demo_vault demo_validator_json demo_key_io fs1 ''data''
      demo_password (private_key_hex toy_crypto alice) demo_consensus demo_fingerprint = (fs3, Inr (w_address alice))"
    and bs': "fmlookup fs3 (validator_keystore_path ''data'') = Some bs'" "bs' \<noteq> []" "length bs' \<le> 3"
    using demo_provision other[OF keystore_paths_differ] by blast
  have absent: "validator_keystore_exists demo_key_io fs1 ''data'' = Inr False"
    by (simp add: validator_keystore_exists_def path_exists_def other)
  define fs2 where "fs2 = remove_file demo_key_io fs3 (validator_candidate_path ''data'')"
  have "\<exists>activation. candidate_activate toy_crypto demo_vault demo_validator_json demo_key_io fs1 ''data'' demo_password
      demo_consensus demo_fingerprint = (fs2, Inr activation)"
    by (simp add: candidate_activate_def absent load prov fs2_def)
  moreover have "fmlookup fs2 (validator_keystore_path ''data'') = Some bs'"
    using bs'(1) by (simp add: fs2_def remove_file_def)
  ultimately show ?thesis
    using gen bs'(2,3) by blast
qed

lemma demo_activation_files:
  "\<exists>fs1 fs2 c activation. candidate_activate toy_crypto demo_vault demo_validator_json demo_key_io fs1 ''data''
       demo_password demo_consensus demo_fingerprint = (fs2, Inr activation) \<and>
     fmlookup fs1 (validator_candidate_path ''data'') = Some c \<and>
     fmlookup fs2 (validator_candidate_path ''data'') = None"
proof -
  obtain fs1 fs2 activation where act: "candidate_activate toy_crypto demo_vault demo_validator_json demo_key_io fs1
      ''data'' demo_password demo_consensus demo_fingerprint = (fs2, Inr activation)"
    using demo_activation by blast
  then obtain candidate fs3 where
    "candidate_load toy_crypto demo_vault demo_validator_json demo_key_io fs1 ''data'' demo_password = Inr (Some candidate)"
    and fs2: "fs2 = remove_file demo_key_io fs3 (validator_candidate_path ''data'')"
    using candidate_activate_Inr[OF toy_hex_spec act] by metis
  then obtain c where "fmlookup fs1 (validator_candidate_path ''data'') = Some c"
    by (auto simp: candidate_load_def read_encrypted_file_Some result_simps split: option.splits)
  moreover have "fmlookup fs2 (validator_candidate_path ''data'') = None"
    by (simp add: fs2 remove_file_def demo_key_io_def)
  ultimately show ?thesis
    using act by blast
qed

definition alice_user_wallet :: stored_user_wallet where
  "alice_user_wallet = \<lparr>su_format = USER_WALLET_FORMAT, su_address = w_address alice,
     su_private_key_hex = private_key_hex toy_crypto alice\<rparr>"

definition demo_wallet_json :: user_wallet_json where
  "demo_wallet_json = \<lparr>uj_to_vec = table_encode [alice_user_wallet], uj_from_slice = table_decode [alice_user_wallet]\<rparr>"

lemma demo_wallet_json: "user_wallet_json_spec demo_wallet_json"
  "uj_to_vec demo_wallet_json alice_user_wallet = Some [1]"
  by (simp_all add: user_wallet_json_spec_def demo_wallet_json_def table_decode_encode(3))
    (simp_all add: table_encode_def)

lemma demo_user_wallet:
  "\<exists>fs'. user_wallet_create toy_crypto demo_vault demo_wallet_json demo_key_io fmempty ''data'' demo_password =
      (fs', Inr alice)"
proof -
  obtain bs where bs:
    "encrypt User_wallet toy_crypto demo_vault demo_key_io demo_password [1] USER_WALLET_AAD = Inr bs"
    using demo_encrypt by blast
  obtain fs' where pub: "publish_new User_wallet toy_crypto demo_key_io fmempty ''data''
      (user_wallet_path ''data'') ''.user-wallet'' bs = (fs', Inr ())"
    using demo_publish[OF _ _ user_place_ok, of fmempty "''data''" "''data''" User_wallet bs] by auto
  have absent: "\<not> user_wallet_exists demo_key_io fmempty ''data''"
    by (simp add: user_wallet_exists_def)
  have "user_wallet_create toy_crypto demo_vault demo_wallet_json demo_key_io fmempty ''data'' demo_password =
      (fs', Inr alice)"
    unfolding user_wallet_create_def Let_def demo_key_io(5) alice_user_wallet_def[symmetric] demo_wallet_json(2)
      user_encrypt_def write_new_def
    using absent by (simp add: demo_key_io bs pub)
  then show ?thesis
    by blast
qed

end
