(* ===== verification/Command_Line.thy ===== *)
theory Command_Line
  imports Submission Wallet_File "HOL-Library.List_Lexorder" "HOL-Library.Char_ord"
begin

text \<open>
  \<open>src/main.rs\<close>, the commands of the documented command line: the choice of the command by the
  arguments, the environment variables, the texts that are parsed, and the operation each
  command runs. A command ends with what it printed, or with the failure it printed before
  \<open>exit(1)\<close>. The lemmas show which numbers are read, how a node is configured, and that the
  commands for keys do what their operations do.
\<close>

section \<open>Texts\<close>

text \<open>\<open>str::trim\<close> on UTF-8: the white space of \<open>is_blank\<close> goes at both ends.\<close>

definition white_1 :: "char \<Rightarrow> bool" where
  "white_1 c \<longleftrightarrow> c \<in> {CHR 0x09, CHR 0x0A, CHR 0x0B, CHR 0x0C, CHR 0x0D, CHR 0x20}"

definition white_2 :: "char \<Rightarrow> char \<Rightarrow> bool" where
  "white_2 c d \<longleftrightarrow> c = CHR 0xC2 \<and> d \<in> {CHR 0x85, CHR 0xA0}"

definition white_3 :: "char \<Rightarrow> char \<Rightarrow> char \<Rightarrow> bool" where
  "white_3 c d e \<longleftrightarrow>
     (c, d, e) \<in> {(CHR 0xE1, CHR 0x9A, CHR 0x80), (CHR 0xE2, CHR 0x80, CHR 0xA8),
       (CHR 0xE2, CHR 0x80, CHR 0xA9), (CHR 0xE2, CHR 0x80, CHR 0xAF),
       (CHR 0xE2, CHR 0x81, CHR 0x9F), (CHR 0xE3, CHR 0x80, CHR 0x80)} \<or>
     c = CHR 0xE2 \<and> d = CHR 0x80 \<and> of_char e \<ge> (128::nat) \<and> of_char e \<le> (138::nat)"

fun trim_start :: "string \<Rightarrow> string" where
  "trim_start (c # d # e # s) =
     (if white_1 c then trim_start (d # e # s)
      else if white_2 c d then trim_start (e # s)
      else if white_3 c d e then trim_start s
      else c # d # e # s)"
| "trim_start [c, d] =
     (if white_1 c then trim_start [d] else if white_2 c d then [] else [c, d])"
| "trim_start [c] = (if white_1 c then [] else [c])"
| "trim_start [] = []"

text \<open>From the other end the bytes of a character come last first.\<close>

fun trim_back :: "string \<Rightarrow> string" where
  "trim_back (e # d # c # s) =
     (if white_1 e then trim_back (d # c # s)
      else if white_2 d e then trim_back (c # s)
      else if white_3 c d e then trim_back s
      else e # d # c # s)"
| "trim_back [e, d] =
     (if white_1 e then trim_back [d] else if white_2 d e then [] else [e, d])"
| "trim_back [e] = (if white_1 e then [] else [e])"
| "trim_back [] = []"

definition trim :: "string \<Rightarrow> string" where
  "trim s = rev (trim_back (rev (trim_start s)))"

text \<open>\<open>str::split\<close> at a character.\<close>

fun split_at :: "char \<Rightarrow> string \<Rightarrow> string list" where
  "split_at sep [] = [[]]"
| "split_at sep (c # s) =
     (if c = sep then [] # split_at sep s
      else (c # hd (split_at sep s)) # tl (split_at sep s))"

text \<open>\<open>str::parse::<u64>\<close>: an optional plus sign, then digits, and no overflow on the way.\<close>

definition is_digit :: "char \<Rightarrow> bool" where
  "is_digit c \<longleftrightarrow> c \<in> set ''0123456789''"

fun parse_digits :: "nat \<Rightarrow> string \<Rightarrow> nat option" where
  "parse_digits n [] = Some n"
| "parse_digits n (c # s) =
     (if is_digit c \<and> 10 * n + digit_value c < 2 ^ 64
      then parse_digits (10 * n + digit_value c) s else None)"

definition parse_u64 :: "string \<Rightarrow> u64 option" where
  "parse_u64 s =
     (let digits = (case s of [] \<Rightarrow> [] | c # rest \<Rightarrow> if c = CHR ''+'' then rest else s)
      in if digits = [] then None else map_option word_of_nat (parse_digits 0 digits))"

section \<open>The program and its surroundings\<close>

text \<open>
  What a run of the program meets: the environment, the input, the crates and the answers of
  the operating system. \<open>ho_socket\<close> is \<open>SocketAddr\<close> read from a text and written back.
\<close>

record host =
  ho_var :: "string \<Rightarrow> string option"      \<comment> \<open>\<open>std::env::var\<close> is \<open>Ok\<close>\<close>
  ho_stdin_is_terminal :: bool
  ho_stdin :: "string option"              \<comment> \<open>\<open>None\<close>: its first 129 bytes cannot be read as UTF-8\<close>
  ho_socket :: "string \<Rightarrow> (string \<times> 16 word) option"
  ho_platform :: platform
  ho_vault :: vault
  ho_validator_json :: validator_json
  ho_wallet_json :: user_wallet_json
  ho_wire :: wire
  ho_key_io :: key_io
  ho_io_read :: io_read
  ho_ticks :: "nat \<Rightarrow> effects"
  ho_query :: request_io
  ho_submit :: request_io
  ho_bound :: "unit result"                 \<comment> \<open>\<open>TcpTransport::bind\<close>\<close>

datatype failure =
    Usage
  | Variable_not_defined string
  | Key_typed_in_terminal
  | Key_not_read
  | Key_not_32_bytes
  | Amount_invalid
  | Amount_zero
  | Peer_address_invalid
  | Not_found
  | Failed error

datatype report =
    Candidate_address string
  | Active_validator_address string bool   \<comment> \<open>warned that the candidate file remains?\<close>
  | Keystore_created string path
  | Wallet_created string string path
  | Wallet_address string string
  | Account_report string u64 u64 u64 string
  | Wallet_transaction transaction
  | Node_transaction transaction string
  | Node_started runtime "string list"

type_synonym run = "file_system \<times> (failure + report)"

definition WALLET_PASSWORD_ENV :: string where
  "WALLET_PASSWORD_ENV = ''KYBERNETES_WALLET_PASSWORD''"
definition DATA_DIRECTORY_ENV :: string where
  "DATA_DIRECTORY_ENV = ''KYBERNETES_DATA_DIR''"
definition LEGACY_DATA_DIRECTORY_ENV :: string where
  "LEGACY_DATA_DIRECTORY_ENV = ''AION_DATA_DIR''"
definition VALIDATOR_PASSWORD_ENV :: string where
  "VALIDATOR_PASSWORD_ENV = ''KYBERNETES_VALIDATOR_PASSWORD''"
definition NODE_LISTEN_ADDRESS_ENV :: string where
  "NODE_LISTEN_ADDRESS_ENV = ''KYBERNETES_LISTEN_ADDRESS''"
definition NODE_PEERS_ENV :: string where
  "NODE_PEERS_ENV = ''KYBERNETES_PEERS''"

definition argument :: "string list \<Rightarrow> nat \<Rightarrow> string option" where
  "argument arguments i = (if i < length arguments then Some (arguments ! i) else None)"

definition required_variable :: "host \<Rightarrow> string \<Rightarrow> failure + string" where
  "required_variable h name =
     (case ho_var h name of
        Some v \<Rightarrow> if is_blank v then Inl (Variable_not_defined name) else Inr v
      | None \<Rightarrow> Inl (Variable_not_defined name))"

definition configured_directory :: "host \<Rightarrow> string" where
  "configured_directory h =
     data_directory (ho_var h DATA_DIRECTORY_ENV) (ho_var h LEGACY_DATA_DIRECTORY_ENV)"

definition failed :: "'a result \<Rightarrow> failure + 'a" where
  "failed r = (case r of Inl e \<Rightarrow> Inl (Failed e) | Inr a \<Rightarrow> Inr a)"

abbreviation ho_crypto :: "host \<Rightarrow> crypto" where
  "ho_crypto h \<equiv> pf_crypto (ho_platform h)"


section \<open>Which command\<close>

datatype mode =
    Validator_mode
  | Provision_validator
  | Wallet_send
  | Wallet_balance
  | Wallet_mode
  | Transaction_mode
  | Chunk_sync_listen
  | Chunk_sync
  | Chunk_listen
  | Chunk_request
  | Listen_mode
  | Send_stale_handshake
  | Send_wrong_version
  | Send_wrong_network
  | Broadcast_mode
  | Send_mode
  | Node_mode
  | Demo_mode
  | Usage_mode

text \<open>The tests of \<open>main\<close>, in their order. What none of them takes only gets the usage.\<close>

definition mode_of :: "string list \<Rightarrow> mode" where
  "mode_of arguments =
     (let first = argument arguments 1; second = argument arguments 2; n = length arguments in
      if first = Some ''validator'' then Validator_mode
      else if first = Some ''provision-validator'' then Provision_validator
      else if first = Some ''wallet'' \<and> second = Some ''send'' then Wallet_send
      else if first = Some ''wallet'' \<and> second = Some ''balance'' then Wallet_balance
      else if first = Some ''wallet'' then Wallet_mode
      else if first = Some ''transaction'' then Transaction_mode
      else if n \<ge> 3 \<and> first = Some ''chunk-sync-listen'' then Chunk_sync_listen
      else if n \<ge> 3 \<and> first = Some ''chunk-sync'' then Chunk_sync
      else if n \<ge> 3 \<and> first = Some ''chunk-listen'' then Chunk_listen
      else if n \<ge> 3 \<and> first = Some ''chunk-request'' then Chunk_request
      else if n \<ge> 3 \<and> first = Some ''listen'' then Listen_mode
      else if n \<ge> 3 \<and> first = Some ''send-stale-handshake'' then Send_stale_handshake
      else if n \<ge> 3 \<and> first = Some ''send-wrong-version'' then Send_wrong_version
      else if n \<ge> 3 \<and> first = Some ''send-wrong-network'' then Send_wrong_network
      else if n \<ge> 4 \<and> first = Some ''broadcast'' then Broadcast_mode
      else if n \<ge> 3 \<and> first = Some ''send'' then Send_mode
      else if n = 1 \<or> first = Some ''node'' then Node_mode
      else if first \<noteq> Some ''demo'' then Usage_mode
      else Demo_mode)"

section \<open>Keys of validators\<close>

definition validator_command :: "host \<Rightarrow> file_system \<Rightarrow> string list \<Rightarrow> run" where
  "validator_command h fs arguments =
     (if length arguments \<noteq> 3 then (fs, Inl Usage)
      else case required_variable h VALIDATOR_PASSWORD_ENV of Inl e \<Rightarrow> (fs, Inl e) | Inr password \<Rightarrow>
        let dir = configured_directory h; command = arguments ! 2 in
        if command = ''generate-candidate'' then
          (case candidate_generate (ho_crypto h) (ho_vault h) (ho_validator_json h) (ho_key_io h) fs dir
                  password of
             (fs, r) \<Rightarrow> (fs, and_then (failed r) (\<lambda>address. Inr (Candidate_address address))))
        else if command = ''candidate-address'' then
          (fs, case candidate_load (ho_crypto h) (ho_vault h) (ho_validator_json h) (ho_key_io h) fs dir
                      password of
                 Inr (Some candidate) \<Rightarrow> Inr (Candidate_address (w_address (vc_wallet candidate)))
               | Inr None \<Rightarrow> Inl Not_found
               | Inl e \<Rightarrow> Inl (Failed e))
        else if command = ''activate-candidate'' then
          (case canonical_bootstrap (ho_crypto h) of
             Inl e \<Rightarrow> (fs, Inl (Failed e))
           | Inr bootstrap \<Rightarrow>
               (case candidate_activate (ho_crypto h) (ho_vault h) (ho_validator_json h) (ho_key_io h) fs dir
                       password (cb_consensus bootstrap) (cb_genesis_fingerprint bootstrap) of
                  (fs, r) \<Rightarrow> (fs, and_then (failed r) (\<lambda>activation.
                    Inr (Active_validator_address (ac_validator_address activation)
                           (\<not> ac_candidate_removed activation))))))
        else (fs, Inl Usage))"

text \<open>The private key comes from the input, which must not be a terminal.\<close>

definition provision_command :: "host \<Rightarrow> file_system \<Rightarrow> run" where
  "provision_command h fs =
     (case required_variable h VALIDATOR_PASSWORD_ENV of Inl e \<Rightarrow> (fs, Inl e) | Inr password \<Rightarrow>
        if ho_stdin_is_terminal h then (fs, Inl Key_typed_in_terminal)
        else case ho_stdin h of None \<Rightarrow> (fs, Inl Key_not_read) | Some input \<Rightarrow>
          let private_key = take 129 input in
          if length private_key > 128 \<or> length (trim private_key) \<noteq> 64
          then (fs, Inl Key_not_32_bytes)
          else (case canonical_bootstrap (ho_crypto h) of
             Inl e \<Rightarrow> (fs, Inl (Failed e))
           | Inr bootstrap \<Rightarrow>
               let dir = configured_directory h in
               (case provision (ho_crypto h) (ho_vault h) (ho_validator_json h) (ho_key_io h) fs dir password
                       (trim private_key) (cb_consensus bootstrap) (cb_genesis_fingerprint bootstrap) of
                  (fs, r) \<Rightarrow> (fs, and_then (failed r) (\<lambda>address.
                    Inr (Keystore_created address (validator_keystore_path dir)))))))"

section \<open>Wallets of users\<close>

definition wallet_command :: "host \<Rightarrow> file_system \<Rightarrow> string list \<Rightarrow> run" where
  "wallet_command h fs arguments =
     (if length arguments \<noteq> 3 then (fs, Inl Usage)
      else case required_variable h WALLET_PASSWORD_ENV of Inl e \<Rightarrow> (fs, Inl e) | Inr password \<Rightarrow>
        let dir = configured_directory h; command = arguments ! 2 in
        if command = ''create'' then
          (case user_wallet_create (ho_crypto h) (ho_vault h) (ho_wallet_json h) (ho_key_io h) fs dir password of
             (fs, r) \<Rightarrow> (fs, and_then (failed r) (\<lambda>w.
               Inr (Wallet_created (w_address w) (public_key_hex (ho_crypto h) w) (user_wallet_path dir)))))
        else if command = ''address'' then
          (fs, case user_wallet_load (ho_crypto h) (ho_vault h) (ho_wallet_json h) (ho_key_io h) fs dir
                      password of
                 Inr (Some w) \<Rightarrow> Inr (Wallet_address (w_address w) (public_key_hex (ho_crypto h) w))
               | Inr None \<Rightarrow> Inl Not_found
               | Inl e \<Rightarrow> Inl (Failed e))
        else (fs, Inl Usage))"

definition wallet_balance_command :: "host \<Rightarrow> file_system \<Rightarrow> string list \<Rightarrow> failure + report" where
  "wallet_balance_command h fs arguments =
     (if length arguments \<noteq> 4 then Inl Usage
      else and_then (required_variable h WALLET_PASSWORD_ENV) (\<lambda>password.
           and_then (required_variable h DATA_DIRECTORY_ENV) (\<lambda>dir.
             case user_wallet_load (ho_crypto h) (ho_vault h) (ho_wallet_json h) (ho_key_io h) fs dir password of
               Inr None \<Rightarrow> Inl Not_found
             | Inl e \<Rightarrow> Inl (Failed e)
             | Inr (Some w) \<Rightarrow>
                 and_then (failed (query_account_state_from_node (ho_wire h) (ho_crypto h) (ho_query h)
                             (w_address w)))
                   (\<lambda>(address, balance, nonce, tip_index, tip_hash).
                     Inr (Account_report address balance nonce tip_index tip_hash)))))"

definition wallet_send_command :: "host \<Rightarrow> file_system \<Rightarrow> string list \<Rightarrow> failure + report" where
  "wallet_send_command h fs arguments =
     (if length arguments \<noteq> 6 then Inl Usage
      else and_then (required_variable h WALLET_PASSWORD_ENV) (\<lambda>password.
           and_then (required_variable h DATA_DIRECTORY_ENV) (\<lambda>dir.
             case parse_u64 (arguments ! 5) of
               None \<Rightarrow> Inl Amount_invalid
             | Some amount_micro_kbn \<Rightarrow>
                 and_then (failed (submit_from_user_wallet (ho_wire h) (ho_crypto h) (ho_vault h)
                             (ho_wallet_json h) (ho_key_io h) (ho_query h) (ho_submit h) fs dir password
                             (arguments ! 4) amount_micro_kbn))
                   (\<lambda>tx. Inr (Wallet_transaction tx)))))"

section \<open>Transactions of the active validator\<close>

definition transaction_command :: "host \<Rightarrow> file_system \<Rightarrow> string list \<Rightarrow> failure + report" where
  "transaction_command h fs arguments =
     (if length arguments \<noteq> 6 \<or> argument arguments 2 \<noteq> Some ''submit'' then Inl Usage
      else case ho_socket h (arguments ! 3) of
             None \<Rightarrow> Inl Peer_address_invalid
           | Some (peer_address, port) \<Rightarrow>
               if port = 0 then Inl Peer_address_invalid
               else case parse_u64 (arguments ! 5) of
                      None \<Rightarrow> Inl Amount_invalid
                    | Some amount_micro_kbn \<Rightarrow>
                        if \<not> amount_micro_kbn > 0 then Inl Amount_zero
                        else and_then (required_variable h VALIDATOR_PASSWORD_ENV) (\<lambda>password.
                             and_then (required_variable h DATA_DIRECTORY_ENV) (\<lambda>dir.
                             and_then (failed (submit_from_active_validator (ho_wire h) (ho_platform h)
                                         (ho_vault h) (ho_validator_json h) (ho_key_io h) (ho_io_read h)
                                         (ho_ticks h) (ho_submit h) fs dir password (arguments ! 4)
                                         amount_micro_kbn))
                               (\<lambda>tx. Inr (Node_transaction tx peer_address)))))"

section \<open>The node\<close>

text \<open>The address to listen on and the peers, from the arguments and the environment.\<close>

definition node_configuration ::
  "(string \<Rightarrow> string option) \<Rightarrow> string list \<Rightarrow> string \<times> string list" where
  "node_configuration var arguments =
     (let listen_address =
            (case (case argument arguments 2 of Some a \<Rightarrow> Some a | None \<Rightarrow> var NODE_LISTEN_ADDRESS_ENV) of
               Some address \<Rightarrow> if is_blank address then ''127.0.0.1:7000'' else address
             | None \<Rightarrow> ''127.0.0.1:7000'');
          peers = filter (\<lambda>peer. \<not> is_blank peer) (drop 3 arguments);
          peers = (case var NODE_PEERS_ENV of
                     Some configured_peers \<Rightarrow>
                       peers @ filter (\<lambda>peer. peer \<noteq> []) (map trim (split_at CHR '','' configured_peers))
                   | None \<Rightarrow> peers)
      in (listen_address, remdups_adj (sort peers)))"

definition validator_password :: "host \<Rightarrow> string option" where
  "validator_password h =
     (case ho_var h VALIDATOR_PASSWORD_ENV of
        Some password \<Rightarrow> if is_blank password then None else Some password
      | None \<Rightarrow> None)"

text \<open>Up to the loop of \<open>run\<close>, which only ends with the program.\<close>

definition node_command :: "host \<Rightarrow> effects \<Rightarrow> file_system \<Rightarrow> string list \<Rightarrow> run" where
  "node_command h ef fs arguments =
     (let (listen_address, peers) = node_configuration (ho_var h) arguments in
      case initialize_at (ho_platform h) (ho_vault h) (ho_validator_json h) (ho_key_io h) (ho_io_read h) ef
             fs (configured_directory h) (validator_password h) of
        (fs, Inl e) \<Rightarrow> (fs, Inl (Failed e))
      | (fs, Inr rt) \<Rightarrow>
          (fs, and_then (failed (start_run (ho_bound h) rt listen_address peers))
                 (\<lambda>(rt, sync_peers). Inr (Node_started rt sync_peers))))"


section \<open>What is read as a number\<close>

definition decimal_value :: "string \<Rightarrow> nat" where
  "decimal_value s = foldl (\<lambda>a c. 10 * a + digit_value c) 0 s"

lemma fold_digits_grows: "n \<le> foldl (\<lambda>a c. 10 * a + digit_value c) n s"
proof (induction s arbitrary: n)
  case Nil
  then show ?case by simp
next
  case (Cons c s)
  from Cons.IH[of "10 * n + digit_value c"] show ?case
    by simp
qed

lemma parse_digits_iff:
  "n < 2 ^ 64 \<Longrightarrow> parse_digits n s = Some m \<longleftrightarrow>
     list_all is_digit s \<and> foldl (\<lambda>a c. 10 * a + digit_value c) n s = m \<and> m < 2 ^ 64"
proof (induction s arbitrary: n)
  case Nil
  then show ?case by auto
next
  case (Cons c s)
  show ?case
  proof (cases "10 * n + digit_value c < 2 ^ 64")
    case True
    then show ?thesis
      using Cons.IH[OF True] by auto
  next
    case False
    then have "\<not> foldl (\<lambda>a c. 10 * a + digit_value c) (10 * n + digit_value c) s < 2 ^ 64"
      using fold_digits_grows[of "10 * n + digit_value c" s] by linarith
    with False show ?thesis
      by auto
  qed
qed

lemma plus_is_no_digit: "\<not> is_digit CHR ''+''"
  by (simp add: is_digit_def)

lemma parse_digits_0:
  "parse_digits 0 s = (if list_all is_digit s \<and> decimal_value s < 2 ^ 64 then Some (decimal_value s) else None)"
proof -
  have "parse_digits 0 s = Some m \<longleftrightarrow> list_all is_digit s \<and> decimal_value s = m \<and> m < 2 ^ 64" for m
    unfolding decimal_value_def by (rule parse_digits_iff) simp
  from this[of "decimal_value s"] this[of "the (parse_digits 0 s)"] show ?thesis
    by (cases "parse_digits 0 s") (simp_all split: if_split)
qed

lemma skip_plus:
  "(case s of [] \<Rightarrow> [] | c # rest \<Rightarrow> if c = CHR ''+'' then rest else s) =
     (if s \<noteq> [] \<and> hd s = CHR ''+'' then tl s else s)"
  by (cases s) simp_all

lemma digits_no_plus: "list_all is_digit s \<Longrightarrow> s \<noteq> [] \<Longrightarrow> hd s \<noteq> CHR ''+''"
  using plus_is_no_digit by (cases s) auto

lemma parse_u64_eq:
  "parse_u64 s =
     (let digits = if s \<noteq> [] \<and> hd s = CHR ''+'' then tl s else s
      in if digits \<noteq> [] \<and> list_all is_digit digits \<and> decimal_value digits < 2 ^ 64
         then Some (word_of_nat (decimal_value digits)) else None)"
  by (simp add: parse_u64_def skip_plus parse_digits_0 Let_def del: power_numeral)

text \<open>A text is read exactly when it is a number below 2^64, with or without a plus sign.\<close>

lemma parse_u64_iff:
  "parse_u64 s = Some w \<longleftrightarrow>
     (\<exists>digits. (s = digits \<or> s = CHR ''+'' # digits) \<and> digits \<noteq> [] \<and> list_all is_digit digits \<and>
        decimal_value digits = unat w)"
proof -
  have word: "n < 2 ^ 64 \<and> word_of_nat n = w \<longleftrightarrow> n = unat w" for n
  proof
    show "n = unat w" if "n < 2 ^ 64 \<and> word_of_nat n = w"
      using that unat_word_of_nat64[of n] by auto
    show "n < 2 ^ 64 \<and> word_of_nat n = w" if "n = unat w"
      using that order_less_le_trans[OF unsigned_less[of w], of "2 ^ 64"] by simp
  qed
  have "parse_u64 s = Some w \<longleftrightarrow> (\<exists>digits. (if s \<noteq> [] \<and> hd s = CHR ''+'' then tl s else s) = digits \<and>
      digits \<noteq> [] \<and> list_all is_digit digits \<and> decimal_value digits = unat w)"
    unfolding parse_u64_eq Let_def word[symmetric] by auto
  also have "\<dots> \<longleftrightarrow> (\<exists>digits. (s = digits \<or> s = CHR ''+'' # digits) \<and> digits \<noteq> [] \<and>
      list_all is_digit digits \<and> decimal_value digits = unat w)"
    using digits_no_plus plus_is_no_digit by (cases s) auto
  finally show ?thesis .
qed

lemma decimal_not_empty: "decimal n \<noteq> []"
  by (subst decimal.simps) simp

lemma parse_u64_decimal: "parse_u64 (decimal (unat w)) = Some w"
proof -
  have "list_all is_digit (decimal (unat w))"
    using decimal_digits by (auto simp: list_all_iff is_digit_def simp del: set_simps list.set)
  then show ?thesis
    unfolding parse_u64_iff
    by (intro exI[of _ "decimal (unat w)"]) (simp add: decimal_not_empty decimal_value_def decimal_read)
qed


section \<open>How a node is configured\<close>

lemma distinct_remdups_adj_sorted: "sorted xs \<Longrightarrow> distinct (remdups_adj xs)"
  by (induction xs rule: remdups_adj.induct) auto

lemma node_peers:
  "sorted_wrt (<) (snd (node_configuration var arguments))"
  "set (snd (node_configuration var arguments)) =
     {peer \<in> set (drop 3 arguments). \<not> is_blank peer} \<union>
     (case var NODE_PEERS_ENV of
        Some configured \<Rightarrow> trim ` set (split_at CHR '','' configured) - {[]} | None \<Rightarrow> {})"
  by (auto simp: node_configuration_def strict_sorted_iff distinct_remdups_adj_sorted Let_def split: option.split)

text \<open>A listed peer is found whatever white space surrounds it.\<close>

lemma split_at_cons: "split_at sep s \<noteq> []"
  by (cases s) auto

lemma split_at_append:
  "sep \<notin> set s \<Longrightarrow> split_at sep (s @ sep # t) = s # split_at sep t"
  by (induction s) auto

lemma split_at_plain: "sep \<notin> set s \<Longrightarrow> split_at sep s = [s]"
  by (induction s) auto

text \<open>The characters of addresses and keys are not white space.\<close>

definition visible :: "char \<Rightarrow> bool" where
  "visible c \<longleftrightarrow> 32 < (of_char c :: nat) \<and> (of_char c :: nat) < 128"

lemma visible_not_white:
  assumes "visible c"
  shows "\<not> white_1 c" "\<not> white_2 c d" "\<not> white_2 d c" "\<not> white_3 c d e" "\<not> white_3 d c e" "\<not> white_3 d e c"
  using assms by (auto simp: visible_def white_1_def white_2_def white_3_def)

lemma trim_start_visible: "s = [] \<or> visible (hd s) \<Longrightarrow> trim_start s = s"
  by (cases s rule: trim_start.cases) (simp_all add: visible_not_white)

lemma trim_start_white: "white_1 c \<Longrightarrow> trim_start (c # s) = trim_start s"
  by (cases s rule: trim_start.cases) simp_all

lemma trim_back_visible: "s = [] \<or> visible (hd s) \<Longrightarrow> trim_back s = s"
  by (cases s rule: trim_back.cases) (simp_all add: visible_not_white)

lemma trim_back_white: "white_1 c \<Longrightarrow> trim_back (c # s) = trim_back s"
  by (cases s rule: trim_back.cases) simp_all

lemma trim_surrounded:
  assumes "list_all white_1 u" and "list_all white_1 v" and "list_all visible s" and "s \<noteq> []"
  shows "trim (u @ s @ v) = s"
proof -
  have "trim_start (u @ s @ v) = s @ v"
    using assms(1,3,4) by (induction u) (cases s, auto simp: trim_start_white intro!: trim_start_visible)
  moreover have "trim_back (x @ rev s) = rev s" if "list_all white_1 x" for x
    using that assms(3,4)
    by (induction x) (auto simp: trim_back_white hd_rev list_all_iff intro!: trim_back_visible)
  from this[of "rev v"] have "trim_back (rev v @ rev s) = rev s"
    using assms(2) by simp
  ultimately show ?thesis
    by (simp add: trim_def)
qed

lemma lower_hex_visible: "lower_hex_digit c \<Longrightarrow> visible c"
proof -
  have "list_all visible ''0123456789abcdef''"
    by (simp add: visible_def)
  then show "lower_hex_digit c \<Longrightarrow> visible c"
    unfolding list_all_iff lower_hex_digit_def by blast
qed


section \<open>Commands for keys\<close>

lemma wallet_create_command:
  assumes "wallet_command h fs arguments = (fs', Inr (Wallet_created a pk p))"
  obtains password w where "required_variable h WALLET_PASSWORD_ENV = Inr password"
    "user_wallet_create (ho_crypto h) (ho_vault h) (ho_wallet_json h) (ho_key_io h) fs (configured_directory h)
       password = (fs', Inr w)" "a = w_address w" "pk = public_key_hex (ho_crypto h) w"
    "p = user_wallet_path (configured_directory h)" "arguments ! 2 = ''create''" "length arguments = 3"
proof -
  obtain password where password: "required_variable h WALLET_PASSWORD_ENV = Inr password" and len: "length arguments = 3"
    using assms by (auto simp: wallet_command_def split: if_splits sum.splits)
  have create: "arguments ! 2 = ''create''"
    using assms by (auto simp: wallet_command_def Let_def password len split: if_splits sum.splits option.splits)
  obtain fs1 r where run: "user_wallet_create (ho_crypto h) (ho_vault h) (ho_wallet_json h) (ho_key_io h) fs
      (configured_directory h) password = (fs1, r)"
    by fastforce
  then show thesis
    using assms that[OF password] create len
    by (cases r) (auto simp: wallet_command_def Let_def password failed_def)
qed

text \<open>What \<open>wallet create\<close> printed is what \<open>wallet address\<close> prints.\<close>

lemma wallet_create_then_address:
  assumes spec: "hex_spec (ho_crypto h)" "vault_spec (ho_vault h)" "user_wallet_json_spec (ho_wallet_json h)"
      "generated_lengths (ho_key_io h)"
    and create: "wallet_command h fs arguments = (fs', Inr (Wallet_created a pk p))"
    and later: "ho_platform h' = ho_platform h" "ho_vault h' = ho_vault h" "ho_wallet_json h' = ho_wallet_json h"
      "ho_var h' = ho_var h" "readable (ho_key_io h')"
    and ask: "length arguments' = 3" "arguments' ! 2 = ''address''"
  shows "wallet_command h' fs' arguments' = (fs', Inr (Wallet_address a pk))"
proof -
  obtain password w where "required_variable h WALLET_PASSWORD_ENV = Inr password"
    and run: "user_wallet_create (ho_crypto h) (ho_vault h) (ho_wallet_json h) (ho_key_io h) fs
      (configured_directory h) password = (fs', Inr w)"
    and w: "a = w_address w" "pk = public_key_hex (ho_crypto h) w"
    using create by (rule wallet_create_command)
  then have "required_variable h' WALLET_PASSWORD_ENV = Inr password"
    using later by (simp add: required_variable_def)
  moreover have "configured_directory h' = configured_directory h"
    using later by (simp add: configured_directory_def)
  moreover have "user_wallet_load (ho_crypto h) (ho_vault h) (ho_wallet_json h) (ho_key_io h') fs'
      (configured_directory h) password = Inr (Some w)"
    by (rule user_wallet_create_load(1)[OF spec run later(5)])
  ultimately show ?thesis
    using later ask w by (simp add: wallet_command_def)
qed

lemma provision_command_Inr:
  assumes "provision_command h fs = (fs', Inr (Keystore_created a p))"
  obtains password input cb where "required_variable h VALIDATOR_PASSWORD_ENV = Inr password"
    "ho_stdin h = Some input" "length (trim (take 129 input)) = 64" "canonical_bootstrap (ho_crypto h) = Inr cb"
    "provision (ho_crypto h) (ho_vault h) (ho_validator_json h) (ho_key_io h) fs (configured_directory h) password
       (trim (take 129 input)) (cb_consensus cb) (cb_genesis_fingerprint cb) = (fs', Inr a)"
proof -
  obtain password input cb where parts: "required_variable h VALIDATOR_PASSWORD_ENV = Inr password"
    "ho_stdin h = Some input" "length (trim (take 129 input)) = 64" "canonical_bootstrap (ho_crypto h) = Inr cb"
    using assms by (auto simp: provision_command_def Let_def split: if_splits sum.splits option.splits)
  obtain fs1 r where run: "provision (ho_crypto h) (ho_vault h) (ho_validator_json h) (ho_key_io h) fs
      (configured_directory h) password (trim (take 129 input)) (cb_consensus cb) (cb_genesis_fingerprint cb) = (fs1, r)"
    by fastforce
  show thesis
    using assms run that[OF parts]
    by (cases r) (auto simp: provision_command_def Let_def parts failed_def split: if_splits)
qed

text \<open>A node that is started after \<open>provision-validator\<close> is the validator that was provisioned.\<close>

lemma provision_then_node:
  assumes spec: "hex_spec (ho_crypto h)" "vault_spec (ho_vault h)" "validator_json_spec (ho_validator_json h)"
      "generated_lengths (ho_key_io h)"
    and prov: "provision_command h fs = (fs', Inr (Keystore_created a p))"
    and small: "\<And>bs. fmlookup fs' (validator_keystore_path (configured_directory h)) = Some bs \<Longrightarrow>
      bs \<noteq> [] \<and> length bs \<le> MAX_VALIDATOR_KEYSTORE_BYTES"
    and later: "ho_platform h' = ho_platform h" "ho_vault h' = ho_vault h"
      "ho_validator_json h' = ho_validator_json h" "ho_var h' = ho_var h" "readable (ho_key_io h')"
    and start: "node_command h' ef fs' arguments = (fs'', Inr (Node_started rt peers))"
  shows "role rt = Validator" and "runtime_validator_address rt = Some a"
proof -
  obtain password input cb where password: "required_variable h VALIDATOR_PASSWORD_ENV = Inr password"
    and cb: "canonical_bootstrap (ho_crypto h) = Inr cb"
    and run: "provision (ho_crypto h) (ho_vault h) (ho_validator_json h) (ho_key_io h) fs (configured_directory h)
       password (trim (take 129 input)) (cb_consensus cb) (cb_genesis_fingerprint cb) = (fs', Inr a)"
    using prov by (rule provision_command_Inr)
  obtain w where w: "from_private_key_hex (ho_crypto h) (trim (take 129 input)) = Inr w" "a = w_address w"
    and allowed: "is_validator_allowed (cb_consensus cb) a"
    using run by (rule provision_Inr) simp
  have load: "load_authorized (ho_crypto h) (ho_vault h) (ho_validator_json h) (ho_key_io h') fs'
      (configured_directory h) password (cb_consensus cb) (cb_genesis_fingerprint cb) = Inr (Some \<lparr>vi_wallet = w\<rparr>)"
    using provision_load[OF spec run small later(5), of "cb_consensus cb" "cb_genesis_fingerprint cb"] w allowed
    by simp
  have same: "validator_password h' = Some password" "configured_directory h' = configured_directory h"
    using password later
    by (auto simp: validator_password_def required_variable_def configured_directory_def split: option.splits if_splits)
  obtain listen_address ps where conf: "node_configuration (ho_var h) arguments = (listen_address, ps)"
    by fastforce
  obtain rt0 where init: "initialize_at (ho_platform h) (ho_vault h) (ho_validator_json h) (ho_key_io h')
      (ho_io_read h') ef fs' (configured_directory h) (Some password) = (fs'', Inr rt0)"
    and run0: "start_run (ho_bound h') rt0 listen_address ps = Inr (rt, peers)"
    using start by (auto simp: node_command_def conf same later failed_def result_simps split: prod.splits sum.splits)
  have "rt_validator_identity rt0 = Some \<lparr>vi_wallet = w\<rparr>"
    using init by (auto simp: initialize_at_def cb load result_simps Let_def split: sum.splits prod.splits option.splits)
  moreover have "rt_validator_identity rt = rt_validator_identity rt0"
    using start_run_evolves[OF run0, of "ho_platform h" fs''] by (simp add: evolves_def)
  ultimately show "role rt = Validator" "runtime_validator_address rt = Some a"
    using w by (simp_all add: role_def runtime_validator_address_def identity_address_def)
qed

end
