(* ===== verification/Test_Modes.thy ===== *)
theory Test_Modes
  imports Command_Line
begin

text \<open>
  \<open>src/main.rs\<close>, the commands that two operators run against each other to try the network:
  \<open>chunk-sync-listen\<close> with \<open>chunk-sync\<close>, \<open>chunk-listen\<close> with \<open>chunk-request\<close>, \<open>listen\<close> with \<open>send\<close>,
  \<open>broadcast\<close> and the three handshakes that must be refused. They end with a result to print or
  abort: an \<open>expect\<close> that fails or a \<open>panic!\<close>. The lemmas show that both ends of a session
  work together, and that the three handshakes are refused by every node.
\<close>

section \<open>How a test ends\<close>

datatype abort =
    Unexpected_error error
  | Nothing_there
  | Not_expected network_message
  | Start_index_differs u64 u64
  | Total_zero
  | Empty_chunk
  | Chunk_over_limit
  | Total_changed
  | Basic_validation_failed
  | Peer_not_added
  | Channel_closed

definition expect :: "'a result \<Rightarrow> abort + 'a" where
  "expect r = (case r of Inl e \<Rightarrow> Inl (Unexpected_error e) | Inr a \<Rightarrow> Inr a)"

definition expect_some :: "'a option \<Rightarrow> abort + 'a" where
  "expect_some r = (case r of None \<Rightarrow> Inl Nothing_there | Some a \<Rightarrow> Inr a)"

text \<open>
  What a session meets beside the host: the key of its fresh wallet, the clock and the random
  challenge of the handshake, the answers to the writes, and the connection that was made.
\<close>

record session_io =
  ss_key :: "byte list"
  ss_clock :: "nat \<Rightarrow> u64 option"
  ss_random :: "byte list"
  ss_handshake_answers :: send_answers
  ss_answers :: "nat \<Rightarrow> send_answers"
  ss_dialled :: "connection result"
  ss_accepted :: "(connection \<times> string) result"

abbreviation ss_wallet :: "host \<Rightarrow> session_io \<Rightarrow> wallet" where
  "ss_wallet h ss \<equiv> wallet_new (ho_crypto h) (ss_key ss)"

section \<open>Serving a chain in parts\<close>

text \<open>The blocks from a start index on, at most \<open>limit\<close> of them; none past the end.\<close>

definition served_blocks :: "nat \<Rightarrow> block list \<Rightarrow> nat \<Rightarrow> block list" where
  "served_blocks limit saved_chain start =
     (if start \<ge> length saved_chain then []
      else take (min (start + limit) (length saved_chain) - start) (drop start saved_chain))"

definition served_response :: "nat \<Rightarrow> block list \<Rightarrow> u64 \<Rightarrow> network_message" where
  "served_response limit saved_chain start_index =
     Chain_chunk_response start_index (word_of_nat (length saved_chain))
       (served_blocks limit saved_chain (unat start_index))"

definition test_chunk_size :: nat where
  "test_chunk_size = min 4 MAX_SYNC_BLOCKS_PER_MESSAGE"

definition stored_chain_or_abort :: "host \<Rightarrow> file_system \<Rightarrow> abort + block list" where
  "stored_chain_or_abort h fs =
     and_then (expect (load_blockchain_from (pf_json (ho_platform h)) (ho_io_read h) fs (configured_directory h)))
       expect_some"

text \<open>A message that was read took bytes of the stream; writing takes none.\<close>

lemma read_takes_bytes:
  "read_message wr cn = (cn', Inr m) \<Longrightarrow> length (cn_incoming cn') < length (cn_incoming cn)"
  by (auto simp: read_message_def intro: read_message_shrinks split: prod.splits sum.splits option.splits)

lemma send_keeps_incoming: "send_message wr sa cn m = (cn', r) \<Longrightarrow> cn_incoming cn' = cn_incoming cn"
  using send_message_incoming(1)[of wr sa cn m] by simp

text \<open>The loop ends with the part that holds the last block; it counts the parts.\<close>

function serve_parts ::
  "wire \<Rightarrow> (nat \<Rightarrow> send_answers) \<Rightarrow> block list \<Rightarrow> nat \<Rightarrow> connection \<Rightarrow> connection \<times> (abort + nat)" where
  "serve_parts wr answers saved_chain served cn =
     (case read_message wr cn of
        (cn', Inr (Chain_chunk_request start_index)) \<Rightarrow>
          (case send_message wr (answers served) cn' (served_response test_chunk_size saved_chain start_index) of
             (cn'', Inl e) \<Rightarrow> (cn'', Inl (Unexpected_error e))
           | (cn'', Inr _) \<Rightarrow>
               if unat start_index + length (served_blocks test_chunk_size saved_chain (unat start_index)) \<ge>
                  length saved_chain
               then (cn'', Inr (Suc served))
               else serve_parts wr answers saved_chain (Suc served) cn'')
      | (cn', Inr message) \<Rightarrow> (cn', Inl (Not_expected message))
      | (cn', Inl e) \<Rightarrow> (cn', Inl (Unexpected_error e)))"
  by pat_completeness auto
termination serve_parts
  by (relation "measure (\<lambda>(wr, answers, saved_chain, served, cn). length (cn_incoming cn))")
    (auto dest!: read_takes_bytes[OF sym] send_keeps_incoming[OF sym])

declare serve_parts.simps [simp del]

definition chunk_sync_listen_command ::
  "host \<Rightarrow> session_io \<Rightarrow> file_system \<Rightarrow> abort + connection \<times> nat" where
  "chunk_sync_listen_command h ss fs =
     and_then (expect (ho_bound h)) (\<lambda>_.
     and_then (expect (accept_authenticated (ho_wire h) (ho_crypto h) (ss_clock ss) (ss_handshake_answers ss)
                         (ss_wallet h ss) (ss_accepted ss))) (\<lambda>(cn, peer_address, handshake).
     and_then (stored_chain_or_abort h fs) (\<lambda>saved_chain.
       case serve_parts (ho_wire h) (ss_answers ss) saved_chain 0 cn of
         (cn, Inl a) \<Rightarrow> Inl a
       | (cn, Inr served_chunk_count) \<Rightarrow> Inr (cn, served_chunk_count))))"

section \<open>Fetching a chain in parts\<close>

text \<open>The node of the tests starts from the canonical genesis, in the configured directory.\<close>

definition test_node :: "host \<Rightarrow> abort + node" where
  "test_node h =
     and_then (expect (canonical_bootstrap (ho_crypto h))) (\<lambda>sync_bootstrap.
       Inr (node_new (ho_var h DATA_DIRECTORY_ENV) (ho_var h LEGACY_DATA_DIRECTORY_ENV)
              (cb_blockchain sync_bootstrap) (cb_state sync_bootstrap) (cb_consensus sync_bootstrap)))"

text \<open>The checks on a response; the result is the total that is expected from now on.\<close>

definition check_response ::
  "u64 \<Rightarrow> u64 option \<Rightarrow> u64 \<Rightarrow> u64 \<Rightarrow> block list \<Rightarrow> abort + u64 option" where
  "check_response next_start expected_total start_index total_blocks blocks =
     (if start_index \<noteq> next_start then Inl (Start_index_differs next_start start_index)
      else if total_blocks = 0 then Inl Total_zero
      else if blocks = [] then Inl Empty_chunk
      else if length blocks > MAX_SYNC_BLOCKS_PER_MESSAGE then Inl Chunk_over_limit
      else case expected_total of
             Some current_total \<Rightarrow>
               if current_total \<noteq> total_blocks then Inl Total_changed else Inr expected_total
           | None \<Rightarrow> Inr (Some total_blocks))"

function fetch_parts ::
  "wire \<Rightarrow> platform \<Rightarrow> (nat \<Rightarrow> send_answers) \<Rightarrow> (nat \<Rightarrow> effects) \<Rightarrow> nat \<Rightarrow> u64 \<Rightarrow> u64 option \<Rightarrow>
   file_system \<Rightarrow> node \<Rightarrow> connection \<Rightarrow>
   file_system \<times> node \<times> connection \<times> (abort + u64 option \<times> nat)" where
  "fetch_parts wr pf answers ticks received next_start expected_total fs nd cn =
     (case send_message wr (answers received) cn (Chain_chunk_request next_start) of
        (cn, Inl e) \<Rightarrow> (fs, nd, cn, Inl (Unexpected_error e))
      | (cn', Inr _) \<Rightarrow>
     (case read_message wr cn' of
        (cn'', Inl e) \<Rightarrow> (fs, nd, cn'', Inl (Unexpected_error e))
      | (cn'', Inr (Chain_chunk_response start_index total_blocks blocks)) \<Rightarrow>
          (case check_response next_start expected_total start_index total_blocks blocks of
             Inl a \<Rightarrow> (fs, nd, cn'', Inl a)
           | Inr expected_total' \<Rightarrow>
               (case apply_chain_chunk pf (ticks received) fs nd start_index total_blocks blocks of
                  (fs', nd', Inl e) \<Rightarrow> (fs', nd', cn'', Inl (Unexpected_error e))
                | (fs', nd', Inr None) \<Rightarrow> (fs', nd', cn'', Inr (expected_total', Suc received))
                | (fs', nd', Inr (Some next_index)) \<Rightarrow>
                    fetch_parts wr pf answers ticks (Suc received) next_index expected_total' fs' nd' cn''))
      | (cn'', Inr message) \<Rightarrow> (fs, nd, cn'', Inl (Not_expected message))))"
  by pat_completeness auto
termination fetch_parts
  by (relation "measure (\<lambda>(wr, pf, answers, ticks, received, next_start, expected_total, fs, nd, cn).
        length (cn_incoming cn))")
    (auto dest!: read_takes_bytes[OF sym] send_keeps_incoming[OF sym])

declare fetch_parts.simps [simp del]

text \<open>What is printed at the end: the number of chunks, and whether the test succeeded.\<close>

definition chunk_sync_command ::
  "host \<Rightarrow> session_io \<Rightarrow> file_system \<Rightarrow> file_system \<times> (abort + node \<times> connection \<times> nat \<times> bool)" where
  "chunk_sync_command h ss fs =
     (case and_then (test_node h) (\<lambda>sync_node.
           and_then (expect (connect_authenticated (ho_wire h) (ho_crypto h) (ss_clock ss) (ss_random ss)
                               (ss_handshake_answers ss) (ss_wallet h ss) ''127.0.0.1:7005'' (ss_dialled ss)))
             (\<lambda>cn. Inr (sync_node, cn))) of
        Inl a \<Rightarrow> (fs, Inl a)
      | Inr (sync_node, cn) \<Rightarrow>
          (case fetch_parts (ho_wire h) (ho_platform h) (ss_answers ss) (ho_ticks h) 0 0 None fs sync_node cn of
             (fs, sync_node, cn, Inl a) \<Rightarrow> (fs, Inl a)
           | (fs, sync_node, cn, Inr (expected_total, received_chunk_count)) \<Rightarrow>
               (fs, and_then (expect_some expected_total) (\<lambda>total_blocks.
                  let synchronized = length (bc_chain (nd_blockchain sync_node)) = unat total_blocks
                  in Inr (sync_node, cn, received_chunk_count, synchronized \<and> received_chunk_count > 1)))))"

section \<open>One chunk\<close>

definition chunk_listen_command :: "host \<Rightarrow> session_io \<Rightarrow> file_system \<Rightarrow> abort + connection \<times> nat" where
  "chunk_listen_command h ss fs =
     and_then (expect (ho_bound h)) (\<lambda>_.
     and_then (expect (accept_authenticated_request (ho_wire h) (ho_crypto h) (ss_clock ss)
                         (ss_handshake_answers ss) (ss_wallet h ss) (ss_accepted ss)))
       (\<lambda>(cn, peer_address, handshake, request).
     and_then (case request of
                 Chain_chunk_request start_index \<Rightarrow> Inr start_index
               | _ \<Rightarrow> Inl (Not_expected request)) (\<lambda>start_index.
     and_then (stored_chain_or_abort h fs) (\<lambda>saved_chain.
       case send_message (ho_wire h) (ss_answers ss 0) cn
              (served_response MAX_SYNC_BLOCKS_PER_MESSAGE saved_chain start_index) of
         (cn, Inl e) \<Rightarrow> Inl (Unexpected_error e)
       | (cn, Inr _) \<Rightarrow>
           Inr (cn, length (served_blocks MAX_SYNC_BLOCKS_PER_MESSAGE saved_chain (unat start_index)))))))"

definition valid_first_chunk :: "u64 \<Rightarrow> u64 \<Rightarrow> block list \<Rightarrow> bool" where
  "valid_first_chunk start_index total_blocks blocks \<longleftrightarrow>
     start_index = 0 \<and> total_blocks > 0 \<and> blocks \<noteq> [] \<and>
     length blocks \<le> MAX_SYNC_BLOCKS_PER_MESSAGE \<and>
     (case blocks of [] \<Rightarrow> False | b # _ \<Rightarrow> blk_index b = 0)"

text \<open>What is printed at the end: whether another chunk is needed, and whether the chain is complete.\<close>

definition chunk_request_command ::
  "host \<Rightarrow> session_io \<Rightarrow> file_system \<Rightarrow> file_system \<times> (abort + node \<times> bool \<times> bool)" where
  "chunk_request_command h ss fs =
     (case expect (send_authenticated_request (ho_wire h) (ho_crypto h) (ss_clock ss) (ss_random ss)
                     (ss_handshake_answers ss) (ss_answers ss 0) (ss_wallet h ss) ''127.0.0.1:7004''
                     (ss_dialled ss) (Chain_chunk_request 0)) of
        Inl a \<Rightarrow> (fs, Inl a)
      | Inr (Chain_chunk_response start_index total_blocks blocks) \<Rightarrow>
          if \<not> valid_first_chunk start_index total_blocks blocks then (fs, Inl Basic_validation_failed)
          else (case test_node h of
                  Inl a \<Rightarrow> (fs, Inl a)
                | Inr sync_node \<Rightarrow>
                    (case apply_chain_chunk (ho_platform h) (ho_ticks h 0) fs sync_node start_index
                            total_blocks blocks of
                       (fs, sync_node, Inl e) \<Rightarrow> (fs, Inl (Unexpected_error e))
                     | (fs, sync_node, Inr next_chunk) \<Rightarrow>
                         (fs, Inr (sync_node, next_chunk \<noteq> None,
                            next_chunk = None \<and>
                            length (bc_chain (nd_blockchain sync_node)) = unat total_blocks))))
      | Inr _ \<Rightarrow> (fs, Inl Basic_validation_failed))"

section \<open>A listener\<close>

text \<open>
  \<open>messages\<close> are those the sessions put into the channel until it closes; the loop takes them
  until it has seen a handshake and a request to synchronize.
\<close>

fun listen_loop ::
  "crypto \<Rightarrow> (network_message \<Rightarrow> nat option) \<Rightarrow> (nat \<Rightarrow> u64 option) \<Rightarrow> nat \<Rightarrow> network \<Rightarrow> bool \<Rightarrow> bool \<Rightarrow>
   network_message list \<Rightarrow> abort + network" where
  "listen_loop cr msize clock i nw handshake_received sync_received [] =
     (if handshake_received \<and> sync_received then Inr nw else Inl Channel_closed)"
| "listen_loop cr msize clock i nw handshake_received sync_received (message # messages) =
     (if handshake_received \<and> sync_received then Inr nw
      else listen_loop cr msize clock (Suc i) (network_receive cr msize (clock i) nw message)
             (handshake_received \<or> (case message of Handshake _ _ _ _ _ _ _ _ \<Rightarrow> True | _ \<Rightarrow> False))
             (sync_received \<or> message = Sync_request) messages)"

definition listen_command ::
  "host \<Rightarrow> (nat \<Rightarrow> u64 option) \<Rightarrow> network_message list \<Rightarrow> abort + network \<times> bool" where
  "listen_command h clock messages =
     and_then (listen_loop (ho_crypto h) (wire_size (ho_wire h)) clock 0 network_new False False messages)
       (\<lambda>network. Inr (network, identified_peer_count network = 1))"

section \<open>Handshakes that must be refused\<close>

definition test_handshake ::
  "crypto \<Rightarrow> wallet \<Rightarrow> string \<Rightarrow> string \<Rightarrow> u32 \<Rightarrow> u64 \<Rightarrow> byte list \<Rightarrow> network_message" where
  "test_handshake cr test_wallet listen_address network_id protocol_version timestamp random =
     (let public_key = public_key_hex cr test_wallet;
          challenge = generate_handshake_challenge cr random;
          signature = sign_node_handshake cr test_wallet listen_address network_id protocol_version
                        timestamp challenge
      in Handshake (node_id test_wallet) public_key listen_address network_id protocol_version timestamp
           challenge signature)"

definition stale_handshake :: "crypto \<Rightarrow> u64 option \<Rightarrow> byte list \<Rightarrow> wallet \<Rightarrow> network_message" where
  "stale_handshake cr clock random test_wallet =
     (let now = current_timestamp clock; age = MAX_HANDSHAKE_AGE_SECONDS + 1;
          timestamp = if age \<le> now then now - age else 0
      in test_handshake cr test_wallet ''127.0.0.1:7005'' NETWORK_ID NETWORK_PROTOCOL_VERSION timestamp random)"

definition wrong_version_handshake :: "crypto \<Rightarrow> u64 option \<Rightarrow> byte list \<Rightarrow> wallet \<Rightarrow> network_message" where
  "wrong_version_handshake cr clock random test_wallet =
     test_handshake cr test_wallet ''127.0.0.1:7004'' NETWORK_ID (NETWORK_PROTOCOL_VERSION + 1)
       (current_timestamp clock) random"

definition wrong_network_handshake :: "crypto \<Rightarrow> u64 option \<Rightarrow> byte list \<Rightarrow> wallet \<Rightarrow> network_message" where
  "wrong_network_handshake cr clock random test_wallet =
     test_handshake cr test_wallet ''127.0.0.1:7003'' ''wrong-kybernetes-network'' NETWORK_PROTOCOL_VERSION
       (current_timestamp clock) random"

text \<open>The result is what is printed: whether the handshake was rejected.\<close>

definition send_stale_handshake_command :: "host \<Rightarrow> session_io \<Rightarrow> abort + bool" where
  "send_stale_handshake_command h ss =
     and_then (expect (send_and_receive (ho_wire h) (ss_handshake_answers ss) (ss_dialled ss)
                 (stale_handshake (ho_crypto h) (ss_clock ss 0) (ss_random ss) (ss_wallet h ss))))
       (\<lambda>response. case response of
          Handshake_ack _ _ _ _ _ _ accepted _ \<Rightarrow> Inr (\<not> accepted)
        | _ \<Rightarrow> Inl (Not_expected response))"

definition send_wrong_version_command :: "host \<Rightarrow> session_io \<Rightarrow> abort + unit" where
  "send_wrong_version_command h ss =
     expect (send_to (ho_wire h) (ss_handshake_answers ss) (ss_dialled ss)
       (wrong_version_handshake (ho_crypto h) (ss_clock ss 0) (ss_random ss) (ss_wallet h ss)))"

definition send_wrong_network_command :: "host \<Rightarrow> session_io \<Rightarrow> abort + unit" where
  "send_wrong_network_command h ss =
     expect (send_to (ho_wire h) (ss_handshake_answers ss) (ss_dialled ss)
       (wrong_network_handshake (ho_crypto h) (ss_clock ss 0) (ss_random ss) (ss_wallet h ss)))"

section \<open>Sending\<close>

text \<open>
  \<open>session\<close> is what the message meets at a peer (\<open>broadcast_authenticated\<close>); the result is the
  network, the two counts, and whether the test succeeded.
\<close>

definition broadcast_command ::
  "host \<Rightarrow> u64 option \<Rightarrow> (string \<Rightarrow> network_message \<Rightarrow> unit result) \<Rightarrow> string list \<Rightarrow>
   abort + network \<times> nat \<times> nat \<times> bool" where
  "broadcast_command h clock session arguments =
     (case network_add_peer network_new (arguments ! 2) of
        (nw, False) \<Rightarrow> Inl Peer_not_added
      | (nw, True) \<Rightarrow>
     (case network_add_peer nw (arguments ! 3) of
        (nw, False) \<Rightarrow> Inl Peer_not_added
      | (nw, True) \<Rightarrow>
          (case broadcast_to_peers (ho_crypto h) (wire_size (ho_wire h)) clock
                  (broadcast_authenticated session) nw Sync_request of
             (nw, success_count, failure_count) \<Rightarrow>
               Inr (nw, success_count, failure_count, success_count = 2 \<and> failure_count = 0))))"

definition send_command :: "host \<Rightarrow> session_io \<Rightarrow> abort + unit" where
  "send_command h ss =
     expect (send_authenticated_message (ho_wire h) (ho_crypto h) (ss_clock ss) (ss_random ss)
       (ss_handshake_answers ss) (ss_answers ss 0) (ss_wallet h ss) ''127.0.0.1:7002'' (ss_dialled ss)
       Sync_request)"

section \<open>The three handshakes are refused\<close>

lemma test_handshake_challenge:
  "handshake_challenge (test_handshake cr w a network_id v t random) = Some (hex_encode cr random)"
  by (simp add: test_handshake_def handshake_challenge_def generate_handshake_challenge_def Let_def)

lemma test_handshake_invalid:
  assumes "network_id \<noteq> NETWORK_ID \<or> v \<noteq> NETWORK_PROTOCOL_VERSION \<or> \<not> handshake_timestamp_valid clock t"
  shows "\<not> message_within_limits cr msize clock (test_handshake cr w a network_id v t random)"
  using assms by (auto simp: message_within_limits_def test_handshake_def handshake_fields_valid_def Let_def
      split: option.split)

text \<open>The version and the network are wrong for every clock, the timestamp for one that is not behind.\<close>

definition refused_handshakes ::
  "crypto \<Rightarrow> u64 option \<Rightarrow> byte list \<Rightarrow> wallet \<Rightarrow> network_message set" where
  "refused_handshakes cr clock random w =
     {stale_handshake cr clock random w, wrong_version_handshake cr clock random w,
      wrong_network_handshake cr clock random w}"

lemma refused_handshake:
  assumes m: "m \<in> refused_handshakes cr (Some t) random w"
    and clocks: "121 \<le> unat t" "unat t \<le> unat now"
  shows "\<not> message_within_limits cr msize (Some now) m" "handshake_challenge m = Some (hex_encode cr random)"
proof -
  have "(121 :: u64) \<le> t" and age: "unat (t - 121) = unat t - 121"
    using clocks(1) by (simp_all add: word_le_nat_alt unat_sub)
  then have stale: "\<not> handshake_timestamp_valid (Some now) (t - 121)"
    using clocks unfolding handshake_timestamp_valid_iff age by linarith
  have "''wrong-kybernetes-network'' \<noteq> NETWORK_ID" "NETWORK_PROTOCOL_VERSION + 1 \<noteq> NETWORK_PROTOCOL_VERSION"
    by (simp_all add: NETWORK_ID_def NETWORK_PROTOCOL_VERSION_def)
  then obtain a network_id v t' where "m = test_handshake cr w a network_id v t' random"
    and "network_id \<noteq> NETWORK_ID \<or> v \<noteq> NETWORK_PROTOCOL_VERSION \<or> \<not> handshake_timestamp_valid (Some now) t'"
    using m stale \<open>121 \<le> t\<close>
    unfolding refused_handshakes_def stale_handshake_def wrong_version_handshake_def wrong_network_handshake_def
      current_timestamp_def MAX_HANDSHAKE_AGE_SECONDS_def Let_def by auto
  then show "\<not> message_within_limits cr msize (Some now) m" "handshake_challenge m = Some (hex_encode cr random)"
    using test_handshake_invalid test_handshake_challenge by blast+
qed

lemma refused_handshake_answered:
  assumes wire: "wire_spec wr" and m: "m \<in> refused_handshakes cr (Some t) random w"
    and clocks: "121 \<le> unat t" "unat t \<le> unat now" "clock 0 = Some now"
    and cn: "cn_incoming cn = frame_of wr m @ rest" "sendable wr m"
    and ack: "ack = create_handshake_ack cr (clock 1) w' False (hex_encode cr random)" "sendable wr ack"
  shows "authenticate_incoming wr cr clock all_written w' cn =
    (cn\<lparr>cn_incoming := rest, cn_outgoing := cn_outgoing cn @ frame_of wr ack\<rparr>,
     Inl (Transport_error Peer_handshake_invalid))"
proof -
  note refused = refused_handshake[OF m clocks(1,2)]
  have "\<not> validate_handshake cr (wire_size wr) (clock 0) m"
    using refused(1) clocks(3) by (simp add: validate_handshake_def)
  moreover have "send_message wr all_written (cn\<lparr>cn_incoming := rest\<rparr>) ack =
      (cn\<lparr>cn_incoming := rest, cn_outgoing := cn_outgoing cn @ frame_of wr ack\<rparr>, Inr ())"
    using ack(2) by (subst send_message_ok) simp
  ultimately show ?thesis
    using ack(1) by (simp add: authenticate_incoming_def read_message_frame[OF wire cn(2,1)] refused(2)
        del: One_nat_def)
qed

section \<open>Both ends of a transfer in parts\<close>

function part_starts :: "nat \<Rightarrow> nat \<Rightarrow> nat list" where
  "part_starts n i = (if i < n then i # part_starts n (i + test_chunk_size) else [])"
  by pat_completeness auto
termination part_starts
  by (relation "measure (\<lambda>(n, i). n - i)") (auto simp: test_chunk_size_def MAX_SYNC_BLOCKS_PER_MESSAGE_def)

declare part_starts.simps [simp del]

lemma test_chunk_size: "0 < test_chunk_size" "test_chunk_size \<le> MAX_SYNC_BLOCKS_PER_MESSAGE"
  by (simp_all add: test_chunk_size_def MAX_SYNC_BLOCKS_PER_MESSAGE_def)

lemma served_blocks_eq: "s < length chain \<Longrightarrow> served_blocks limit chain s = take limit (drop s chain)"
  by (simp add: served_blocks_def min_def)

abbreviation part_answer :: "block list \<Rightarrow> nat \<Rightarrow> network_message" where
  "part_answer chain i \<equiv> served_response test_chunk_size chain (word_of_nat i)"

abbreviation part_answers :: "wire \<Rightarrow> block list \<Rightarrow> nat list \<Rightarrow> byte list" where
  "part_answers wr chain starts \<equiv> concat (map (\<lambda>i. frame_of wr (part_answer chain i)) starts)"

definition part_servable :: "wire \<Rightarrow> block list \<Rightarrow> bool" where
  "part_servable wr chain \<longleftrightarrow> well_indexed chain \<and> length chain < 2 ^ 64 \<and>
     (\<forall>i<length chain. sendable wr (part_answer chain i) \<and>
        sendable wr (Chain_chunk_request (word_of_nat i)))"

lemma serve_parts_all:
  assumes wire: "wire_spec wr" and chain: "part_servable wr chain" and answers: "\<And>k. answers k = all_written"
    and "cn_incoming cn = requests_for wr (part_starts (length chain) s) @ rest" and "s < length chain"
  shows "serve_parts wr answers chain served cn =
    (cn\<lparr>cn_incoming := rest,
        cn_outgoing := cn_outgoing cn @ part_answers wr chain (part_starts (length chain) s)\<rparr>,
     Inr (served + length (part_starts (length chain) s)))"
  using assms(4-)
proof (induction "length chain" s arbitrary: served cn rule: part_starts.induct)
  case (1 s)
  let ?N = "length chain" and ?m = "s + test_chunk_size"
  have starts: "part_starts ?N s = s # part_starts ?N ?m"
    using 1(3) by (simp add: part_starts.simps[of ?N s])
  have "s < 2 ^ 64"
    using chain 1(3) by (simp add: part_servable_def)
  then have word: "unat (word_of_nat s :: u64) = s"
    by (rule unat_word_of_nat64)
  let ?cn1 = "cn\<lparr>cn_incoming := requests_for wr (part_starts ?N ?m) @ rest\<rparr>"
  let ?cn2 = "?cn1\<lparr>cn_outgoing := cn_outgoing cn @ frame_of wr (part_answer chain s)\<rparr>"
  have ok: "sendable wr (part_answer chain s)" "sendable wr (Chain_chunk_request (word_of_nat s))"
    using chain 1(3) unfolding part_servable_def by blast+
  have read: "read_message wr cn = (?cn1, Inr (Chain_chunk_request (word_of_nat s)))"
    by (rule read_message_frame[OF wire ok(2)]) (simp add: 1(2) starts)
  have sent: "send_message wr all_written ?cn1 (part_answer chain s) = (?cn2, Inr ())"
    using ok(1) by (subst send_message_ok) simp
  have len: "length (served_blocks test_chunk_size chain s) = min test_chunk_size (?N - s)"
    using 1(3) by (simp add: served_blocks_eq)
  show ?case
  proof (cases "?m < ?N")
    case True
    have "serve_parts wr answers chain (Suc served) ?cn2 =
        (?cn2\<lparr>cn_incoming := rest, cn_outgoing := cn_outgoing ?cn2 @ part_answers wr chain (part_starts ?N ?m)\<rparr>,
         Inr (Suc served + length (part_starts ?N ?m)))"
      by (rule 1(1)) (use 1(3) True in simp_all)
    then show ?thesis
      using True by (subst serve_parts.simps) (simp add: read answers sent word len starts)
  next
    case False
    then have "part_starts ?N ?m = []"
      by (simp add: part_starts.simps)
    then show ?thesis
      using False 1(3) sent by (subst serve_parts.simps) (simp add: read answers word len starts)
  qed
qed

lemma fetch_parts_all:
  assumes wire: "wire_spec wr" and chain: "part_servable wr chain" and answers: "\<And>k. answers k = all_written"
    and "cn_incoming cn = part_answers wr chain (part_starts (length chain) s) @ rest"
    and "receiving chain s nd" and "clear_transfer nd = nd0"
    and "expected = None \<or> expected = Some (word_of_nat (length chain))"
    and sync: "synchronize_chain pf (ticks (received + length (part_starts (length chain) s) - 1)) fs nd0 chain =
      (fs', nd', Inr ())"
  shows "fetch_parts wr pf answers ticks received (word_of_nat s) expected fs nd cn =
    (fs', nd', cn\<lparr>cn_incoming := rest,
        cn_outgoing := cn_outgoing cn @ requests_for wr (part_starts (length chain) s)\<rparr>,
     Inr (Some (word_of_nat (length chain)), received + length (part_starts (length chain) s)))"
  using assms(4-)
proof (induction "length chain" s arbitrary: received expected nd cn rule: part_starts.induct)
  case (1 s)
  let ?N = "length chain" and ?m = "s + test_chunk_size"
  have s: "s < ?N" and short: "?N < 2 ^ 64" and indexed: "well_indexed chain"
    using 1(3) chain by (simp_all add: receiving_def part_servable_def)
  have starts: "part_starts ?N s = s # part_starts ?N ?m"
    using s by (simp add: part_starts.simps[of ?N s])
  have word: "unat (word_of_nat s :: u64) = s" "unat (word_of_nat ?N :: u64) = ?N"
    using s short by (simp_all add: unat_word_of_nat64)
  let ?cn1 = "cn\<lparr>cn_outgoing := cn_outgoing cn @ frame_of wr (Chain_chunk_request (word_of_nat s))\<rparr>"
  let ?cn2 = "?cn1\<lparr>cn_incoming := part_answers wr chain (part_starts ?N ?m) @ rest\<rparr>"
  let ?part = "take test_chunk_size (drop s chain)"
  have ok: "sendable wr (part_answer chain s)" "sendable wr (Chain_chunk_request (word_of_nat s))"
    using chain s unfolding part_servable_def by blast+
  have sent: "send_message wr (answers received) cn (Chain_chunk_request (word_of_nat s)) = (?cn1, Inr ())"
    using ok(2) answers by (subst send_message_ok) simp
  have "read_message wr ?cn1 = (?cn2, Inr (part_answer chain s))"
    by (rule read_message_frame[OF wire ok(1)]) (simp add: 1(2) starts)
  then have read: "read_message wr ?cn1 =
      (?cn2, Inr (Chain_chunk_response (word_of_nat s) (word_of_nat ?N) ?part))"
    using s by (simp add: served_response_def word served_blocks_eq)
  have "(word_of_nat ?N :: u64) \<noteq> 0"
    using s word(2) by (metis less_nat_zero_code unsigned_0)
  then have checked: "check_response (word_of_nat s) expected (word_of_nat s) (word_of_nat ?N) ?part =
      Inr (Some (word_of_nat ?N))"
    using s 1(5) test_chunk_size by (auto simp: check_response_def)
  have applied: "apply_chain_chunk pf (ticks received) fs nd (word_of_nat s) (word_of_nat ?N) ?part =
    (if ?m < ?N
     then (fs, nd\<lparr>nd_sync_buffer := take ?m chain, nd_sync_expected_total := Some (word_of_nat ?N)\<rparr>,
           Inr (Some (word_of_nat ?m)))
     else case synchronize_chain pf (ticks received) fs (clear_transfer nd) chain of
            (fs, nd, Inl e) \<Rightarrow> (fs, nd, Inl e)
          | (fs, nd, Inr _) \<Rightarrow> (fs, nd, Inr None))"
    unfolding apply_chain_chunk_def
    by (rule accept_next_part[OF indexed short 1(3) test_chunk_size])
  show ?case
  proof (cases "?m < ?N")
    case True
    let ?nd = "nd\<lparr>nd_sync_buffer := take ?m chain, nd_sync_expected_total := Some (word_of_nat ?N)\<rparr>"
    have "fetch_parts wr pf answers ticks (Suc received) (word_of_nat ?m) (Some (word_of_nat ?N)) fs ?nd ?cn2 =
      (fs', nd', ?cn2\<lparr>cn_incoming := rest,
          cn_outgoing := cn_outgoing ?cn2 @ requests_for wr (part_starts ?N ?m)\<rparr>,
       Inr (Some (word_of_nat ?N), Suc received + length (part_starts ?N ?m)))"
    proof (rule 1(1))
      show "clear_transfer ?nd = nd0"
        using 1(4) by (simp add: clear_transfer_def)
    qed (use s True 1(6) starts in \<open>simp_all add: receiving_def\<close>)
    then show ?thesis
      using True by (subst fetch_parts.simps) (simp add: sent read checked applied starts)
  next
    case False
    then have last_part: "part_starts ?N ?m = []"
      by (simp add: part_starts.simps)
    then have "synchronize_chain pf (ticks received) fs (clear_transfer nd) chain = (fs', nd', Inr ())"
      using 1(4,6) by (simp add: starts)
    then show ?thesis
      using False by (subst fetch_parts.simps) (simp add: sent read checked applied starts last_part del: take_all take_all_iff)
  qed
qed

lemma part_starts_length: "length (part_starts n i) = (n - i + 3) div 4"
proof (induction n i rule: part_starts.induct)
  case (1 n i)
  have four: "test_chunk_size = 4"
    by (simp add: test_chunk_size_def MAX_SYNC_BLOCKS_PER_MESSAGE_def)
  show ?case
  proof (cases "i < n")
    case True
    then obtain d where d: "n = i + Suc d"
      using less_imp_Suc_add by auto
    have "n - (i + 4) + 3 = (if d < 3 then 3 else d)" "n - i + 3 = d + 4"
      using d by simp_all
    then have "Suc ((n - (i + 4) + 3) div 4) = (n - i + 3) div 4"
      by (simp only:) (simp split: if_split)
    with 1[OF True] show ?thesis
      by (subst part_starts.simps) (simp add: True four)
  next
    case False
    then show ?thesis
      by (subst part_starts.simps) simp
  qed
qed

lemma started_clear: "clear_transfer (started peer) = started peer"
  by (simp add: clear_transfer_def started_def node_new_with_data_directory_def)

text \<open>A node at the genesis fetches from a peer that serves its chain what the peer has.\<close>

lemma parts_session:
  fixes peer :: node
  defines "chain \<equiv> bc_chain (nd_blockchain peer)"
  defines "starts \<equiv> part_starts (length chain) 0"
  assumes wire: "wire_spec wr" and chain: "part_servable wr chain" and answers: "\<And>k. answers k = all_written"
    "\<And>k::nat. answers' k = all_written"
    and peer: "node_wf (pf_crypto pf) peer" "is_valid (pf_crypto pf) (nd_blockchain peer)" "1 < length chain"
    and clock: "clock_allows (ef_clock (ticks (length starts - 1))) 0 (tl chain)"
    and save: "node_save pf (ticks (length starts - 1)) fs peer chain = (fs', Inr ())"
    and requests: "cn_incoming cn' = requests_for wr starts @ rest'"
    and responses: "cn_incoming cn = part_answers wr chain starts @ rest"
  shows "serve_parts wr answers' chain 0 cn' =
      (cn'\<lparr>cn_incoming := rest', cn_outgoing := cn_outgoing cn' @ part_answers wr chain starts\<rparr>,
       Inr (length starts))"
    and "fetch_parts wr pf answers ticks 0 0 None fs (started peer) cn =
      (fs', (started peer)\<lparr>nd_blockchain := nd_blockchain peer, nd_state := nd_state peer\<rparr>,
       cn\<lparr>cn_incoming := rest, cn_outgoing := cn_outgoing cn @ requests_for wr starts\<rparr>,
       Inr (Some (word_of_nat (length chain)), length starts))"
proof -
  have "chain \<noteq> []"
    using peer(3) by auto
  then show "serve_parts wr answers' chain 0 cn' =
      (cn'\<lparr>cn_incoming := rest', cn_outgoing := cn_outgoing cn' @ part_answers wr chain starts\<rparr>,
       Inr (length starts))"
    using serve_parts_all[where answers = answers' and s = 0, OF wire chain answers(2), of cn' rest' 0] requests by (simp add: starts_def)
  have "synchronize_chain pf (ticks (length starts - 1)) fs (started peer) chain =
      (fs', (started peer)\<lparr>nd_blockchain := nd_blockchain peer, nd_state := nd_state peer\<rparr>, Inr ())"
    using restart_restores[OF peer(1,2) _ _ save[unfolded chain_def]] peer(3) clock
    by (simp add: chain_def restore_chain_from_storage_def)
  then show "fetch_parts wr pf answers ticks 0 0 None fs (started peer) cn =
      (fs', (started peer)\<lparr>nd_blockchain := nd_blockchain peer, nd_state := nd_state peer\<rparr>,
       cn\<lparr>cn_incoming := rest, cn_outgoing := cn_outgoing cn @ requests_for wr starts\<rparr>,
       Inr (Some (word_of_nat (length chain)), length starts))"
    using fetch_parts_all[where answers = answers and s = 0 and received = 0, OF wire chain answers(1),
        of cn rest "started peer" "started peer" None pf ticks fs]
      responses \<open>chain \<noteq> []\<close> by (simp add: starts_def receiving_def started_clear)
qed

section \<open>Broadcasts and listeners\<close>

lemma broadcast_authenticated_count:
  "(case broadcast_authenticated session peers m of (good, bad) \<Rightarrow> good + bad) = length peers"
  by (induction peers) (auto split: prod.splits sum.splits)

text \<open>The listener ends exactly when it was sent a handshake and a request to synchronize.\<close>

lemma listen_loop_ends:
  "is_ok (listen_loop cr msize clock i nw hs sy messages) \<longleftrightarrow>
     (hs \<or> list_ex (\<lambda>m. case m of Handshake _ _ _ _ _ _ _ _ \<Rightarrow> True | _ \<Rightarrow> False) messages) \<and>
     (sy \<or> Sync_request \<in> set messages)"
  by (induction messages arbitrary: i nw hs sy) (auto simp: is_ok_iff)

lemma listen_loop_wf:
  "network_wf nw \<Longrightarrow> listen_loop cr msize clock i nw hs sy messages = Inr nw' \<Longrightarrow> network_wf nw'"
proof (induction messages arbitrary: i nw hs sy)
  case Nil
  then show ?case by (simp split: if_splits)
next
  case (Cons m ms)
  then show ?case
    using Cons.IH[OF network_receive_wf[OF Cons.prems(1)]] by (simp split: if_splits)
qed

text \<open>What \<open>send\<close> sends makes \<open>listen\<close> register the sender and succeed.\<close>

lemma sender_registered:
  assumes cr: "crypto_spec (ho_crypto h)" and w: "wallet_wf (ho_crypto h) w" and random: "length random = 32"
    and m: "m = create_handshake (ho_crypto h) (Some t) random w ''127.0.0.1:7002''"
      "sendable (ho_wire h) m" "sendable (ho_wire h) Sync_request"
    and clock: "clock 0 = Some now" "unat t \<le> unat now + 120" "unat now \<le> unat t + 120"
  shows "\<exists>nw. listen_command h clock [m, Sync_request] = Inr (nw, True) \<and>
    nw_peer_identities nw = [\<lparr>pi_node_id = node_id w, pi_listen_address = ''127.0.0.1:7002''\<rparr>] \<and>
    nw_messages nw = [m, Sync_request]"
proof -
  let ?a = "''127.0.0.1:7002''" and ?size = "wire_size (ho_wire h)"
  have fits: "\<exists>n. ?size x = Some n \<and> n \<le> MAX_NETWORK_MESSAGE_BYTES" if "sendable (ho_wire h) x" for x
    using that by (auto simp: sendable_def wire_size_def)
  obtain pk nid v t' c s where shape: "m = Handshake (node_id w) pk ?a nid v t' c s"
    by (simp add: m(1) create_handshake_def Let_def)
  have "validate_handshake (ho_crypto h) ?size (clock 0) m"
    using create_handshake_valid(1)[OF cr w _ _ random m(1)[symmetric] _ _ clock(2,3)] fits[OF m(2)] clock(1)
    by (auto simp: MAX_PEER_ADDRESS_LENGTH_def)
  then have limits: "message_within_limits (ho_crypto h) ?size (clock 0) m"
    by (simp add: validate_handshake_def)
  have "is_fixed_hex (node_id w) ADDRESS_HEX_LENGTH" "?a \<noteq> ONE_SHOT_CLIENT_LISTEN_ADDRESS"
    "length ?a \<le> MAX_PEER_ADDRESS_LENGTH"
    using wallet_texts_fixed_hex(1)[OF cr w]
    by (simp_all add: node_id_def ONE_SHOT_CLIENT_LISTEN_ADDRESS_def MAX_PEER_ADDRESS_LENGTH_def)
  then have "register_peer_identity network_new (node_id w) ?a =
      (network_new\<lparr>nw_peers := [?a], nw_peer_identities := [\<lparr>pi_node_id = node_id w, pi_listen_address = ?a\<rparr>]\<rparr>,
       Registered)"
    by (simp add: register_peer_identity_def network_new_def MAX_NETWORK_PEERS_def)
  then have first: "network_receive (ho_crypto h) ?size (clock 0) network_new m =
      push_message_history (network_new\<lparr>nw_peers := [?a],
        nw_peer_identities := [\<lparr>pi_node_id = node_id w, pi_listen_address = ?a\<rparr>]\<rparr>) m"
    using limits by (simp add: network_receive_def shape)
  have second: "network_receive (ho_crypto h) ?size (clock 1) nw Sync_request =
      push_message_history nw Sync_request" for nw
    using fits[OF m(3)] by (auto simp: network_receive_def message_within_limits_def)
  show ?thesis
    by (simp add: listen_command_def first[unfolded shape] second[unfolded One_nat_def] shape identified_peer_count_def)
      (simp add: push_message_history_def network_new_def MAX_NETWORK_MESSAGE_HISTORY_def)
qed

end
