(* ===== verification/Demo.thy ===== *)
theory Demo
  imports Test_Modes
begin

text \<open>
  \<open>src/main.rs\<close>, the mode \<open>demo\<close>: two nodes in one process, Alice and Bob, that share a data
  directory. They exchange transactions and blocks, then Bob is attacked. Every test is a
  definition that gives the nodes afterwards and what it prints. The lemmas show that a
  consistent node passes every attack, and that the demo never gets to its attacks unless the
  wallets are those of the canonical validators.
\<close>

record demo =
  dm_disk :: file_system
  dm_alice :: node
  dm_bob :: node

text \<open>Why the demo ends early: an abort, or one of its two early returns.\<close>

datatype ending = Aborted abort | No_validator | No_first_block error

definition or_abort :: "abort + 'a \<Rightarrow> ending + 'a" where
  "or_abort r = (case r of Inl a \<Rightarrow> Inl (Aborted a) | Inr x \<Rightarrow> Inr x)"

section \<open>Before the nodes start\<close>

definition loopback_test ::
  "wire \<Rightarrow> send_answers \<Rightarrow> connection result \<Rightarrow> (connection \<times> string) result \<Rightarrow> abort + bool" where
  "loopback_test wr answers dialled accepted =
     and_then (expect (send_to wr answers dialled Sync_request)) (\<lambda>_.
     and_then (expect (accept_one wr accepted)) (\<lambda>(received_message, peer).
       Inr (received_message = Sync_request)))"

definition demo_wallets ::
  "crypto \<Rightarrow> wallet_vault \<Rightarrow> key_io \<Rightarrow> io \<Rightarrow> byte list \<Rightarrow> byte list \<Rightarrow> file_system \<Rightarrow> string \<Rightarrow> string \<Rightarrow>
   file_system \<times> (abort + wallet \<times> wallet)" where
  "demo_wallets cr wv kio rename_io alice_key bob_key fs dir password =
     (case load_wallet_private_keys cr wv kio rename_io fs dir password of
        (fs, Inr (Some (alice_private_key, bob_private_key))) \<Rightarrow>
          (fs, and_then (expect (from_private_key_hex cr alice_private_key)) (\<lambda>alice_wallet.
               and_then (expect (from_private_key_hex cr bob_private_key)) (\<lambda>bob_wallet.
                 Inr (alice_wallet, bob_wallet))))
      | (fs, Inr None) \<Rightarrow>
          (let alice_wallet = wallet_new cr alice_key; bob_wallet = wallet_new cr bob_key in
           case save_wallet_private_keys cr wv kio rename_io fs dir password
                  (private_key_hex cr alice_wallet) (private_key_hex cr bob_wallet) of
             (fs, r) \<Rightarrow> (fs, and_then (expect r) (\<lambda>_. Inr (alice_wallet, bob_wallet))))
      | (fs, Inl e) \<Rightarrow> (fs, Inl (Unexpected_error e)))"

text \<open>Whether the address was restored is printed; an identity that does not verify is a panic.\<close>

definition identity_test :: "crypto \<Rightarrow> u64 option \<Rightarrow> byte list \<Rightarrow> wallet \<Rightarrow> abort + bool" where
  "identity_test cr clock random alice_wallet =
     and_then (expect (from_private_key_hex cr (private_key_hex cr alice_wallet))) (\<lambda>restored_alice_wallet.
       let restored = (w_address restored_alice_wallet = w_address alice_wallet);
           timestamp = current_timestamp clock;
           challenge = generate_handshake_challenge cr random;
           signature = sign_node_handshake cr alice_wallet ''127.0.0.1:7002'' NETWORK_ID
                         NETWORK_PROTOCOL_VERSION timestamp challenge
       in if \<not> verify_node_handshake cr (node_id alice_wallet) (public_key_hex cr alice_wallet)
                 ''127.0.0.1:7002'' NETWORK_ID NETWORK_PROTOCOL_VERSION timestamp challenge signature
          then Inl Basic_validation_failed else Inr restored)"

definition demo_nodes :: "crypto \<Rightarrow> string option \<Rightarrow> string option \<Rightarrow> file_system \<Rightarrow> abort + demo" where
  "demo_nodes cr kybernetes_dir aion_dir fs =
     and_then (expect (canonical_bootstrap cr)) (\<lambda>alice_bootstrap.
     and_then (expect (canonical_bootstrap cr)) (\<lambda>bob_bootstrap.
       Inr \<lparr>dm_disk = fs,
            dm_alice = node_new kybernetes_dir aion_dir (cb_blockchain alice_bootstrap)
              (cb_state alice_bootstrap) (cb_consensus alice_bootstrap),
            dm_bob = node_new kybernetes_dir aion_dir (cb_blockchain bob_bootstrap)
              (cb_state bob_bootstrap) (cb_consensus bob_bootstrap)\<rparr>))"

section \<open>Transactions and blocks between the nodes\<close>

definition bob_receives :: "platform \<Rightarrow> effects \<Rightarrow> demo \<Rightarrow> network_message \<Rightarrow> abort + demo" where
  "bob_receives pf ef d message =
     (case receive_message pf ef (dm_disk d) (dm_bob d) message of
        (fs, nd, Inl e) \<Rightarrow> Inl (Unexpected_error e)
      | (fs, nd, Inr _) \<Rightarrow> Inr (d\<lparr>dm_disk := fs, dm_bob := nd\<rparr>))"

text \<open>A transfer goes to Alice, then to Bob; the calls of the demo take the effects by their number.\<close>

definition demo_transfer ::
  "platform \<Rightarrow> (nat \<Rightarrow> effects) \<Rightarrow> nat \<Rightarrow> demo \<Rightarrow> wallet \<Rightarrow> string \<Rightarrow> u64 \<Rightarrow> u64 \<Rightarrow> abort + demo \<times> bool" where
  "demo_transfer pf ticks n d w receiver amount nonce =
     (let fee = calculate_fee (bc_economy (nd_blockchain (dm_alice d))) amount;
          transaction = signed_transfer (pf_crypto pf) w receiver amount fee nonce;
          (alice, added) = node_add_transaction pf (ticks n) (dm_alice d) transaction
      in and_then (bob_receives pf (ticks (n + 1)) (d\<lparr>dm_alice := alice\<rparr>) (Transaction_message transaction))
           (\<lambda>d. Inr (d, added)))"

definition tip_of :: "node \<Rightarrow> abort + block" where
  "tip_of nd = (if bc_chain (nd_blockchain nd) = [] then Inl Nothing_there
                else Inr (last (bc_chain (nd_blockchain nd))))"

definition wallet_of_turn :: "wallet \<Rightarrow> wallet \<Rightarrow> string \<Rightarrow> wallet" where
  "wallet_of_turn alice_wallet bob_wallet selected =
     (if selected = w_address alice_wallet then alice_wallet else bob_wallet)"

definition demo_select :: "platform \<Rightarrow> demo \<Rightarrow> wallet \<Rightarrow> wallet \<Rightarrow> ending + wallet" where
  "demo_select pf d alice_wallet bob_wallet =
     and_then (or_abort (tip_of (dm_alice d))) (\<lambda>tip.
     and_then (or_abort (expect (node_select_validator pf (dm_alice d) (blk_hash tip)))) (\<lambda>selection.
       case selection of
         None \<Rightarrow> Inl No_validator
       | Some selected \<Rightarrow> Inr (wallet_of_turn alice_wallet bob_wallet selected)))"

text \<open>A produced block goes to Bob.\<close>

definition demo_produce ::
  "platform \<Rightarrow> (nat \<Rightarrow> effects) \<Rightarrow> nat \<Rightarrow> demo \<Rightarrow> u64 \<Rightarrow> wallet \<Rightarrow> abort + demo \<times> block result" where
  "demo_produce pf ticks n d timestamp w =
     (case produce_block pf (ticks n) (dm_disk d) (dm_alice d) timestamp w of
        (fs, nd, Inr block) \<Rightarrow>
          and_then (bob_receives pf (ticks (n + 1)) (d\<lparr>dm_disk := fs, dm_alice := nd\<rparr>) (Block_message block))
            (\<lambda>d. Inr (d, Inr block))
      | (fs, nd, Inl e) \<Rightarrow>
          if is_panic e then Inl (Unexpected_error e)
          else Inr (d\<lparr>dm_disk := fs, dm_alice := nd\<rparr>, Inl e))"

text \<open>
  Peers and a first request (\<open>sync_network\<close> only prints), then the first block, whose failure ends
  the demo.
\<close>

definition demo_first_block ::
  "platform \<Rightarrow> (nat \<Rightarrow> effects) \<Rightarrow> wallet \<Rightarrow> wallet \<Rightarrow> demo \<Rightarrow> ending + demo \<times> bool" where
  "demo_first_block pf ticks alice_wallet bob_wallet d =
     (let d = d\<lparr>dm_alice := fst (node_add_peer (dm_alice d) ''BOB_NODE''),
                dm_bob := fst (node_add_peer (dm_bob d) ''ALICE_NODE'')\<rparr>;
          d = d\<lparr>dm_alice := node_broadcast pf (ticks 0) (dm_alice d) Sync_request\<rparr>
      in and_then (or_abort (bob_receives pf (ticks 1) d Sync_request)) (\<lambda>d.
         and_then (demo_select pf d alice_wallet bob_wallet) (\<lambda>w.
         and_then (or_abort (demo_transfer pf ticks 3 d alice_wallet (w_address bob_wallet) 50000000 0))
           (\<lambda>(d, added).
         and_then (or_abort (demo_produce pf ticks 5 d 1754690100 w)) (\<lambda>(d, r).
           case r of Inl e \<Rightarrow> Inl (No_first_block e) | Inr block \<Rightarrow> Inr (d, added))))))"

text \<open>The second block; its failure is only printed.\<close>

definition demo_second_block ::
  "platform \<Rightarrow> (nat \<Rightarrow> effects) \<Rightarrow> wallet \<Rightarrow> wallet \<Rightarrow> demo \<Rightarrow> ending + demo \<times> bool \<times> block result" where
  "demo_second_block pf ticks alice_wallet bob_wallet d =
     and_then (or_abort (demo_transfer pf ticks 7 d bob_wallet (w_address alice_wallet) 10000000 0))
       (\<lambda>(d, added_second).
     and_then (demo_select pf d alice_wallet bob_wallet) (\<lambda>w.
     and_then (or_abort (demo_produce pf ticks 9 d 1754690200 w)) (\<lambda>(d, r).
       Inr (d, added_second, r))))"

text \<open>Three transactions of one sender queue up by their nonces, and the third block takes them.\<close>

definition demo_nonce_queue ::
  "platform \<Rightarrow> (nat \<Rightarrow> effects) \<Rightarrow> wallet \<Rightarrow> wallet \<Rightarrow> demo \<Rightarrow> abort + demo \<times> bool list" where
  "demo_nonce_queue pf ticks alice_wallet bob_wallet d =
     and_then (demo_transfer pf ticks 11 d alice_wallet (w_address bob_wallet) 1000000 1) (\<lambda>(d, added_1).
     and_then (demo_transfer pf ticks 13 d alice_wallet (w_address bob_wallet) 2000000 2) (\<lambda>(d, added_2).
     and_then (demo_transfer pf ticks 15 d alice_wallet (w_address bob_wallet) 3000000 3) (\<lambda>(d, added_3).
       Inr (d, [added_1, added_2, added_3]))))"

definition demo_third_block ::
  "platform \<Rightarrow> (nat \<Rightarrow> effects) \<Rightarrow> wallet \<Rightarrow> wallet \<Rightarrow> demo \<Rightarrow> ending + demo \<times> nat result" where
  "demo_third_block pf ticks alice_wallet bob_wallet d =
     and_then (demo_select pf d alice_wallet bob_wallet) (\<lambda>w.
     and_then (or_abort (demo_produce pf ticks 17 d 1754690300 w)) (\<lambda>(d, r).
       Inr (d, and_then r (\<lambda>block.
         Inr (length (filter (\<lambda>transaction. \<not> tx_coinbase transaction) (blk_transactions block)))))))"

section \<open>A chain and a fork of the same length\<close>

definition demo_chain_sync :: "platform \<Rightarrow> (nat \<Rightarrow> effects) \<Rightarrow> demo \<Rightarrow> abort + demo" where
  "demo_chain_sync pf ticks d =
     (let d = d\<lparr>dm_bob := request_chain pf (ticks 19) (dm_bob d)\<rparr>;
          alice_chain = bc_chain (nd_blockchain (dm_alice d))
      in bob_receives pf (ticks 20) d
           (Chain_chunk_response 0 (word_of_nat (length alice_chain)) alice_chain))"

text \<open>The last block of a chain with a later timestamp and its own hash.\<close>

definition fake_fork :: "crypto \<Rightarrow> block list \<Rightarrow> abort + block list" where
  "fake_fork cr chain =
     (if chain = [] then Inr []
      else and_then (expect_some (checked_add (blk_timestamp (last chain)) 1)) (\<lambda>timestamp.
        let fake_tip = (last chain)\<lparr>blk_timestamp := timestamp\<rparr>
        in Inr (butlast chain @ [fake_tip\<lparr>blk_hash := calculate_hash cr fake_tip\<rparr>])))"

text \<open>Whether Bob keeps his tip is printed.\<close>

definition fake_fork_test :: "platform \<Rightarrow> effects \<Rightarrow> demo \<Rightarrow> abort + demo \<times> bool" where
  "fake_fork_test pf ef d =
     and_then (tip_of (dm_bob d)) (\<lambda>tip_before.
     and_then (fake_fork (pf_crypto pf) (bc_chain (nd_blockchain (dm_alice d)))) (\<lambda>fake_fork_chain.
     and_then (if fake_fork_chain = [] then Inl Nothing_there else Inr ()) (\<lambda>_.
     and_then (bob_receives pf ef d (Chain_chunk_response 0 (word_of_nat (length fake_fork_chain)) fake_fork_chain))
       (\<lambda>d.
     and_then (tip_of (dm_bob d)) (\<lambda>tip_after. Inr (d, blk_hash tip_before = blk_hash tip_after))))))"

section \<open>Forged blocks\<close>

text \<open>A copy of the tip that claims to follow it.\<close>

definition claims_next :: "block \<Rightarrow> abort + block" where
  "claims_next tip =
     and_then (expect_some (checked_add (blk_index tip) 1)) (\<lambda>index.
       Inr (tip\<lparr>blk_index := index, blk_previous_hash := blk_hash tip\<rparr>))"

definition one_later :: "block \<Rightarrow> block \<Rightarrow> abort + block" where
  "one_later tip b =
     and_then (expect_some (checked_add (blk_timestamp tip) 1)) (\<lambda>timestamp.
       Inr (b\<lparr>blk_timestamp := timestamp\<rparr>))"

definition rehashed :: "crypto \<Rightarrow> block \<Rightarrow> block" where
  "rehashed cr b = b\<lparr>blk_hash := calculate_hash cr b\<rparr>"

definition duplicate_transaction_block :: "crypto \<Rightarrow> block \<Rightarrow> abort + block" where
  "duplicate_transaction_block cr tip =
     and_then (claims_next tip) (\<lambda>b. and_then (one_later tip b) (\<lambda>b. Inr (rehashed cr b)))"

definition fake_timestamp_block :: "crypto \<Rightarrow> block \<Rightarrow> abort + block" where
  "fake_timestamp_block cr tip =
     and_then (claims_next tip) (\<lambda>b.
       Inr (rehashed cr (b\<lparr>blk_timestamp := blk_timestamp tip, blk_transactions := []\<rparr>)))"

definition fake_future_block :: "crypto \<Rightarrow> block \<Rightarrow> abort + block" where
  "fake_future_block cr tip =
     and_then (claims_next tip) (\<lambda>b.
       Inr (rehashed cr (b\<lparr>blk_timestamp := 4000000000, blk_transactions := []\<rparr>)))"

definition oversized_block :: "crypto \<Rightarrow> block \<Rightarrow> abort + block" where
  "oversized_block cr tip =
     and_then (claims_next tip) (\<lambda>b.
     and_then (one_later tip b) (\<lambda>b.
     and_then (expect_some (find (\<lambda>transaction. \<not> tx_coinbase transaction) (blk_transactions tip)))
       (\<lambda>filler_transaction.
         let transactions = blk_transactions b @
               replicate (1002 - length (blk_transactions b)) filler_transaction
         in Inr (rehashed cr (b\<lparr>blk_transactions := transactions\<rparr>)))))"

text \<open>Here the hash stays that of the tip.\<close>

definition large_block_field :: "block \<Rightarrow> abort + block" where
  "large_block_field tip =
     and_then (claims_next tip) (\<lambda>b.
     and_then (one_later tip b) (\<lambda>b.
       Inr (b\<lparr>blk_validator := replicate 129 CHR ''V''\<rparr>)))"

text \<open>A forged block is sent to Bob; whether his chain keeps its length is printed.\<close>

definition block_attack ::
  "platform \<Rightarrow> effects \<Rightarrow> (block \<Rightarrow> abort + block) \<Rightarrow> demo \<Rightarrow> abort + demo \<times> bool" where
  "block_attack pf ef forge d =
     (let length_before = length (bc_chain (nd_blockchain (dm_bob d)))
      in and_then (tip_of (dm_bob d)) (\<lambda>tip.
         and_then (forge tip) (\<lambda>b.
         and_then (bob_receives pf ef d (Block_message b)) (\<lambda>d.
           Inr (d, length_before = length (bc_chain (nd_blockchain (dm_bob d))))))))"

text \<open>The same block, past the node.\<close>

definition direct_blockchain_test :: "platform \<Rightarrow> u64 option \<Rightarrow> demo \<Rightarrow> abort + demo \<times> bool" where
  "direct_blockchain_test pf clock d =
     (let bc = nd_blockchain (dm_bob d)
      in and_then (tip_of (dm_bob d)) (\<lambda>tip.
         and_then (large_block_field tip) (\<lambda>b.
           case add_received_block (pf_crypto pf) clock bc b of
             Inl e \<Rightarrow> if is_panic e then Inl (Unexpected_error e) else Inr (d, True)
           | Inr bc' \<Rightarrow> Inr (d\<lparr>dm_bob := (dm_bob d)\<lparr>nd_blockchain := bc'\<rparr>\<rparr>, False))))"

section \<open>Limits\<close>

definition limit_transactions ::
  "crypto \<Rightarrow> economy \<Rightarrow> wallet \<Rightarrow> wallet \<Rightarrow> u64 \<Rightarrow> abort + transaction list" where
  "limit_transactions cr e alice_wallet bob_wallet test_start_nonce =
     try_fold (\<lambda>transactions offset.
       and_then (expect_some (checked_add test_start_nonce (word_of_nat offset))) (\<lambda>nonce.
         Inr (transactions @ [signed_transfer cr alice_wallet (w_address bob_wallet) 1 (calculate_fee e 1) nonce])))
       [] [0..<1001]"

definition with_mempool :: "demo \<Rightarrow> transaction list \<Rightarrow> demo" where
  "with_mempool d transactions =
     d\<lparr>dm_alice := (dm_alice d)\<lparr>nd_mempool := (nd_mempool (dm_alice d))\<lparr>mp_transactions := transactions\<rparr>\<rparr>\<rparr>"

definition block_limit_test :: "platform \<Rightarrow> wallet \<Rightarrow> wallet \<Rightarrow> demo \<Rightarrow> abort + demo \<times> bool" where
  "block_limit_test pf alice_wallet bob_wallet d =
     and_then (limit_transactions (pf_crypto pf) (bc_economy (nd_blockchain (dm_alice d))) alice_wallet bob_wallet
                (nonce_of (nd_state (dm_alice d)) (w_address alice_wallet))) (\<lambda>transactions.
       case take_valid_transactions (nd_mempool (dm_alice (with_mempool d transactions))) (nd_state (dm_alice d)) of
         (mempool, selected_transactions) \<Rightarrow>
           Inr (with_mempool d [], length selected_transactions = 1000 \<and> mempool_len mempool = 1))"

definition mempool_capacity_test :: "platform \<Rightarrow> wallet \<Rightarrow> wallet \<Rightarrow> demo \<Rightarrow> demo \<times> bool" where
  "mempool_capacity_test pf alice_wallet bob_wallet d =
     (let cr = pf_crypto pf;
          capacity_probe = signed_transfer cr alice_wallet (w_address bob_wallet) 1
            (calculate_fee (bc_economy (nd_blockchain (dm_alice d))) 1)
            (nonce_of (nd_state (dm_alice d)) (w_address alice_wallet));
          full = with_mempool d (replicate 10000 capacity_probe);
          (mempool, accepted_over_capacity) = mempool_add cr (nd_mempool (dm_alice full)) capacity_probe
      in (with_mempool d [], \<not> accepted_over_capacity \<and> mempool_len mempool = 10000))"

section \<open>Forged transactions\<close>

text \<open>A transfer of Alice whose receiver is replaced after it was signed.\<close>

definition redirected_transfer :: "crypto \<Rightarrow> demo \<Rightarrow> wallet \<Rightarrow> wallet \<Rightarrow> string \<Rightarrow> transaction" where
  "redirected_transfer cr d alice_wallet bob_wallet receiver =
     (signed_transfer cr alice_wallet (w_address bob_wallet) 1000000
        (calculate_fee (bc_economy (nd_blockchain (dm_bob d))) 1000000)
        (nonce_of (nd_state (dm_alice d)) (w_address alice_wallet)))\<lparr>tx_to := receiver\<rparr>"

definition large_receiver :: string where
  "large_receiver = replicate 129 CHR ''X''"

definition short_receiver :: string where
  "short_receiver = ''1234567890abcdef1234''"

definition non_hex_receiver :: string where
  "non_hex_receiver = replicate 63 CHR ''a'' @ ''Z''"

text \<open>Sent to Bob; whether his mempool keeps its length is printed.\<close>

definition transaction_attack :: "platform \<Rightarrow> effects \<Rightarrow> wallet \<Rightarrow> wallet \<Rightarrow> string \<Rightarrow> demo \<Rightarrow> abort + demo \<times> bool" where
  "transaction_attack pf ef alice_wallet bob_wallet receiver d =
     (let length_before = mempool_len (nd_mempool (dm_bob d));
          transaction = redirected_transfer (pf_crypto pf) d alice_wallet bob_wallet receiver
      in and_then (bob_receives pf ef d (Transaction_message transaction)) (\<lambda>d.
           Inr (d, length_before = mempool_len (nd_mempool (dm_bob d)))))"

text \<open>Past the node.\<close>

definition direct_mempool_test :: "platform \<Rightarrow> wallet \<Rightarrow> wallet \<Rightarrow> string \<Rightarrow> demo \<Rightarrow> demo \<times> bool" where
  "direct_mempool_test pf alice_wallet bob_wallet receiver d =
     (let length_before = mempool_len (nd_mempool (dm_bob d));
          transaction = redirected_transfer (pf_crypto pf) d alice_wallet bob_wallet receiver;
          (mempool, accepted) = mempool_add (pf_crypto pf) (nd_mempool (dm_bob d)) transaction
      in (d\<lparr>dm_bob := (dm_bob d)\<lparr>nd_mempool := mempool\<rparr>\<rparr>, \<not> accepted \<and> length_before = mempool_len mempool))"

text \<open>The last receiver is tried on the node and then past it, both against the same length.\<close>

definition non_hex_test :: "platform \<Rightarrow> effects \<Rightarrow> wallet \<Rightarrow> wallet \<Rightarrow> demo \<Rightarrow> abort + demo \<times> bool \<times> bool" where
  "non_hex_test pf ef alice_wallet bob_wallet d =
     (let length_before = mempool_len (nd_mempool (dm_bob d));
          transaction = redirected_transfer (pf_crypto pf) d alice_wallet bob_wallet non_hex_receiver
      in and_then (bob_receives pf ef d (Transaction_message transaction)) (\<lambda>d.
           let node_rejected = (mempool_len (nd_mempool (dm_bob d)) = length_before);
               (mempool, accepted) = mempool_add (pf_crypto pf) (nd_mempool (dm_bob d)) transaction
           in Inr (d\<lparr>dm_bob := (dm_bob d)\<lparr>nd_mempool := mempool\<rparr>\<rparr>, node_rejected,
                \<not> accepted \<and> mempool_len mempool = length_before)))"

section \<open>A chunk over the limit\<close>

definition oversized_chunk_test :: "platform \<Rightarrow> effects \<Rightarrow> effects \<Rightarrow> demo \<Rightarrow> abort + demo \<times> bool \<times> bool" where
  "oversized_chunk_test pf ef ef' d =
     and_then (tip_of (dm_bob d)) (\<lambda>tip.
       let oversized_chunk = replicate 257 tip;
           message = Chain_chunk_response 0 257 oversized_chunk;
           count_before = message_count (nd_network (dm_bob d));
           d = d\<lparr>dm_bob := node_network_receive pf ef (dm_bob d) message\<rparr>;
           network_rejected = (count_before = message_count (nd_network (dm_bob d)));
           length_before = length (bc_chain (nd_blockchain (dm_bob d)))
       in and_then (bob_receives pf ef' d message) (\<lambda>d.
            Inr (d, network_rejected, length_before = length (bc_chain (nd_blockchain (dm_bob d))))))"

section \<open>The chain on the disk, and the whole demo\<close>

text \<open>Whether the chain that was read back is the one that was saved; nothing if a step failed.\<close>

definition demo_persistence ::
  "platform \<Rightarrow> effects \<Rightarrow> io_read \<Rightarrow> string \<Rightarrow> demo \<Rightarrow> demo \<times> bool option" where
  "demo_persistence pf ef rio dir d =
     (let chain = bc_chain (nd_blockchain (dm_alice d)) in
      case save_blockchain_to (pf_json pf) (ef_io ef) (dm_disk d) dir chain of
        (fs, Inl e) \<Rightarrow> (d\<lparr>dm_disk := fs\<rparr>, None)
      | (fs, Inr _) \<Rightarrow>
          (d\<lparr>dm_disk := fs\<rparr>,
           case load_blockchain_from (pf_json pf) rio fs dir of
             Inr (Some loaded_chain) \<Rightarrow>
               Some (length loaded_chain = length chain \<and>
                 (if loaded_chain = [] then None else Some (blk_hash (last loaded_chain))) =
                 (if chain = [] then None else Some (blk_hash (last chain))))
           | _ \<Rightarrow> None))"

text \<open>With a stored chain both nodes go on from it: one transaction, one block.\<close>

definition demo_resume ::
  "platform \<Rightarrow> (nat \<Rightarrow> effects) \<Rightarrow> string \<Rightarrow> wallet \<Rightarrow> wallet \<Rightarrow> demo \<Rightarrow> block list \<Rightarrow> abort + demo \<times> bool" where
  "demo_resume pf ticks dir alice_wallet bob_wallet d saved_chain =
     (if saved_chain = [] then Inl Nothing_there
      else case restore_chain_from_storage pf (ticks 0) (dm_disk d) (dm_alice d) saved_chain of
        (fs, alice, Inl e) \<Rightarrow> Inl (Unexpected_error e)
      | (fs, alice, Inr _) \<Rightarrow>
     (case restore_chain_from_storage pf (ticks 1) fs (dm_bob d) saved_chain of
        (fs, bob, Inl e) \<Rightarrow> Inl (Unexpected_error e)
      | (fs, bob, Inr _) \<Rightarrow>
          (let d = \<lparr>dm_disk = fs, dm_alice = alice, dm_bob = bob\<rparr> in
           and_then (demo_transfer pf ticks 2 d alice_wallet (w_address bob_wallet) 1000000
                       (nonce_of (nd_state alice) (w_address alice_wallet))) (\<lambda>(d, restart_tx_added).
           and_then (tip_of (dm_alice d)) (\<lambda>previous_block.
           and_then (expect (node_select_validator pf (dm_alice d) (blk_hash previous_block))) (\<lambda>selection.
           and_then (expect_some selection) (\<lambda>selected.
           and_then (expect_some (checked_add (blk_timestamp previous_block) 100)) (\<lambda>restart_timestamp.
           and_then (demo_produce pf ticks 4 d restart_timestamp
                       (wallet_of_turn alice_wallet bob_wallet selected)) (\<lambda>(d, r).
           and_then (expect r) (\<lambda>restart_block.
             let alice_blockchain = nd_blockchain (dm_alice d); bob_blockchain = nd_blockchain (dm_bob d);
                 expected_block_count = length saved_chain + 1;
                 continuation_ok = (length (bc_chain alice_blockchain) = expected_block_count \<and>
                   length (bc_chain bob_blockchain) = expected_block_count \<and>
                   is_valid (pf_crypto pf) alice_blockchain \<and> is_valid (pf_crypto pf) bob_blockchain)
             in case save_blockchain_to (pf_json pf) (ef_io (ticks 6)) (dm_disk d) dir
                       (bc_chain alice_blockchain) of
                  (fs, Inl e) \<Rightarrow> Inl (Unexpected_error e)
                | (fs, Inr _) \<Rightarrow> Inr (d\<lparr>dm_disk := fs\<rparr>, continuation_ok)))))))))))"

text \<open>The attacks in their order, with what each prints.\<close>

definition demo_attacks ::
  "platform \<Rightarrow> (nat \<Rightarrow> effects) \<Rightarrow> wallet \<Rightarrow> wallet \<Rightarrow> demo \<Rightarrow> abort + demo \<times> bool list" where
  "demo_attacks pf ticks alice_wallet bob_wallet d =
     (let cr = pf_crypto pf in
      and_then (fake_fork_test pf (ticks 21) d) (\<lambda>(d, fork).
      and_then (block_attack pf (ticks 22) (duplicate_transaction_block cr) d) (\<lambda>(d, duplicate).
      and_then (block_attack pf (ticks 23) (fake_timestamp_block cr) d) (\<lambda>(d, equal_time).
      and_then (block_attack pf (ticks 24) (fake_future_block cr) d) (\<lambda>(d, future).
      and_then (block_limit_test pf alice_wallet bob_wallet d) (\<lambda>(d, limit).
      case mempool_capacity_test pf alice_wallet bob_wallet d of (d, capacity) \<Rightarrow>
      and_then (block_attack pf (ticks 25) (oversized_block cr) d) (\<lambda>(d, oversized).
      and_then (transaction_attack pf (ticks 26) alice_wallet bob_wallet large_receiver d) (\<lambda>(d, large).
      and_then (block_attack pf (ticks 27) large_block_field d) (\<lambda>(d, large_block).
      and_then (direct_blockchain_test pf (ef_clock (ticks 28) 0) d) (\<lambda>(d, direct_blockchain).
      and_then (transaction_attack pf (ticks 29) alice_wallet bob_wallet short_receiver d) (\<lambda>(d, short).
      case direct_mempool_test pf alice_wallet bob_wallet short_receiver d of (d, direct_short) \<Rightarrow>
      and_then (non_hex_test pf (ticks 30) alice_wallet bob_wallet d) (\<lambda>(d, non_hex, direct_non_hex).
      and_then (oversized_chunk_test pf (ticks 31) (ticks 32) d) (\<lambda>(d, chunk_network, chunk_node).
        Inr (d, [fork, duplicate, equal_time, future, limit, capacity, oversized, large, large_block,
          direct_blockchain, short, direct_short, non_hex, direct_non_hex, chunk_network, chunk_node]))))))))))))))"

definition demo_fresh ::
  "platform \<Rightarrow> (nat \<Rightarrow> effects) \<Rightarrow> wallet \<Rightarrow> wallet \<Rightarrow> demo \<Rightarrow> ending + demo \<times> bool list" where
  "demo_fresh pf ticks alice_wallet bob_wallet d =
     and_then (demo_first_block pf ticks alice_wallet bob_wallet d) (\<lambda>(d, added).
     and_then (demo_second_block pf ticks alice_wallet bob_wallet d) (\<lambda>(d, added_second, second_block).
     and_then (or_abort (demo_nonce_queue pf ticks alice_wallet bob_wallet d)) (\<lambda>(d, queued).
     and_then (demo_third_block pf ticks alice_wallet bob_wallet d) (\<lambda>(d, third_block).
     and_then (or_abort (demo_chain_sync pf ticks d)) (\<lambda>d.
       or_abort (demo_attacks pf ticks alice_wallet bob_wallet d))))))"

definition demo_run ::
  "platform \<Rightarrow> (nat \<Rightarrow> effects) \<Rightarrow> io_read \<Rightarrow> string \<Rightarrow> wallet \<Rightarrow> wallet \<Rightarrow> demo \<Rightarrow> ending + demo \<times> bool list" where
  "demo_run pf ticks rio dir alice_wallet bob_wallet d =
     (case load_blockchain_from (pf_json pf) rio (dm_disk d) dir of
        Inl e \<Rightarrow> Inl (Aborted (Unexpected_error e))
      | Inr (Some saved_chain) \<Rightarrow>
          and_then (or_abort (demo_resume pf ticks dir alice_wallet bob_wallet d saved_chain))
            (\<lambda>(d, continuation_ok). Inr (d, [continuation_ok]))
      | Inr None \<Rightarrow>
          and_then (demo_fresh pf ticks alice_wallet bob_wallet d) (\<lambda>(d, results).
            case demo_persistence pf (ticks 33) rio dir d of
              (d, Some same) \<Rightarrow> Inr (d, results @ [same])
            | (d, None) \<Rightarrow> Inr (d, results)))"

text \<open>The whole mode, from the password on: the tests before the nodes start, then the run.\<close>

definition LEGACY_WALLET_PASSWORD_ENV :: string where
  "LEGACY_WALLET_PASSWORD_ENV = ''AION_WALLET_PASSWORD''"

definition demo_command ::
  "host \<Rightarrow> wallet_vault \<Rightarrow> io \<Rightarrow> byte list \<Rightarrow> byte list \<Rightarrow> send_answers \<Rightarrow> connection result \<Rightarrow>
   (connection \<times> string) result \<Rightarrow> u64 option \<Rightarrow> byte list \<Rightarrow> file_system \<Rightarrow> ending + demo \<times> bool list" where
  "demo_command h wv rename_io alice_key bob_key answers dialled accepted clock random fs =
     (let cr = ho_crypto h; dir = configured_directory h in
      and_then (or_abort (expect_some (case ho_var h WALLET_PASSWORD_ENV of
                  Some password \<Rightarrow> Some password
                | None \<Rightarrow> ho_var h LEGACY_WALLET_PASSWORD_ENV))) (\<lambda>wallet_password.
      and_then (or_abort (loopback_test (ho_wire h) answers dialled accepted)) (\<lambda>loopback_ok.
      case demo_wallets cr wv (ho_key_io h) rename_io alice_key bob_key fs dir wallet_password of (fs, wallets) \<Rightarrow>
      and_then (or_abort wallets) (\<lambda>(alice_wallet, bob_wallet).
      and_then (or_abort (identity_test cr clock random alice_wallet)) (\<lambda>restored.
      and_then (or_abort (demo_nodes cr (ho_var h DATA_DIRECTORY_ENV) (ho_var h LEGACY_DATA_DIRECTORY_ENV) fs)) (\<lambda>d.
      and_then (demo_run (ho_platform h) (ho_ticks h) (ho_io_read h) dir alice_wallet bob_wallet d)
        (\<lambda>(d, results). Inr (d, loopback_ok # restored # results))))))))"

section \<open>A consistent node refuses what is forged\<close>

lemma refused_block:
  assumes wf: "node_wf (pf_crypto pf) nd"
    and refused: "\<And>r. validate_and_apply_block (pf_crypto pf) (ef_clock ef 0) (nd_consensus nd) b
      (nd_blockchain nd) (nd_state nd) \<noteq> Inr r"
  shows "receive_message pf ef fs nd (Block_message b) = (fs, nd, Inr ())"
proof -
  obtain e where e: "validate_and_apply_block (pf_crypto pf) (ef_clock ef 0) (nd_consensus nd) b
      (nd_blockchain nd) (nd_state nd) = Inl e"
    using refused by (metis sum.exhaust)
  then have "\<not> is_panic e"
    using validate_and_apply_block_returns[OF node_wf_shares(1)[OF wf], of "pf_crypto pf" "ef_clock ef 0"
        "nd_consensus nd" b "nd_state nd"] by simp
  then show ?thesis
    by (simp add: receive_message_def receive_block_def e)
qed

text \<open>Bob, after a block: consistent, valid, with room in the counters.\<close>

definition attackable :: "crypto \<Rightarrow> node \<Rightarrow> bool" where
  "attackable cr nd \<longleftrightarrow> node_wf cr nd \<and> is_valid cr (nd_blockchain nd) \<and>
     1 < length (bc_chain (nd_blockchain nd)) \<and> length (bc_chain (nd_blockchain nd)) < 2 ^ 64 \<and>
     unat (blk_timestamp (last (bc_chain (nd_blockchain nd)))) < 2 ^ 64 - 1"

lemma attackable_tip:
  assumes "attackable cr nd"
  obtains tip where "tip_of nd = Inr tip" "tip = last (bc_chain (nd_blockchain nd))"
    "tip \<in> set (bc_chain (nd_blockchain nd))"
    "expect_some (checked_add (blk_index tip) 1) = Inr (blk_index tip + 1)"
    "expect_some (checked_add (blk_timestamp tip) 1) = Inr (blk_timestamp tip + 1)"
    "list_ex (\<lambda>tx. \<not> tx_coinbase tx) (blk_transactions tip)"
proof -
  let ?chain = "bc_chain (nd_blockchain nd)"
  have ne: "?chain \<noteq> []" and long: "1 < length ?chain" and short: "length ?chain < 2 ^ 64"
    using assms by (auto simp: attackable_def)
  then have "?chain = butlast ?chain @ [last ?chain]"
    by simp
  then have ok: "block_ok cr (length ?chain - 1) (last ?chain)"
    using assms unfolding attackable_def is_valid_iff by (metis length_butlast)
  then have index: "blk_index (last ?chain) = word_of_nat (length ?chain - 1)"
    and sizes: "validate_block_field_sizes (last ?chain) = Inr ()"
    by (simp_all add: block_ok_def is_ok_iff)
  have unat: "unat (blk_index (last ?chain)) = length ?chain - 1"
    unfolding index using short by (simp add: unat_word_of_nat64)
  have "blk_index (last ?chain) \<noteq> 0"
    using unat long by auto
  then have "list_ex (\<lambda>tx. \<not> tx_coinbase tx) (blk_transactions (last ?chain))"
    using sizes by (auto simp: validate_block_field_sizes_def split: if_splits)
  moreover have "expect_some (checked_add (blk_index (last ?chain)) 1) = Inr (blk_index (last ?chain) + 1)"
    using unat long short by (simp add: expect_some_def checked_add_def)
  moreover have "expect_some (checked_add (blk_timestamp (last ?chain)) 1) = Inr (blk_timestamp (last ?chain) + 1)"
    using assms by (simp add: expect_some_def checked_add_def attackable_def)
  ultimately show thesis
    using ne by (intro that[of "last ?chain"]) (simp_all add: tip_of_def)
qed

lemma block_attack_fails:
  assumes "attackable (pf_crypto pf) (dm_bob d)" and "tip_of (dm_bob d) = Inr tip" and "forge tip = Inr b"
    and refused: "\<And>r. validate_and_apply_block (pf_crypto pf) (ef_clock ef 0) (nd_consensus (dm_bob d)) b
      (nd_blockchain (dm_bob d)) (nd_state (dm_bob d)) \<noteq> Inr r"
  shows "block_attack pf ef forge d = Inr (d, True)"
proof -
  have "receive_message pf ef (dm_disk d) (dm_bob d) (Block_message b) = (dm_disk d, dm_bob d, Inr ())"
    using assms(1) by (intro refused_block refused) (simp add: attackable_def)
  then show ?thesis
    using assms(2,3) by (simp add: block_attack_def bob_receives_def)
qed

lemma refused_cases:
  assumes "validate_and_apply_block cr clock co b bc st = Inr r"
  shows "tx_id ` set (blk_transactions b) \<inter> chain_ids (bc_chain bc) = {}" "blk_transactions b \<noteq> []"
    "blk_timestamp (last (bc_chain bc)) < blk_timestamp b"
    "validate_future_timestamp clock (blk_timestamp b) = Inr ()"
    "length (blk_transactions b) \<le> MAX_TOTAL_TRANSACTIONS_PER_BLOCK"
    "is_fixed_hex (blk_validator b) ADDRESS_HEX_LENGTH"
proof -
  obtain bc' st' where "validate_and_apply_block cr clock co b bc st = Inr (bc', st')"
    using assms by (cases r) simp
  then have format: "check_block_format b = Inr ()"
    and added: "add_received_block cr clock bc b = Inr (bc\<lparr>bc_chain := bc_chain bc @ [b]\<rparr>)"
    and txs: "\<exists>txs. blk_transactions b = txs @ [block_coinbase cr b (bc_economy bc)]"
    unfolding validate_and_apply_block_Inr by blast+
  show "tx_id ` set (blk_transactions b) \<inter> chain_ids (bc_chain bc) = {}"
    "blk_timestamp (last (bc_chain bc)) < blk_timestamp b"
    "validate_future_timestamp clock (blk_timestamp b) = Inr ()"
    using added by (simp_all add: add_received_block_Inr uniqueness_Inr)
  show "blk_transactions b \<noteq> []"
    using txs by auto
  show "length (blk_transactions b) \<le> MAX_TOTAL_TRANSACTIONS_PER_BLOCK"
    "is_fixed_hex (blk_validator b) ADDRESS_HEX_LENGTH"
    using format by (auto simp: check_block_format_def split: if_splits)
qed

text \<open>The forged blocks, written out.\<close>

lemma forged_blocks:
  assumes bob: "attackable cr nd" and tip: "tip_of nd = Inr tip"
  shows "\<exists>b. duplicate_transaction_block cr tip = Inr b \<and> blk_transactions b = blk_transactions tip"
    and "\<exists>b. fake_timestamp_block cr tip = Inr b \<and> blk_transactions b = [] \<and> blk_timestamp b = blk_timestamp tip"
    and "\<exists>b. fake_future_block cr tip = Inr b \<and> blk_transactions b = [] \<and> blk_timestamp b = 4000000000"
    and "\<exists>b. oversized_block cr tip = Inr b \<and> 1002 \<le> length (blk_transactions b)"
    and "\<exists>b. large_block_field tip = Inr b \<and> blk_validator b = replicate 129 CHR ''V'' \<and> blk_hash b = blk_hash tip"
proof -
  obtain tip' where "tip_of nd = Inr tip'"
    and counters': "expect_some (checked_add (blk_index tip') 1) = Inr (blk_index tip' + 1)"
      "expect_some (checked_add (blk_timestamp tip') 1) = Inr (blk_timestamp tip' + 1)"
    and normal': "list_ex (\<lambda>tx. \<not> tx_coinbase tx) (blk_transactions tip')"
    using bob by (rule attackable_tip)
  then have same: "tip' = tip"
    using tip by simp
  note counters = counters'[unfolded same] and normal = normal'[unfolded same]
  note defs = claims_next_def one_later_def rehashed_def counters
  show "\<exists>b. duplicate_transaction_block cr tip = Inr b \<and> blk_transactions b = blk_transactions tip"
    by (simp add: duplicate_transaction_block_def defs)
  show "\<exists>b. fake_timestamp_block cr tip = Inr b \<and> blk_transactions b = [] \<and> blk_timestamp b = blk_timestamp tip"
    by (simp add: fake_timestamp_block_def defs)
  show "\<exists>b. fake_future_block cr tip = Inr b \<and> blk_transactions b = [] \<and> blk_timestamp b = 4000000000"
    by (simp add: fake_future_block_def defs)
  show "\<exists>b. large_block_field tip = Inr b \<and> blk_validator b = replicate 129 CHR ''V'' \<and> blk_hash b = blk_hash tip"
    by (simp add: large_block_field_def defs)
  obtain filler where "find (\<lambda>tx. \<not> tx_coinbase tx) (blk_transactions tip) = Some filler"
    using normal by (cases "find (\<lambda>tx. \<not> tx_coinbase tx) (blk_transactions tip)")
      (auto simp: find_None_iff list_ex_iff)
  then have "expect_some (find (\<lambda>tx. \<not> tx_coinbase tx) (blk_transactions tip)) = Inr filler"
    by (simp add: expect_some_def)
  then show "\<exists>b. oversized_block cr tip = Inr b \<and> 1002 \<le> length (blk_transactions b)"
    by (simp add: oversized_block_def defs Let_def)
qed

lemma block_attacks_fail:
  assumes bob: "attackable (pf_crypto pf) (dm_bob d)"
  shows "block_attack pf ef (duplicate_transaction_block (pf_crypto pf)) d = Inr (d, True)" (is ?duplicate)
    and "block_attack pf ef (fake_timestamp_block (pf_crypto pf)) d = Inr (d, True)" (is ?time)
    and "block_attack pf ef (fake_future_block (pf_crypto pf)) d = Inr (d, True)" (is ?future)
    and "block_attack pf ef (oversized_block (pf_crypto pf)) d = Inr (d, True)" (is ?oversized)
    and "block_attack pf ef large_block_field d = Inr (d, True)" (is ?field)
proof -
  obtain tip where tip: "tip_of (dm_bob d) = Inr tip" "tip \<in> set (bc_chain (nd_blockchain (dm_bob d)))"
    and normal: "list_ex (\<lambda>tx. \<not> tx_coinbase tx) (blk_transactions tip)"
    using bob by (rule attackable_tip)
  note attack = block_attack_fails[OF bob tip(1)] and forged = forged_blocks[OF bob tip(1)]
  obtain tx where "tx \<in> set (blk_transactions tip)"
    using normal by (auto simp: list_ex_iff)
  then have used: "tx_id ` set (blk_transactions tip) \<inter> chain_ids (bc_chain (nd_blockchain (dm_bob d))) \<noteq> {}"
    using tip(2) by (auto simp: chain_ids_def)
  obtain b1 where b1: "duplicate_transaction_block (pf_crypto pf) tip = Inr b1" "blk_transactions b1 = blk_transactions tip"
    using forged(1) by blast
  show ?duplicate
    by (rule attack[where forge = "duplicate_transaction_block (pf_crypto pf)" and ef = ef, OF b1(1)]) (use refused_cases(1) used in \<open>fastforce simp: b1(2)\<close>)
  obtain b2 where b2: "fake_timestamp_block (pf_crypto pf) tip = Inr b2" "blk_transactions b2 = []"
    using forged(2) by blast
  show ?time
    by (rule attack[where forge = "fake_timestamp_block (pf_crypto pf)" and ef = ef, OF b2(1)]) (use refused_cases(2) b2(2) in blast)
  obtain b3 where b3: "fake_future_block (pf_crypto pf) tip = Inr b3" "blk_transactions b3 = []"
    using forged(3) by blast
  show ?future
    by (rule attack[where forge = "fake_future_block (pf_crypto pf)" and ef = ef, OF b3(1)]) (use refused_cases(2) b3(2) in blast)
  obtain b4 where b4: "oversized_block (pf_crypto pf) tip = Inr b4"
      "\<not> length (blk_transactions b4) \<le> MAX_TOTAL_TRANSACTIONS_PER_BLOCK"
    using forged(4) by (auto simp: MAX_TOTAL_TRANSACTIONS_PER_BLOCK_def MAX_NORMAL_TRANSACTIONS_PER_BLOCK_def)
  show ?oversized
    by (rule attack[where forge = "oversized_block (pf_crypto pf)" and ef = ef, OF b4(1)]) (use refused_cases(5) b4(2) in blast)
  obtain b5 where b5: "large_block_field tip = Inr b5" "\<not> is_fixed_hex (blk_validator b5) ADDRESS_HEX_LENGTH"
    using forged(5) by (auto simp: is_fixed_hex_def ADDRESS_HEX_LENGTH_def)
  show ?field
    by (rule attack[where forge = "large_block_field" and ef = ef, OF b5(1)]) (use refused_cases(6) b5(2) in blast)
qed

text \<open>A block with the hash of the tip is not even looked at: Bob takes it for one he has.\<close>

lemma large_block_field_known:
  assumes "attackable (pf_crypto pf) nd" and "tip_of nd = Inr tip" and "large_block_field tip = Inr b"
  shows "receive_message pf ef fs nd (Block_message b) = (fs, nd, Inr ())"
    and "list_ex (\<lambda>known. blk_hash known = blk_hash b) (bc_chain (nd_blockchain nd))"
proof -
  obtain b' where "large_block_field tip = Inr b'" "blk_hash b' = blk_hash tip"
    using forged_blocks(5)[OF assms(1,2)] by blast
  moreover have "tip \<in> set (bc_chain (nd_blockchain nd))"
    using assms(2) by (auto simp: tip_of_def split: if_splits)
  ultimately show known: "list_ex (\<lambda>known. blk_hash known = blk_hash b) (bc_chain (nd_blockchain nd))"
    using assms(3) by (auto simp: list_ex_iff)
  then show "receive_message pf ef fs nd (Block_message b) = (fs, nd, Inr ())"
    by (simp add: receive_message_def)
qed

text \<open>A block without transactions is refused, whatever else it says.\<close>

lemma empty_block_refused:
  assumes "attackable (pf_crypto pf) nd" and "blk_transactions b = []"
  shows "receive_message pf ef fs nd (Block_message b) = (fs, nd, Inr ())"
  by (rule refused_block) (use assms refused_cases(2) in \<open>auto simp: attackable_def\<close>)

lemma direct_blockchain_fails:
  assumes bob: "attackable (pf_crypto pf) (dm_bob d)"
  shows "direct_blockchain_test pf clock d = Inr (d, True)"
proof -
  obtain tip where tip: "tip_of (dm_bob d) = Inr tip"
    using bob by (rule attackable_tip)
  obtain b where b: "large_block_field tip = Inr b" "blk_validator b = replicate 129 CHR ''V''"
    using forged_blocks(5)[OF bob tip] by blast
  obtain tip' where "tip_of (dm_bob d) = Inr tip'" "expect_some (checked_add (blk_index tip') 1) = Inr (blk_index tip' + 1)"
    using bob by (rule attackable_tip)
  then have "blk_index b \<noteq> 0"
    using b(1) tip by (auto simp: large_block_field_def claims_next_def one_later_def result_simps expect_some_def
        checked_add_Some split: option.splits)
  then have "validate_block_field_sizes b \<noteq> Inr ()"
    using b(2) by (auto simp: validate_block_field_sizes_def is_fixed_hex_def ADDRESS_HEX_LENGTH_def)
  then obtain e where "add_received_block (pf_crypto pf) clock (nd_blockchain (dm_bob d)) b = Inl e"
    by (cases "add_received_block (pf_crypto pf) clock (nd_blockchain (dm_bob d)) b") (auto simp: add_received_block_Inr
        add_received_block_def result_simps)
  with add_received_block_returns[of "pf_crypto pf" clock "nd_blockchain (dm_bob d)" b] tip b(1) show ?thesis
    by (simp add: direct_blockchain_test_def Let_def)
qed

section \<open>Forged transactions and full pools\<close>

lemma malformed_transaction_refused:
  assumes "\<not> is_fixed_hex (tx_to tx) ADDRESS_HEX_LENGTH" and "\<not> tx_coinbase tx"
  shows "insert_transaction_into_mempool pf nd tx = (nd, snd (insert_transaction_into_mempool pf nd tx))"
    and "mempool_add cr mp tx = (mp, False)"
proof -
  have "\<not> tx_authentic cr tx" for cr
    using assms(1) by (auto simp: tx_authentic_def)
  then have "validate_transaction_for_mempool (pf_crypto pf) tx (nd_state nd) (bc_economy (nd_blockchain nd)) (nd_mempool nd) \<noteq> Inr ()"
    and not_added: "mempool_add cr mp tx \<noteq> (mp', True)" for mp'
    using validate_for_mempool_Inr(1) mempool_add_iff by blast+
  then show "insert_transaction_into_mempool pf nd tx = (nd, snd (insert_transaction_into_mempool pf nd tx))"
    by (auto simp: insert_transaction_into_mempool_def split: sum.split)
  show "mempool_add cr mp tx = (mp, False)"
    using not_added mempool_add_rejected[of cr mp tx] by (metis (full_types) prod.exhaust)
qed

lemma forged_receivers:
  "\<not> is_fixed_hex large_receiver ADDRESS_HEX_LENGTH" "\<not> is_fixed_hex short_receiver ADDRESS_HEX_LENGTH"
  "\<not> is_fixed_hex non_hex_receiver ADDRESS_HEX_LENGTH"
  by (simp_all add: is_fixed_hex_def large_receiver_def short_receiver_def non_hex_receiver_def
      ADDRESS_HEX_LENGTH_def as_bytes_def is_ascii_hexdigit_def byte_of_def)

lemma transaction_attack_fails:
  assumes "\<not> is_fixed_hex receiver ADDRESS_HEX_LENGTH"
  shows "transaction_attack pf ef alice_wallet bob_wallet receiver d = Inr (d, True)"
    and "direct_mempool_test pf alice_wallet bob_wallet receiver d = (d, True)"
proof -
  let ?tx = "redirected_transfer (pf_crypto pf) d alice_wallet bob_wallet receiver"
  have "\<not> is_fixed_hex (tx_to ?tx) ADDRESS_HEX_LENGTH" "\<not> tx_coinbase ?tx"
    using assms by (simp_all add: redirected_transfer_def)
  note refused = malformed_transaction_refused[OF this]
  have "fst (insert_transaction_into_mempool pf (dm_bob d) ?tx) = dm_bob d"
    using refused(1) by (metis fst_conv)
  then show "transaction_attack pf ef alice_wallet bob_wallet receiver d = Inr (d, True)"
    by (simp add: transaction_attack_def bob_receives_def receive_message_def Let_def)
  show "direct_mempool_test pf alice_wallet bob_wallet receiver d = (d, True)"
    by (simp add: direct_mempool_test_def refused(2) Let_def)
qed

lemma non_hex_fails: "non_hex_test pf ef alice_wallet bob_wallet d = Inr (d, True, True)"
proof -
  let ?tx = "redirected_transfer (pf_crypto pf) d alice_wallet bob_wallet non_hex_receiver"
  have "\<not> is_fixed_hex (tx_to ?tx) ADDRESS_HEX_LENGTH" "\<not> tx_coinbase ?tx"
    using forged_receivers(3) by (simp_all add: redirected_transfer_def)
  note refused = malformed_transaction_refused[OF this]
  have "fst (insert_transaction_into_mempool pf (dm_bob d) ?tx) = dm_bob d"
    using refused(1) by (metis fst_conv)
  then show ?thesis
    by (simp add: non_hex_test_def bob_receives_def receive_message_def refused(2) Let_def)
qed

lemma mempool_capacity_holds:
  "mempool_capacity_test pf alice_wallet bob_wallet d = (with_mempool d [], True)"
  by (simp add: mempool_capacity_test_def mempool_add_def with_mempool_def mempool_len_def
      MAX_MEMPOOL_TRANSACTIONS_def Let_def)

section \<open>Chains that are too long or not longer\<close>

lemma oversized_chunk_fails:
  assumes "tip_of (dm_bob d) = Inr tip"
  shows "oversized_chunk_test pf ef ef' d = Inr (d, True, True)"
proof -
  let ?m = "Chain_chunk_response 0 257 (replicate 257 tip)"
  have long: "\<not> length (replicate 257 tip) \<le> MAX_SYNC_BLOCKS_PER_MESSAGE"
    by (simp add: MAX_SYNC_BLOCKS_PER_MESSAGE_def)
  then have "node_network_receive pf ef (dm_bob d) ?m = dm_bob d"
    by (simp add: node_network_receive_def network_receive_def message_within_limits_def Let_def)
  moreover have "receive_message pf ef' (dm_disk d) (dm_bob d) ?m = (dm_disk d, dm_bob d, Inr ())"
    using long by (simp add: receive_message_def accept_chain_chunk_def check_chunk_bounds_def)
  ultimately show ?thesis
    using assms by (simp add: oversized_chunk_test_def bob_receives_def Let_def)
qed

text \<open>A whole chain that is not longer than the local one changes neither the chain nor the disk.\<close>

lemma not_longer_chain:
  assumes wf: "node_wf (pf_crypto pf) nd" and len: "length blocks \<le> length (bc_chain (nd_blockchain nd))"
    and short: "length (bc_chain (nd_blockchain nd)) < 2 ^ 64"
  shows "\<exists>nd'. receive_message pf ef fs nd (Chain_chunk_response 0 (word_of_nat (length blocks)) blocks) = (fs, nd', Inr ()) \<and>
    nd_blockchain nd' = nd_blockchain nd \<and> nd_state nd' = nd_state nd \<and> nd_mempool nd' = nd_mempool nd \<and>
    node_wf (pf_crypto pf) nd'"
proof -
  let ?total = "word_of_nat (length blocks) :: u64"
  let ?m = "Chain_chunk_response 0 ?total blocks"
  have total: "unat ?total = length blocks"
    using len short by (simp add: unat_word_of_nat64)
  have sync: "\<exists>r. synchronize_chain pf ef fs x blocks = (fs, x, r)"
    if "nd_blockchain x = nd_blockchain nd" for x
    using len that by (auto simp: synchronize_chain_def)
  have "fst (receive_message pf ef fs nd ?m) = fs \<and> nd_blockchain (fst (snd (receive_message pf ef fs nd ?m))) = nd_blockchain nd \<and>
      nd_state (fst (snd (receive_message pf ef fs nd ?m))) = nd_state nd \<and>
      nd_mempool (fst (snd (receive_message pf ef fs nd ?m))) = nd_mempool nd"
    using sync[of "nd\<lparr>nd_sync_buffer := [], nd_sync_expected_total := None\<rparr>"]
    by (auto simp: receive_message_def accept_chain_chunk_def open_chunk_def total Let_def node_broadcast_def
        split: sum.split prod.split)
  then show ?thesis
    using receive_message_returns[OF wf, of ef fs ?m] receive_message_wf[OF wf, of ef fs ?m]
    by (metis prod.collapse)
qed

lemma fake_fork_fails:
  assumes bob: "attackable (pf_crypto pf) (dm_bob d)"
    and alice: "length (bc_chain (nd_blockchain (dm_alice d))) \<le> length (bc_chain (nd_blockchain (dm_bob d)))"
    and fork: "fake_fork (pf_crypto pf) (bc_chain (nd_blockchain (dm_alice d))) = Inr chain" "chain \<noteq> []"
  shows "\<exists>bob'. fake_fork_test pf ef d = Inr (d\<lparr>dm_bob := bob'\<rparr>, True) \<and>
    nd_blockchain bob' = nd_blockchain (dm_bob d) \<and> nd_state bob' = nd_state (dm_bob d) \<and>
    attackable (pf_crypto pf) bob'"
proof -
  have "length chain = length (bc_chain (nd_blockchain (dm_alice d)))"
    using fork by (auto simp: fake_fork_def result_simps Let_def split: if_splits)
  then obtain bob' where received: "receive_message pf ef (dm_disk d) (dm_bob d)
      (Chain_chunk_response 0 (word_of_nat (length chain)) chain) = (dm_disk d, bob', Inr ())"
    and same: "nd_blockchain bob' = nd_blockchain (dm_bob d)" "nd_state bob' = nd_state (dm_bob d)"
    and wf: "node_wf (pf_crypto pf) bob'"
    using not_longer_chain[of pf "dm_bob d" chain ef "dm_disk d"] bob alice by (auto simp: attackable_def)
  obtain tip where tip: "tip_of (dm_bob d) = Inr tip"
    using bob by (rule attackable_tip)
  then have "tip_of bob' = Inr tip"
    by (simp add: tip_of_def same split: if_splits)
  then have "fake_fork_test pf ef d = Inr (d\<lparr>dm_bob := bob'\<rparr>, True)"
    using fork received tip by (simp add: fake_fork_test_def bob_receives_def)
  moreover have "attackable (pf_crypto pf) bob'"
    using bob wf by (simp add: attackable_def same)
  ultimately show ?thesis
    using same by blast
qed

section \<open>All attacks\<close>

lemma limit_transactions_made:
  assumes "unat n + 1000 < 2 ^ 64"
  shows "\<exists>txs. limit_transactions cr e alice_wallet bob_wallet n = Inr txs"
proof -
  have "expect_some (checked_add n (word_of_nat i)) = Inr (n + word_of_nat i)" if "i < 1001" for i
  proof -
    have "unat (word_of_nat i :: u64) = i"
      using that by (intro unat_word_of_nat64) simp
    then show ?thesis
      using assms that by (simp add: checked_add_def expect_some_def)
  qed
  then have "\<exists>txs. try_fold (\<lambda>transactions offset.
       and_then (expect_some (checked_add n (word_of_nat offset))) (\<lambda>nonce.
         Inr (transactions @ [signed_transfer cr alice_wallet (w_address bob_wallet) 1 (calculate_fee e 1) nonce])))
       acc offsets = Inr txs" if "set offsets \<subseteq> {0..<1001}" for acc offsets
    using that by (induction offsets arbitrary: acc) auto
  then show ?thesis
    by (simp add: limit_transactions_def)
qed

lemma block_limit_test_runs:
  assumes "unat (nonce_of (nd_state (dm_alice d)) (w_address alice_wallet)) + 1000 < 2 ^ 64"
  shows "\<exists>limit. block_limit_test pf alice_wallet bob_wallet d = Inr (with_mempool d [], limit)"
  using limit_transactions_made[OF assms, of "pf_crypto pf" "bc_economy (nd_blockchain (dm_alice d))" alice_wallet bob_wallet]
  by (auto simp: block_limit_test_def split: prod.split)

lemma demo_attacks_fail:
  assumes bob: "attackable (pf_crypto pf) (dm_bob d)"
    and alice: "length (bc_chain (nd_blockchain (dm_alice d))) \<le> length (bc_chain (nd_blockchain (dm_bob d)))"
    and fork: "fake_fork (pf_crypto pf) (bc_chain (nd_blockchain (dm_alice d))) = Inr chain" "chain \<noteq> []"
    and nonce: "unat (nonce_of (nd_state (dm_alice d)) (w_address alice_wallet)) + 1000 < 2 ^ 64"
  shows "\<exists>d' limit. demo_attacks pf ticks alice_wallet bob_wallet d =
      Inr (d', [True, True, True, True, limit] @ replicate 11 True) \<and>
    nd_blockchain (dm_bob d') = nd_blockchain (dm_bob d) \<and> nd_state (dm_bob d') = nd_state (dm_bob d) \<and>
    nd_blockchain (dm_alice d') = nd_blockchain (dm_alice d) \<and> dm_disk d' = dm_disk d"
proof -
  obtain bob' where forked: "fake_fork_test pf (ticks 21) d = Inr (d\<lparr>dm_bob := bob'\<rparr>, True)"
    and same: "nd_blockchain bob' = nd_blockchain (dm_bob d)" "nd_state bob' = nd_state (dm_bob d)"
    and bob': "attackable (pf_crypto pf) bob'"
    using fake_fork_fails[OF bob alice fork] by blast
  define d1 where "d1 = d\<lparr>dm_bob := bob'\<rparr>"
  define d2 where "d2 = with_mempool d1 []"
  have d1: "attackable (pf_crypto pf) (dm_bob d1)" and d2: "attackable (pf_crypto pf) (dm_bob d2)"
    using bob' by (simp_all add: d1_def d2_def with_mempool_def)
  obtain limit where limit: "block_limit_test pf alice_wallet bob_wallet d1 = Inr (d2, limit)"
    using block_limit_test_runs[of d1 alice_wallet pf bob_wallet] nonce by (auto simp: d1_def d2_def)
  obtain tip where tip: "tip_of (dm_bob d2) = Inr tip"
    using d2 by (rule attackable_tip)
  have full: "mempool_capacity_test pf alice_wallet bob_wallet d2 = (d2, True)"
    by (simp add: mempool_capacity_holds d2_def with_mempool_def)
  have "demo_attacks pf ticks alice_wallet bob_wallet d =
      Inr (d2, [True, True, True, True, limit] @ replicate 11 True)"
    unfolding demo_attacks_def Let_def forked[folded d1_def]
    by (simp add: block_attacks_fail[OF d1] block_attacks_fail[OF d2] limit full transaction_attack_fails non_hex_fails
        forged_receivers direct_blockchain_fails[OF d2] oversized_chunk_fails[OF tip] numeral_eq_Suc)
  then show ?thesis
    using same by (auto simp: d1_def d2_def with_mempool_def)
qed

section \<open>The demo needs the keys of the canonical validators\<close>

lemma demo_transfer_runs:
  "\<exists>alice' bob' added. demo_transfer pf ticks n d w receiver amount nonce =
     Inr (d\<lparr>dm_alice := alice', dm_bob := bob'\<rparr>, added) \<and>
   nd_blockchain alice' = nd_blockchain (dm_alice d) \<and> nd_consensus alice' = nd_consensus (dm_alice d)"
proof -
  let ?tx = "signed_transfer (pf_crypto pf) w receiver amount
    (calculate_fee (bc_economy (nd_blockchain (dm_alice d))) amount) nonce"
  obtain alice' added where add: "node_add_transaction pf (ticks n) (dm_alice d) ?tx = (alice', added)"
    by fastforce
  have "nd_blockchain alice' = nd_blockchain (dm_alice d)" "nd_consensus alice' = nd_consensus (dm_alice d)"
    using add by (auto simp: node_add_transaction_def insert_transaction_into_mempool_def node_broadcast_def
        split: prod.splits sum.splits if_splits)
  then show ?thesis
    by (intro exI[of _ alice'] exI[of _ "fst (insert_transaction_into_mempool pf (dm_bob d) ?tx)"] exI[of _ added])
      (simp add: demo_transfer_def add bob_receives_def receive_message_def Let_def)
qed

lemma demo_ends_at_first_block:
  assumes nodes: "nd_consensus (dm_alice d) = co" "bc_chain (nd_blockchain (dm_alice d)) \<noteq> []"
    and stake: "stakes_fit co" "0 < stake_sum (co_validators co)"
    and wallets: "\<not> is_validator_allowed co (w_address alice_wallet)" "\<not> is_validator_allowed co (w_address bob_wallet)"
  shows "demo_fresh pf ticks alice_wallet bob_wallet d = Inl (No_first_block (Block_check Validator_not_registered))"
proof -
  let ?alice = "node_broadcast pf (ticks 0) (fst (node_add_peer (dm_alice d) ''BOB_NODE'')) Sync_request"
  let ?bob = "node_network_receive pf (ticks 1) (fst (node_add_peer (dm_bob d) ''ALICE_NODE'')) Sync_request"
  define d1 where "d1 = d\<lparr>dm_alice := ?alice, dm_bob := ?bob\<rparr>"
  have alice: "nd_consensus (dm_alice d1) = co" "bc_chain (nd_blockchain (dm_alice d1)) \<noteq> []"
    using nodes by (simp_all add: d1_def node_broadcast_def node_add_peer_def split: prod.split)
  have synced: "bob_receives pf (ticks 1) (d\<lparr>dm_bob := fst (node_add_peer (dm_bob d) ''ALICE_NODE''), dm_alice := ?alice\<rparr>)
      Sync_request = Inr d1"
    by (simp add: bob_receives_def receive_message_def d1_def)
  obtain v where "select_validator_from_hash (pf_crypto pf) co (blk_hash (last (bc_chain (nd_blockchain (dm_alice d1))))) = Inr (Some v)"
    using select_validator_defined(1)[OF stake(1)] stake(2) unfolding select_validator_from_hash_def
    by (metis option.exhaust less_irrefl select_validator_total sum.exhaust)
  then have select: "demo_select pf d1 alice_wallet bob_wallet = Inr (wallet_of_turn alice_wallet bob_wallet (val_address v))"
    using alice by (simp add: demo_select_def tip_of_def or_abort_def expect_def node_select_validator_def)
  obtain alice' bob' added where transfer: "demo_transfer pf ticks 3 d1 alice_wallet (w_address bob_wallet) 50000000 0 =
      Inr (d1\<lparr>dm_alice := alice', dm_bob := bob'\<rparr>, added)"
    and alice': "nd_consensus alice' = co"
    using demo_transfer_runs[of pf ticks 3 d1 alice_wallet "w_address bob_wallet" 50000000 0] alice by auto
  have "\<not> is_validator_allowed co (w_address (wallet_of_turn alice_wallet bob_wallet (val_address v)))"
    using wallets by (simp add: wallet_of_turn_def)
  then have "demo_produce pf ticks 5 (d1\<lparr>dm_alice := alice', dm_bob := bob'\<rparr>) 1754690100
      (wallet_of_turn alice_wallet bob_wallet (val_address v)) =
    Inr (d1\<lparr>dm_alice := alice', dm_bob := bob'\<rparr>, Inl (Block_check Validator_not_registered))"
    using alice' by (simp add: demo_produce_def produce_block_def)
  then have "demo_first_block pf ticks alice_wallet bob_wallet d = Inl (No_first_block (Block_check Validator_not_registered))"
    by (simp add: demo_first_block_def Let_def synced[unfolded One_nat_def] select transfer or_abort_def)
  then show ?thesis
    by (simp add: demo_fresh_def)
qed

lemma demo_run_ends:
  assumes nodes: "demo_nodes (pf_crypto pf) kybernetes_dir aion_dir fs = Inr d" and sha: "sha256_spec (pf_crypto pf)"
    and absent: "load_blockchain_from (pf_json pf) rio fs dir = Inr None"
    and wallets: "w_address alice_wallet \<notin> {GENESIS_VALIDATOR_A_ADDRESS, GENESIS_VALIDATOR_B_ADDRESS}"
      "w_address bob_wallet \<notin> {GENESIS_VALIDATOR_A_ADDRESS, GENESIS_VALIDATOR_B_ADDRESS}"
  shows "demo_run pf ticks rio dir alice_wallet bob_wallet d =
    Inl (No_first_block (Block_check Validator_not_registered))"
proof -
  obtain cb where boot: "canonical_bootstrap (pf_crypto pf) = Inr cb"
    and validators: "co_validators (cb_consensus cb) =
       [\<lparr>val_address = GENESIS_VALIDATOR_A_ADDRESS, val_stake = 700\<rparr>,
        \<lparr>val_address = GENESIS_VALIDATOR_B_ADDRESS, val_stake = 300\<rparr>]"
    using canonical_bootstrap_succeeds[of "pf_crypto pf"] by blast
  have alice: "dm_alice d = node_new_with_data_directory (cb_blockchain cb) (cb_state cb) (cb_consensus cb)
      (data_directory kybernetes_dir aion_dir)" and disk: "dm_disk d = fs"
    using nodes by (auto simp: demo_nodes_def boot expect_def node_new_def)
  have "nd_consensus (dm_alice d) = cb_consensus cb" "bc_chain (nd_blockchain (dm_alice d)) \<noteq> []"
    using node_wf_chain[OF canonical_node_wf(1)[OF sha boot]]
    by (simp_all add: alice node_new_with_data_directory_def)
  moreover have "0 < stake_sum (co_validators (cb_consensus cb))"
    by (simp add: validators stake_sum_def)
  moreover have "\<not> is_validator_allowed (cb_consensus cb) (w_address alice_wallet)"
    "\<not> is_validator_allowed (cb_consensus cb) (w_address bob_wallet)"
    using wallets by (auto simp: is_validator_allowed_def validators)
  ultimately have "demo_fresh pf ticks alice_wallet bob_wallet d =
      Inl (No_first_block (Block_check Validator_not_registered))"
    using canonical_node_wf(3)[OF sha boot] by (intro demo_ends_at_first_block)
  then show ?thesis
    by (simp add: demo_run_def disk absent)
qed

end
