(* ===== verification/Main_Loop.thy ===== *)
theory Main_Loop
  imports Runtime_Steps
begin

text \<open>
  The loops that accept connections: \<open>NodeRuntime::run\<close> after its start (\<open>src/runtime.rs\<close>) and
  \<open>TcpTransport::run_listener\<close> (\<open>src/network/tcp.rs\<close>). A semaphore has one permit per connection
  that may be served at the same time; a session keeps its permit until its task ends. The
  loop of a node is a step relation at the grain of locked regions: a tick of the production
  timer, a connection that arrives, a message of any session, the end of a session, a round of
  synchronization, the shutdown. The lemmas show that the permits are never lost or doubled
  and that the shared runtime only evolves by steps of the node.
\<close>

definition MAX_CONCURRENT_NETWORK_CONNECTIONS :: nat where
  "MAX_CONCURRENT_NETWORK_CONNECTIONS = 64"

definition try_acquire :: "nat \<Rightarrow> nat option" where
  "try_acquire permits = (if permits = 0 then None else Some (permits - 1))"

section \<open>The plain listener\<close>

text \<open>
  What happens to the listener, in its order: a turn of the loop (is the channel closed at its
  start, what \<open>accept\<close> gives), or a task that ends and drops its permit. The result is the
  connections that were served and those that were dropped, and how the loop ended, if it did.
\<close>

datatype 'c listener_event = Turn bool "'c option" | Task_over

datatype listener_end = Channel_gone | Accept_failed

fun run_listener :: "nat \<Rightarrow> 'c listener_event list \<Rightarrow> 'c list \<times> 'c list \<times> listener_end option" where
  "run_listener permits [] = ([], [], None)"
| "run_listener permits (Task_over # events) = run_listener (Suc permits) events"
| "run_listener permits (Turn closed arrival # events) =
     (if closed then ([], [], Some Channel_gone)
      else case arrival of
             None \<Rightarrow> ([], [], Some Accept_failed)
           | Some connection \<Rightarrow>
               (case try_acquire permits of
                  Some permits' \<Rightarrow>
                    (case run_listener permits' events of
                       (served, dropped, ended) \<Rightarrow> (connection # served, dropped, ended))
                | None \<Rightarrow>
                    (case run_listener permits events of
                       (served, dropped, ended) \<Rightarrow> (served, connection # dropped, ended))))"

text \<open>No more connections are served than there are permits and tasks that ended.\<close>

lemma run_listener_served:
  "length (fst (run_listener permits events)) \<le> permits + length (filter (\<lambda>ev. ev = Task_over) events)"
proof (induction permits events rule: run_listener.induct)
  case (3 permits closed arrival events)
  show ?case
  proof (cases "closed \<or> arrival = None")
    case False
    then obtain c where c: "arrival = Some c" "\<not> closed"
      by auto
    show ?thesis
    proof (cases permits)
      case 0
      then have none: "try_acquire permits = None"
        by (simp add: try_acquire_def)
      then show ?thesis
        using 3(1)[OF c(2,1) none] c none by (cases "run_listener permits events") simp
    next
      case (Suc n)
      then have acquired: "try_acquire permits = Some n"
        by (simp add: try_acquire_def)
      then show ?thesis
        using 3(2)[OF c(2,1) acquired] c acquired Suc by (cases "run_listener n events") simp
    qed
  qed auto
qed simp_all

text \<open>While the loop runs, every connection that arrives is served or dropped.\<close>

lemma run_listener_complete:
  "run_listener permits events = (served, dropped, None) \<Longrightarrow>
     length served + length dropped = length (filter (\<lambda>ev. ev \<noteq> Task_over) events)"
  by (induction permits events arbitrary: served dropped rule: run_listener.induct)
    (fastforce split: option.splits prod.splits if_splits)+

section \<open>The loop of a node\<close>

datatype session_phase = Authenticating | Serving bool   \<comment> \<open>for a one-shot client?\<close>

record main_loop =
  ml_shared :: shared
  ml_permits :: nat
  ml_sessions :: "session_phase list"
  ml_running :: bool

definition main_start :: "shared \<Rightarrow> main_loop" where
  "main_start s = \<lparr>ml_shared = s, ml_permits = MAX_CONCURRENT_NETWORK_CONNECTIONS, ml_sessions = [],
     ml_running = True\<rparr>"

text \<open>A connection that finds no permit is dropped.\<close>

definition accept_arrival :: "main_loop \<Rightarrow> main_loop" where
  "accept_arrival m =
     (case try_acquire (ml_permits m) of
        None \<Rightarrow> m
      | Some permits \<Rightarrow> m\<lparr>ml_permits := permits, ml_sessions := ml_sessions m @ [Authenticating]\<rparr>)"

definition end_session :: "nat \<Rightarrow> main_loop \<Rightarrow> main_loop" where
  "end_session i m =
     m\<lparr>ml_permits := Suc (ml_permits m),
       ml_sessions := take i (ml_sessions m) @ drop (Suc i) (ml_sessions m)\<rparr>"

text \<open>The first region of \<open>handle_session\<close>, with the handshake that was accepted.\<close>

definition begin_session :: "platform \<Rightarrow> effects \<Rightarrow> nat \<Rightarrow> network_message \<Rightarrow> main_loop \<Rightarrow> main_loop" where
  "begin_session pf ef i handshake m =
     (case ml_shared m of (fs, rt) \<Rightarrow>
        (case receive_message pf ef fs (rt_node rt) handshake of
           (fs, nd, r) \<Rightarrow>
             let m = m\<lparr>ml_shared := (fs, rt\<lparr>rt_node := nd\<rparr>)\<rparr> in
             (case r of
                Inl e \<Rightarrow> end_session i m
              | Inr _ \<Rightarrow> m\<lparr>ml_sessions := (ml_sessions m)[i := Serving (is_one_shot_client handshake)]\<rparr>)))"

text \<open>A message of a session, up to its actions, which are executed outside the lock.\<close>

definition session_message ::
  "platform \<Rightarrow> region_effects \<Rightarrow> nat \<Rightarrow> bool \<Rightarrow> network_message \<Rightarrow> main_loop \<Rightarrow> main_loop" where
  "session_message pf re i one_shot_client message m =
     (if is_chunk_response message then end_session i m
      else case ml_shared m of (fs, rt) \<Rightarrow>
        (case process_message pf re fs rt message one_shot_client of
           (fs, rt, r) \<Rightarrow>
             let m = m\<lparr>ml_shared := (fs, rt)\<rparr> in
             (case r of Inl e \<Rightarrow> end_session i m | Inr _ \<Rightarrow> m)))"

definition production_turn :: "platform \<Rightarrow> region_effects \<Rightarrow> main_loop \<Rightarrow> main_loop" where
  "production_turn pf re m =
     (case ml_shared m of (fs, rt) \<Rightarrow>
        (case try_produce_pending_block pf re fs rt of (fs, rt, r) \<Rightarrow> m\<lparr>ml_shared := (fs, rt)\<rparr>))"

text \<open>
  A session ends on its own when its stream ends, its handshake is refused or a reply cannot be
  sent. A round of synchronization is one step here; how it interleaves is in \<open>Runtime_Steps\<close>.
\<close>

inductive main_step :: "platform \<Rightarrow> main_loop \<Rightarrow> main_loop \<Rightarrow> bool" for pf where
  production: "ml_running m \<Longrightarrow> main_step pf m (production_turn pf re m)"
| arrival: "ml_running m \<Longrightarrow> main_step pf m (accept_arrival m)"
| authenticated: "\<lbrakk>ml_running m; i < length (ml_sessions m); ml_sessions m ! i = Authenticating;
      authenticate_incoming wr (pf_crypto pf) clock sa p2p_identity cn = (cn', Inr handshake)\<rbrakk> \<Longrightarrow>
    main_step pf m (begin_session pf ef i handshake m)"
| message: "\<lbrakk>ml_running m; i < length (ml_sessions m); ml_sessions m ! i = Serving one_shot_client\<rbrakk> \<Longrightarrow>
    main_step pf m (session_message pf re i one_shot_client request m)"
| session_over: "\<lbrakk>ml_running m; i < length (ml_sessions m)\<rbrakk> \<Longrightarrow> main_step pf m (end_session i m)"
| synchronization: "\<lbrakk>ml_running m; \<forall>sy\<in>set peers. sy_others sy = (\<lambda>n s. s)\<rbrakk> \<Longrightarrow>
    main_step pf m (m\<lparr>ml_shared := fst (sync_round wr pf identity a peers (\<lambda>n s. s) (ml_shared m))\<rparr>)"
| shutdown: "ml_running m \<Longrightarrow> main_step pf m (m\<lparr>ml_running := False\<rparr>)"

inductive main_reachable :: "platform \<Rightarrow> main_loop \<Rightarrow> main_loop \<Rightarrow> bool" for pf m where
  main_reachable_start: "main_reachable pf m m"
| main_reachable_step: "\<lbrakk>main_reachable pf m m'; main_step pf m' m''\<rbrakk> \<Longrightarrow> main_reachable pf m m''"

inductive_cases main_stepE: "main_step pf m m'"

section \<open>Permits and sessions\<close>

definition permits_kept :: "main_loop \<Rightarrow> bool" where
  "permits_kept m \<longleftrightarrow>
     ml_permits m + length (ml_sessions m) = MAX_CONCURRENT_NETWORK_CONNECTIONS"

lemma accept_arrival_sel [simp]:
  "ml_shared (accept_arrival m) = ml_shared m" "ml_running (accept_arrival m) = ml_running m"
  by (simp_all add: accept_arrival_def split: option.split)

lemma end_session_sel [simp]:
  "ml_shared (end_session i m) = ml_shared m" "ml_running (end_session i m) = ml_running m"
  by (simp_all add: end_session_def)

lemma accept_arrival_permits: "permits_kept m \<Longrightarrow> permits_kept (accept_arrival m)"
  by (auto simp: permits_kept_def accept_arrival_def try_acquire_def split: option.split)

lemma end_session_permits: "\<lbrakk>permits_kept m; i < length (ml_sessions m)\<rbrakk> \<Longrightarrow> permits_kept (end_session i m)"
  by (simp add: permits_kept_def end_session_def)

lemma shared_permits [simp]: "permits_kept (m\<lparr>ml_shared := s\<rparr>) = permits_kept m"
  by (simp add: permits_kept_def)

lemma phase_permits [simp]: "permits_kept (m\<lparr>ml_sessions := (ml_sessions m)[i := p]\<rparr>) = permits_kept m"
  by (simp add: permits_kept_def)

lemma begin_session_permits:
  assumes "permits_kept m" and "i < length (ml_sessions m)"
  shows "permits_kept (begin_session pf ef i handshake m)"
  using assms by (auto simp: begin_session_def Let_def permits_kept_def end_session_def split: prod.split sum.split)

lemma session_message_permits:
  assumes "permits_kept m" and "i < length (ml_sessions m)"
  shows "permits_kept (session_message pf re i one_shot_client request m)"
  using assms by (auto simp: session_message_def Let_def permits_kept_def end_session_def split: prod.split sum.split)

lemma main_step_permits: "main_step pf m m' \<Longrightarrow> permits_kept m \<Longrightarrow> permits_kept m'"
proof (induction rule: main_step.induct)
  case (production m re)
  then show ?case by (simp add: production_turn_def split: prod.split)
qed (simp_all add: accept_arrival_permits end_session_permits begin_session_permits session_message_permits,
  simp add: permits_kept_def)

section \<open>The shared runtime\<close>

lemma begin_session_evolves: "evolves pf (ml_shared m) (ml_shared (begin_session pf ef i handshake m))"
  using evolves_message[of pf ef]
  by (auto simp: begin_session_def Let_def split: prod.split sum.split)

lemma session_message_evolves:
  assumes "runtime_wf pf (ml_shared m)"
  shows "evolves pf (ml_shared m) (ml_shared (session_message pf re i one_shot_client request m))"
  using assms process_message_evolves[of pf] tasks.refl[of pf]
  by (auto simp: session_message_def Let_def split: prod.split sum.split)

lemma production_turn_evolves:
  assumes "runtime_wf pf (ml_shared m)"
  shows "evolves pf (ml_shared m) (ml_shared (production_turn pf re m))"
  using assms try_produce_pending_evolves[of pf] by (auto simp: production_turn_def split: prod.split)

lemma main_step_evolves:
  assumes "main_step pf m m'" and "runtime_wf pf (ml_shared m)"
  shows "evolves pf (ml_shared m) (ml_shared m')"
  using assms
proof (induction rule: main_step.induct)
  case (synchronization m peers wr identity a)
  have alone: "rely pf (\<lambda>n s. s)"
    by (simp add: rely_def tasks.refl)
  have "evolves pf (ml_shared m) (fst (sync_round wr pf identity a peers (\<lambda>n s. s) (ml_shared m)))"
    by (rule sync_round_evolves[OF _ alone synchronization(3) surjective_pairing])
      (use synchronization(2) alone in simp)
  then show ?case by simp
qed (simp_all add: production_turn_evolves begin_session_evolves session_message_evolves tasks.refl)

text \<open>Whatever happens to a node, in whatever order.\<close>

lemma main_reachable_good:
  assumes "main_reachable pf m m'" and "runtime_wf pf (ml_shared m)" and "permits_kept m"
  shows "runtime_wf pf (ml_shared m') \<and> evolves pf (ml_shared m) (ml_shared m') \<and> permits_kept m'"
  using assms
proof induction
  case main_reachable_start
  then show ?case by (simp add: tasks.refl)
next
  case (main_reachable_step m' m'')
  then show ?case
    using main_step_evolves[OF main_reachable_step(2)] main_step_permits[OF main_reachable_step(2)]
      tasks.trans[of pf "ml_shared m" "ml_shared m'"] evolves_wf[of pf "ml_shared m'"] by blast
qed

lemma main_start_permits: "permits_kept (main_start s)"
  by (simp add: permits_kept_def main_start_def)

lemma accept_arrival_full:
  "permits_kept m \<Longrightarrow> accept_arrival m = m \<longleftrightarrow> length (ml_sessions m) = MAX_CONCURRENT_NETWORK_CONNECTIONS"
  by (cases m) (auto simp: permits_kept_def accept_arrival_def try_acquire_def)

end
