(* ===== verification/Program_Scenarios.thy ===== *)
theory Program_Scenarios
  imports Scenarios Demo Main_Loop
begin

text \<open>
  Situations of the whole program: a running node that is asked, handshakes that are refused,
  a chain that is served in parts, attacks on a node, the demo with fresh wallets, and keys that
  are made by one command and used by another.
\<close>

section \<open>A node that is asked\<close>

lemma canonical_node_valid: "is_valid toy_crypto (cb_blockchain toy_bootstrap)"
  using canonical_node_wf(2)[OF _ toy_bootstrap] toy_sha256_spec
  by (simp add: node_new_with_data_directory_def)

definition alice_asks :: network_message where
  "alice_asks = Account_state_request (w_address alice)"

definition alice_is_told :: network_message where
  "alice_is_told = projr (account_state_response (demo_runtime canonical_node) (w_address alice))"

lemma alice_is_told: "process_message demo_pf demo_region fmempty (demo_runtime canonical_node) alice_asks one_shot =
    (fmempty, demo_runtime canonical_node, Inr [Reply alice_is_told])"
  using canonical_node_chain
  by (simp add: process_message_def alice_asks_def alice_is_told_def account_state_response_def Let_def
      wallet_texts_fixed_hex[OF toy_crypto_ok alice_wf])

section \<open>Handshakes that are refused\<close>

definition late_handshake :: network_message where
  "late_handshake = stale_handshake toy_crypto (Some 1000) demo_random alice"

definition refusal :: network_message where
  "refusal = create_handshake_ack toy_crypto (Some 1060) bob False (hex_encode toy_crypto demo_random)"

definition refusing_wire :: wire where
  "refusing_wire = table_wire [late_handshake, refusal]"

lemma refusing_wire: "wire_spec refusing_wire" "sendable refusing_wire late_handshake" "sendable refusing_wire refusal"
  by (simp_all add: refusing_wire_def table_wire_spec table_wire_sendable)

section \<open>A chain in parts\<close>

definition parts_wire :: wire where
  "parts_wire = table_wire [part_answer demo_later 0, part_answer demo_later 1,
     Chain_chunk_request (word_of_nat 0), Chain_chunk_request (word_of_nat 1)]"

lemma parts_wire: "wire_spec parts_wire" "sendable parts_wire (part_answer demo_later 0)"
  "sendable parts_wire (part_answer demo_later 1)" "sendable parts_wire (Chain_chunk_request (word_of_nat 0))"
  "sendable parts_wire (Chain_chunk_request (word_of_nat 1))"
  unfolding parts_wire_def by (rule table_wire_spec table_wire_sendable; simp)+

lemma demo_part_servable: "part_servable parts_wire demo_later"
proof -
  have "sendable parts_wire (part_answer demo_later i) \<and> sendable parts_wire (Chain_chunk_request (word_of_nat i))"
    if "i < length demo_later" for i
  proof (cases i)
    case 0
    show ?thesis unfolding 0 using parts_wire(2,4) by blast
  next
    case (Suc j)
    then have i: "i = 1"
      using that by (simp add: demo_later_def)
    show ?thesis unfolding i using parts_wire(3,5) by blast
  qed
  then show ?thesis
    using demo_servable by (simp add: part_servable_def servable_def)
qed

lemma demo_part_starts: "part_starts (length demo_later) 0 = [0]"
  by (simp add: demo_later_def part_starts.simps test_chunk_size_def MAX_SYNC_BLOCKS_PER_MESSAGE_def)

section \<open>A node that is attacked\<close>

lemma demo_attackable: "attackable toy_crypto demo_done"
proof -
  have "unat demo_time < 2 ^ 64 - 1"
    by (simp add: demo_time_def GENESIS_TIMESTAMP_def)
  then show ?thesis
    using demo_done_wf demo_blockchain_valid by (simp add: attackable_def demo_chain demo_block_sel)
qed

definition demo_pair :: demo where
  "demo_pair = \<lparr>dm_disk = demo_disk, dm_alice = demo_node, dm_bob = demo_done\<rparr>"

lemma demo_pair_sel [simp]:
  "dm_disk demo_pair = demo_disk" "dm_alice demo_pair = demo_node" "dm_bob demo_pair = demo_done"
  by (simp_all add: demo_pair_def)

lemma demo_fork: "\<exists>b. fake_fork toy_crypto [demo_genesis] = Inr [b]"
proof -
  have "blk_timestamp demo_genesis = GENESIS_TIMESTAMP"
    by (simp add: demo_genesis_def genesis_block_def demo_configuration_def
        canonical_genesis_configuration_def)
  then show ?thesis
    by (simp add: fake_fork_def expect_some_def checked_add_def GENESIS_TIMESTAMP_def Let_def)
qed

section \<open>The demo with fresh wallets\<close>

lemma demo_fresh_wallets:
  "w_address alice \<notin> {GENESIS_VALIDATOR_A_ADDRESS, GENESIS_VALIDATOR_B_ADDRESS}"
  "w_address bob \<notin> {GENESIS_VALIDATOR_A_ADDRESS, GENESIS_VALIDATOR_B_ADDRESS}"
  by code_simp+

section \<open>Keys made by commands\<close>

text \<open>
  A crypto whose digest is a constant, the address of the first canonical validator, so that the
  key at hand is that of this validator.
\<close>

definition validator_crypto :: crypto where
  "validator_crypto = toy_crypto\<lparr>sha256 := (\<lambda>m. the (hex_decode toy_crypto GENESIS_VALIDATOR_A_ADDRESS))\<rparr>"

lemma validator_crypto_hex: "hex_spec validator_crypto"
  using toy_hex_spec by (simp add: hex_spec_def validator_crypto_def)

lemma validator_crypto_sha256: "sha256_spec validator_crypto"
proof -
  have "length (the (hex_decode toy_crypto GENESIS_VALIDATOR_A_ADDRESS)) = 32"
    by code_simp
  then show ?thesis
    using toy_sha256_spec by (simp add: sha256_spec_def validator_crypto_def)
qed

definition validator_wallet :: wallet where
  "validator_wallet = wallet_new validator_crypto (replicate 32 1)"

lemma validator_address: "w_address validator_wallet = GENESIS_VALIDATOR_A_ADDRESS"
  by code_simp

definition validator_key :: string where
  "validator_key = private_key_hex validator_crypto validator_wallet"

lemma validator_key: "from_private_key_hex validator_crypto validator_key = Inr validator_wallet"
  unfolding validator_key_def
  by (rule private_key_roundtrip[OF validator_crypto_hex])
    (simp add: validator_wallet_def wallet_new_wf)

definition validator_bootstrap :: bootstrap_outcome where
  "validator_bootstrap = projr (canonical_bootstrap validator_crypto)"

lemma validator_bootstrap: "canonical_bootstrap validator_crypto = Inr validator_bootstrap"
  "is_validator_allowed (cb_consensus validator_bootstrap) GENESIS_VALIDATOR_A_ADDRESS"
  using canonical_bootstrap_succeeds[of validator_crypto]
  by (auto simp: validator_bootstrap_def is_validator_allowed_def)

definition validator_stored :: stored_validator_key where
  "validator_stored = \<lparr>sk_format = VALIDATOR_KEYSTORE_FORMAT, sk_network_id = NETWORK_ID,
     sk_genesis_fingerprint = cb_genesis_fingerprint validator_bootstrap,
     sk_validator_address = GENESIS_VALIDATOR_A_ADDRESS, sk_private_key_hex = validator_key\<rparr>"

definition program_json :: validator_json where
  "program_json = demo_validator_json\<lparr>vj_key_to_vec := table_encode [validator_stored],
     vj_key_from_slice := table_decode [validator_stored]\<rparr>"

lemma program_json: "validator_json_spec program_json" "vj_key_to_vec program_json validator_stored = Some [1]"
  using demo_validator_json(1)
  by (simp_all add: validator_json_spec_def program_json_def table_decode_encode(3))
    (simp_all add: table_encode_def)

text \<open>The host: one password for everything, the key and a line feed on the input.\<close>

definition idle_request :: request_io where
  "idle_request = \<lparr>rq_identity_key = replicate 32 2, rq_clock = accepting_clock, rq_random = demo_random,
     rq_handshake_answers = all_written, rq_answers = all_written,
     rq_dialled = Inr (incoming []), rq_now = None\<rparr>"

definition program_host :: "crypto \<Rightarrow> host" where
  "program_host cr = \<lparr>
     ho_var = [WALLET_PASSWORD_ENV \<mapsto> demo_password, VALIDATOR_PASSWORD_ENV \<mapsto> demo_password,
       DATA_DIRECTORY_ENV \<mapsto> ''data''],
     ho_stdin_is_terminal = False, ho_stdin = Some (validator_key @ [CHR 0x0A]), ho_socket = (\<lambda>_. None),
     ho_platform = free_platform\<lparr>pf_crypto := cr\<rparr>, ho_vault = demo_vault, ho_validator_json = program_json,
     ho_wallet_json = demo_wallet_json, ho_wire = demo_wire, ho_key_io = demo_key_io,
     ho_io_read = \<lparr>io_open = True, io_read_to_end = True\<rparr>, ho_ticks = (\<lambda>_. demo_effects),
     ho_query = idle_request, ho_submit = idle_request, ho_bound = Inr ()\<rparr>"

lemma program_host_sel [simp]:
  "ho_crypto (program_host cr) = cr" "ho_vault (program_host cr) = demo_vault"
  "ho_validator_json (program_host cr) = program_json" "ho_wallet_json (program_host cr) = demo_wallet_json"
  "ho_key_io (program_host cr) = demo_key_io" "ho_platform (program_host cr) = free_platform\<lparr>pf_crypto := cr\<rparr>"
  "ho_stdin (program_host cr) = Some (validator_key @ [CHR 0x0A])" "\<not> ho_stdin_is_terminal (program_host cr)"
  "ho_io_read (program_host cr) = \<lparr>io_open = True, io_read_to_end = True\<rparr>" "ho_bound (program_host cr) = Inr ()"
  by (simp_all add: program_host_def)

lemma program_host_variables [simp]:
  "required_variable (program_host cr) WALLET_PASSWORD_ENV = Inr demo_password"
  "required_variable (program_host cr) VALIDATOR_PASSWORD_ENV = Inr demo_password"
  "validator_password (program_host cr) = Some demo_password"
  "configured_directory (program_host cr) = ''data''"
proof -
  have filled: "\<not> is_blank demo_password" "\<not> is_blank ''data''"
    by code_simp+
  have var: "ho_var (program_host cr) WALLET_PASSWORD_ENV = Some demo_password"
    "ho_var (program_host cr) VALIDATOR_PASSWORD_ENV = Some demo_password"
    "ho_var (program_host cr) DATA_DIRECTORY_ENV = Some ''data''"
    by (simp_all add: program_host_def WALLET_PASSWORD_ENV_def VALIDATOR_PASSWORD_ENV_def DATA_DIRECTORY_ENV_def)
  show "required_variable (program_host cr) WALLET_PASSWORD_ENV = Inr demo_password"
    "required_variable (program_host cr) VALIDATOR_PASSWORD_ENV = Inr demo_password"
    "validator_password (program_host cr) = Some demo_password"
    "configured_directory (program_host cr) = ''data''"
    using filled by (simp_all add: required_variable_def validator_password_def configured_directory_def
        data_directory_def var)
qed

lemma program_wallet_created:
  "\<exists>fs'. wallet_command (program_host toy_crypto) fmempty [''kybernetes'', ''wallet'', ''create''] =
     (fs', Inr (Wallet_created (w_address alice) (public_key_hex toy_crypto alice) (user_wallet_path ''data'')))"
  using demo_user_wallet by (auto simp: wallet_command_def failed_def)

lemma program_input:
  "length (take 129 (validator_key @ [CHR 0x0A])) \<le> 128" "length (trim (take 129 (validator_key @ [CHR 0x0A]))) = 64"
  "trim (take 129 (validator_key @ [CHR 0x0A])) = validator_key"
  by code_simp+

text \<open>\<open>provision-validator\<close> on an empty disk leaves nothing but the keystore.\<close>

lemma validator_crypto_same:
  "encrypt file validator_crypto va io password m aad = encrypt file toy_crypto va io password m aad"
  "temp_path validator_crypto io dir prefix = temp_path toy_crypto io dir prefix"
proof -
  have same: "hex_encode validator_crypto = hex_encode toy_crypto"
    by (simp add: validator_crypto_def)
  show "encrypt file validator_crypto va io password m aad = encrypt file toy_crypto va io password m aad"
    "temp_path validator_crypto io dir prefix = temp_path toy_crypto io dir prefix"
    unfolding encrypt_def temp_path_def same by (rule refl)+
qed

lemma program_provisioned:
  "\<exists>bs. provision_command (program_host validator_crypto) fmempty =
      (fmupd (validator_keystore_path ''data'') bs fmempty,
       Inr (Keystore_created GENESIS_VALIDATOR_A_ADDRESS (validator_keystore_path ''data''))) \<and>
    bs \<noteq> [] \<and> length bs \<le> 3"
proof -
  let ?path = "validator_keystore_path ''data''" and ?cr = validator_crypto
  obtain bs where bs: "encrypt Validator_keystore ?cr demo_vault demo_key_io demo_password [1] VALIDATOR_KEYSTORE_AAD = Inr bs"
    "bs \<noteq> []" "length bs \<le> 3"
    using demo_encrypt by (auto simp: validator_crypto_same)
  have "?path \<noteq> temp_path toy_crypto demo_key_io ''data'' ''.validator-keystore''"
    by (rule place_ok_temp) (rule places_ok(1))
  then have pub: "publish_new Validator_keystore ?cr demo_key_io fmempty ''data'' ?path ''.validator-keystore'' bs =
      (fmupd ?path bs fmempty, Inr ())"
    by (simp add: publish_new_def validator_crypto_same write_private_file_def hard_link_def remove_file_def Let_def
        demo_key_io_def fmdrop_fmupd)
  have identity: "identity_from_private_key ?cr validator_key (cb_consensus validator_bootstrap) =
      Inr \<lparr>vi_wallet = validator_wallet\<rparr>"
    using validator_bootstrap(2) by (simp add: identity_from_private_key_def validator_key validator_address)
  have absent: "validator_keystore_exists demo_key_io fmempty ''data'' = Inr False"
    by (simp add: validator_keystore_exists_def path_exists_def)
  have stored: "\<lparr>sk_format = VALIDATOR_KEYSTORE_FORMAT, sk_network_id = NETWORK_ID,
      sk_genesis_fingerprint = cb_genesis_fingerprint validator_bootstrap,
      sk_validator_address = identity_address \<lparr>vi_wallet = validator_wallet\<rparr>,
      sk_private_key_hex = validator_key\<rparr> = validator_stored"
    by (simp add: validator_stored_def identity_address_def validator_address)
  have prov: "provision ?cr demo_vault program_json demo_key_io fmempty ''data'' demo_password validator_key
      (cb_consensus validator_bootstrap) (cb_genesis_fingerprint validator_bootstrap) =
      (fmupd ?path bs fmempty, Inr GENESIS_VALIDATOR_A_ADDRESS)"
    unfolding provision_def identity absent Let_def and_then_simps stored program_json(2) store_without_overwrite_def
    by (simp add: demo_key_io bs(1) pub identity_address_def validator_address)
  have "provision_command (program_host ?cr) fmempty =
      (fmupd ?path bs fmempty, Inr (Keystore_created GENESIS_VALIDATOR_A_ADDRESS ?path))"
    using program_input by (simp add: provision_command_def validator_bootstrap(1) prov failed_def Let_def)
  with bs(2,3) show ?thesis
    by blast
qed

text \<open>The node that is started on this disk.\<close>

lemma program_started:
  assumes prov: "provision_command (program_host validator_crypto) fmempty =
      (fs, Inr (Keystore_created GENESIS_VALIDATOR_A_ADDRESS p))"
    and fs: "fs = fmupd (validator_keystore_path ''data'') bs fmempty" "bs \<noteq> []" "length bs \<le> 3"
  shows "\<exists>fs' rt. node_command (program_host validator_crypto) demo_effects fs [''kybernetes''] =
    (fs', Inr (Node_started rt []))"
proof -
  let ?h = "program_host validator_crypto" and ?pf = "free_platform\<lparr>pf_crypto := validator_crypto\<rparr>"
  let ?cb = validator_bootstrap
  obtain password input cb where "required_variable ?h VALIDATOR_PASSWORD_ENV = Inr password"
    "ho_stdin ?h = Some input" "canonical_bootstrap (ho_crypto ?h) = Inr cb"
    "provision (ho_crypto ?h) (ho_vault ?h) (ho_validator_json ?h) (ho_key_io ?h) fmempty (configured_directory ?h)
       password (trim (take 129 input)) (cb_consensus cb) (cb_genesis_fingerprint cb) =
     (fs, Inr GENESIS_VALIDATOR_A_ADDRESS)"
    using prov by (rule provision_command_Inr)
  then have run: "provision validator_crypto demo_vault program_json demo_key_io fmempty ''data'' demo_password
      validator_key (cb_consensus ?cb) (cb_genesis_fingerprint ?cb) = (fs, Inr GENESIS_VALIDATOR_A_ADDRESS)"
    using program_input(3) by (auto simp: validator_bootstrap(1))
  have load: "load_authorized validator_crypto demo_vault program_json demo_key_io fs ''data'' demo_password
      (cb_consensus ?cb) (cb_genesis_fingerprint ?cb) = Inr (Some \<lparr>vi_wallet = validator_wallet\<rparr>)"
    using provision_load[OF validator_crypto_hex demo_vault_spec program_json(1) demo_key_io(1) run _ demo_key_io(2),
        of "cb_consensus ?cb" "cb_genesis_fingerprint ?cb"] fs validator_bootstrap(2)
    by (simp add: validator_key MAX_VALIDATOR_KEYSTORE_BYTES_def)
  have other: "fmlookup fs q = None" if "q \<noteq> validator_keystore_path ''data''" for q
    using that by (simp add: fs(1))
  have absent: "load_blockchain_from js rio fs ''data'' = Inr None" for js rio
    using other[of "blockchain_path_in ''data''"]
    by (simp add: load_blockchain_from_def blockchain_path_in_def validator_keystore_path_def BLOCKCHAIN_FILE_NAME_def
        VALIDATOR_KEYSTORE_FILE_NAME_def)
  have chain: "bc_chain (cb_blockchain ?cb) \<noteq> []"
    using node_wf_chain[OF canonical_node_wf(1)[OF validator_crypto_sha256 validator_bootstrap(1)]]
    by (simp add: node_new_with_data_directory_def)
  have "fmlookup fs (unique_blockchain_temp_path (ef_io demo_effects) ''data'') = None"
    by (rule other) (simp add: unique_blockchain_temp_path_def validator_keystore_path_def
        BLOCKCHAIN_TEMP_FILE_NAME_def VALIDATOR_KEYSTORE_FILE_NAME_def)
  then obtain fs' where save: "save_blockchain_to (pf_json ?pf) (ef_io demo_effects) fs ''data'' (bc_chain (cb_blockchain ?cb)) =
      (fs', Inr ())"
    using chain by (auto simp: save_blockchain_to_def free_platform_def demo_effects_def demo_io_def
        ensure_data_directory_at_def create_temp_def write_all_def replace_file_def Let_def)
  have present: "validator_keystore_exists demo_key_io fs ''data'' = Inr True"
    by (simp add: validator_keystore_exists_def path_exists_def fs(1) demo_key_io(3))
  obtain rt where init: "initialize_at ?pf demo_vault program_json demo_key_io \<lparr>io_open = True, io_read_to_end = True\<rparr>
      demo_effects fs ''data'' (Some demo_password) = (fs', Inr rt)"
    using save by (simp add: initialize_at_def validator_bootstrap(1) load absent present Let_def
        node_new_with_data_directory_def)
  have conf: "node_configuration (ho_var ?h) [''kybernetes''] = (''127.0.0.1:7000'', [])"
    by (simp add: node_configuration_def argument_def program_host_def NODE_LISTEN_ADDRESS_ENV_def NODE_PEERS_ENV_def
        WALLET_PASSWORD_ENV_def VALIDATOR_PASSWORD_ENV_def DATA_DIRECTORY_ENV_def Let_def)
  show ?thesis
    by (simp add: node_command_def conf init start_run_def failed_def ONE_SHOT_CLIENT_LISTEN_ADDRESS_def)
qed

end
