(* ===== verification/Spec2Isabelle.thy ===== *)
theory Spec2Isabelle
  imports Program_Scenarios
begin

text \<open>
  A verification development for the Kybernetes blockchain node, the Rust program under
  \<open>src/src\<close>.

  The program. A node keeps a chain of blocks, the account state and the economy that follow
  from it, and a mempool of transactions that wait. Validators with stake take turns in
  producing blocks: the hash of the last block selects one of them. Nodes talk over TCP in
  length-prefixed JSON messages after a signed handshake; a node that is behind asks a peer for
  chunks of its chain. Chain and keys are files. A command line starts a node or acts as a
  client.

  How it is modelled. Structs are records, enums datatypes, u32 and u64 values are words of
  that length with the checked operations written out, strings are lists of characters of 8
  bits (their UTF-8 bytes). A \<open>Result\<close> is a sum with the errors of \<open>Errors\<close> on the left; a
  panic is one of these errors, told apart by \<open>is_panic\<close>, and passes through code that only
  handles returned errors. The panics of a running node are represented where the code could
  raise them: the \<open>expect\<close>s of \<open>distribute_fee\<close>, \<open>chain[start..end]\<close> (\<open>slice_range\<close>) in the
  answers of node and runtime to a request for blocks, \<open>value % total\<close> (\<open>remainder\<close>) in the
  selection of a validator. Operations that a constant in the same expression keeps from
  panicking are total functions: the division by \<open>fee_divisor.max(1)\<close> and by 100,
  \<open>remove(0)\<close> on a history that has reached its limit, the first 8 or 16 bytes of a digest.
  \<open>+\<close>, \<open>-\<close> and \<open>+=\<close> without \<open>checked_\<close> wrap, as in a release build (the crate sets no
  profile); a debug build would panic there, for instance at the nonce 2^64 - 1. Methods on
  \<open>&mut self\<close> return the changed record. What is not in the repository is an argument: the
  crates for hashing, hexadecimal text and signatures (\<open>crypto\<close>), the JSON of chains
  (\<open>json\<close>), messages (\<open>wire\<close>) and key files (\<open>validator_json\<close>, \<open>user_wallet_json\<close>), argon2 and the
  cipher (\<open>vault\<close>), and every answer of the operating system (\<open>io\<close>, \<open>io_read\<close>, \<open>key_io\<close>,
  \<open>effects\<close>, \<open>send_answers\<close>, \<open>connection\<close>, readings of the clock). The predicates
  \<open>crypto_spec\<close>, \<open>json_spec\<close>, \<open>wire_spec\<close>, \<open>vault_spec\<close> and their parts state the documented
  behaviour of this code; theorems that need it assume it, and concrete instances in \<open>Crypto\<close>,
  \<open>Examples\<close> and \<open>Scenarios\<close> satisfy it.

  The theories.
  \<^item> \<open>Prelude\<close>, \<open>Errors\<close>: results, checked arithmetic, folds that stop at an error, byte frames.
  \<^item> \<open>Protocol\<close> (\<open>protocol.rs\<close>), \<open>Crypto\<close> (the crates), \<open>Wallet\<close> (\<open>wallet/mod.rs\<close>: keys,
    addresses, signed texts), \<open>Core\<close> (\<open>core/\<close>: transactions and blocks, what is hashed and
    signed; the lemmas show that equal texts mean equal contents).
  \<^item> \<open>State\<close>, \<open>Economy\<close>, \<open>Ledger\<close> (\<open>state/mod.rs\<close>, \<open>economy/mod.rs\<close>): accounts, fees, minting;
    the effect of a transaction, the conservation of money, the abstract ledger that balances
    and nonces refine. \<open>Consensus\<close>: validator set and selection by stake.
  \<^item> \<open>Mempool\<close>, \<open>Blockchain\<close> (\<open>chain/\<close>): admission, next nonce, choice of transactions, block
    production, appending, validation of a whole chain.
  \<^item> \<open>Network\<close> (\<open>network/mod.rs\<close>): messages, their checks, the registry of peers. \<open>Transport\<close>
    (\<open>network/tcp.rs\<close>): frames, handshakes, sessions on a byte stream.
  \<^item> \<open>Storage\<close> (\<open>storage.rs\<close>): the chain on disk, behind the interface \<open>chain_store\<close>.
    \<open>Vault\<close>, \<open>Validator_Keystore\<close>, \<open>User_Wallet\<close>, \<open>Wallet_File\<close> (\<open>validator.rs\<close>,
    \<open>user_wallet.rs\<close>, the rest of \<open>storage.rs\<close>): encrypted key files, behind the interfaces
    \<open>sealed_box\<close>, \<open>write_once\<close> and \<open>sealed_store\<close>.
  \<^item> \<open>Validation\<close>, \<open>Node\<close> (\<open>node/mod.rs\<close>): what a node checks, and its handlers.
    \<open>Node_Replay\<close>, \<open>Node_Invariant\<close>, \<open>Node_Steps\<close>, \<open>Node_Transfer\<close>, \<open>Node_Production\<close>: replay of a
    chain, the invariant \<open>node_wf\<close>, the step relation of a node with its reachable states,
    chunked transfer and restart, progress of production.
  \<^item> \<open>Bootstrap\<close> (\<open>bootstrap.rs\<close>): the canonical genesis and its fingerprint.
  \<^item> \<open>Runtime\<close> (\<open>runtime.rs\<close>): the tasks of a running node. The runtime is shared behind a lock;
    every locked region is one operation, and what other tasks do between two regions is an
    argument (\<open>interference\<close>). \<open>Runtime_Steps\<close>: whatever the tasks interleave with, the shared state
    evolves by steps of the node, if the other tasks do the same (\<open>rely\<close>). \<open>Runtime_Sync\<close>: what a
    synchronization achieves with an honest peer. \<open>Main_Loop\<close>: the loop of a node as a step
    relation, and the permits that bound its connections.
  \<^item> \<open>Submission\<close> (\<open>transaction_submission.rs\<close>): preparing and submitting a transfer.
  \<^item> \<open>Panic_Free\<close>: no handler of a consistent node reaches one of the panics above, and its
    answers are well formed.
  \<^item> \<open>Command_Line\<close>, \<open>Test_Modes\<close>, \<open>Demo\<close> (\<open>main.rs\<close>): the choice of the command and the operation
    each runs; the commands two operators run against each other; the demonstration of two nodes
    with its attacks. A command ends with what it prints, or with the failure or panic it stops at.
  \<^item> \<open>Examples\<close>, \<open>Scenarios\<close>, \<open>Program_Scenarios\<close>: a concrete network under toy cryptography for
    the witnesses.

  Loops and bounds. Loops over lists are recursions on them. The loops over a stream end
  because every message that is read takes bytes of it; \<open>take_loop\<close> and \<open>next_nonce_loop\<close> end by
  measures on the mempool. No definition uses fuel.

  Not modelled. Sockets, timers, the scheduling of tasks and printing; the loop of the
  authenticated listener around its sessions; the
  synchronization of a directory after a rename, whose failure is only printed; the code for
  Windows; module declarations and tests.
\<close>

section \<open>Nodes\<close>

text \<open>C1. Whatever a node that starts from a consistent state does (messages, submissions, relayed transactions and blocks, production, chunks, restore, synchronization, in any order and with any answers of clock and disk), its books stay balanced: account balances, treasury and liquidity reserve together are the total supply, which is the genesis supply plus one reward per block and never exceeds the maximum; and replaying its chain from the genesis state gives exactly its economy and account state.\<close>

theorem reachable_node_consistent:
  assumes "reachable pf (fs0, nd0) (fs, nd)" and "crypto_spec (pf_crypto pf)"
    and "node_wf (pf_crypto pf) nd0"
  defines "e \<equiv> bc_economy (nd_blockchain nd)" and "chain \<equiv> bc_chain (nd_blockchain nd)"
  shows "money (nd_state nd) e = unat (ec_total_supply e) \<and>
    unat (ec_total_supply e) = unat (ec_total_supply (nd_genesis_economy nd)) +
      (length chain - 1) * unat (ec_block_reward (nd_genesis_economy nd)) \<and>
    ec_total_supply e \<le> ec_max_supply e \<and>
    replay_chain (pf_crypto pf) (willing_clock (tl chain)) nd chain = Inr (nd_blockchain nd, nd_state nd) \<and>
    node_wf (pf_crypto pf) nd"
proof -
  have wf: "node_wf (pf_crypto pf) nd"
    using reachable_wf[OF assms(1-3)] by simp
  then have rebuilt: "rebuilds (pf_crypto pf) nd chain (nd_blockchain nd, nd_state nd)"
    and books: "books_balanced (nd_genesis_state nd) (nd_genesis_economy nd)"
    by (simp_all add: node_wf_def chain_def)
  show ?thesis
    using wf rebuilds_facts(1,3)[OF rebuilt books] rebuilt willing_clock_allows
    by (auto simp: books_balanced_def rebuilds_def e_def)
qed

theorem reachable_node_consistent_witness:
  "money demo_after (bc_economy demo_blockchain) = unat (ec_total_supply (bc_economy demo_blockchain)) \<and>
   node_wf toy_crypto demo_done"
  using reachable_node_consistent[OF demo_reachable] demo_node_wf toy_crypto_ok by simp

text \<open>C2. The blocks a node accepts, exactly, with every condition spelled out: the block names the hash of the tip, its own hash is that of its contents, its index is the length of the chain, its time is later than the tip's and at most the allowed drift ahead of the clock; the validator is a registered one, the one the hash of the tip selects, its address is that of the public key and its signature of the hash verifies under that key; texts have their lengths; there is at least one ordinary transaction and no more than the limit, no identifier is used twice or was used before, every ordinary transaction is authentic and pays the fee of its amount, and the last transaction is the coinbase of the block reward for that validator; and executing them, settling the fees, minting and crediting the reward goes through. The result is the extended chain with the resulting economy, and the resulting state.\<close>

theorem block_acceptance:
  "validate_and_apply_block cr clock co b bc st = Inr (bc', st') \<longleftrightarrow>
     (\<exists>previous now v signature txs coinbase e'.
        bc_chain bc \<noteq> [] \<and> previous = last (bc_chain bc) \<and>
        blk_previous_hash b = blk_hash previous \<and> blk_hash b = calculate_hash cr b \<and>
        blk_index b = word_of_nat (length (bc_chain bc)) \<and> blk_index b \<noteq> 0 \<and>
        clock = Some now \<and> unat now + unat MAX_FUTURE_DRIFT_SECONDS < 2 ^ 64 \<and>
        blk_timestamp previous < blk_timestamp b \<and>
        unat (blk_timestamp b) \<le> unat now + unat MAX_FUTURE_DRIFT_SECONDS \<and>
        select_validator_from_hash cr co (blk_hash previous) = Inr (Some v) \<and>
        v \<in> set (co_validators co) \<and> blk_validator b = val_address v \<and>
        address_from_public_key cr (blk_validator_public_key b) = Some (val_address v) \<and>
        blk_validator_signature b = Some signature \<and>
        wallet_verify cr (blk_validator_public_key b) (as_bytes (blk_hash b)) signature \<and>
        is_fixed_hex (blk_previous_hash b) HASH_HEX_LENGTH \<and> is_fixed_hex (blk_hash b) HASH_HEX_LENGTH \<and>
        is_fixed_hex (blk_validator b) ADDRESS_HEX_LENGTH \<and>
        is_fixed_hex (blk_validator_public_key b) PUBLIC_KEY_HEX_LENGTH \<and>
        is_fixed_hex signature SIGNATURE_HEX_LENGTH \<and>
        blk_transactions b = txs @ [coinbase] \<and> txs \<noteq> [] \<and>
        length (blk_transactions b) \<le> MAX_TOTAL_TRANSACTIONS_PER_BLOCK \<and>
        distinct (map tx_id (blk_transactions b)) \<and>
        tx_id ` set (blk_transactions b) \<inter> tx_id ` set (concat (map blk_transactions (bc_chain bc))) = {} \<and>
        list_all (\<lambda>tx. tx_authentic cr tx \<and> tx_fee tx = calculate_fee (bc_economy bc) (tx_amount tx)) txs \<and>
        coinbase = new_coinbase cr (val_address v) (ec_block_reward (bc_economy bc)) (blk_index b) \<and>
        is_fixed_hex (tx_id coinbase) HASH_HEX_LENGTH \<and>
        block_result cr b (bc_economy bc) st txs = Inr (e', st') \<and>
        bc' = bc\<lparr>bc_chain := bc_chain bc @ [b], bc_economy := e'\<rparr>)"
  by (rule accepted_block_iff)

text \<open>C3. An accepted block keeps the books balanced: the supply grows by exactly the block reward, and balances, treasury and liquidity reserve together grow by the same amount, so fees are moved and never created or lost; the settings of the economy do not change.\<close>

theorem accepted_block_conserves_money:
  assumes "validate_and_apply_block cr clock co b bc st = Inr (bc', st')"
    and "books_balanced st (bc_economy bc)"
  shows "books_balanced st' (bc_economy bc') \<and> settings (bc_economy bc') = settings (bc_economy bc) \<and>
    money st' (bc_economy bc') = money st (bc_economy bc) + unat (ec_block_reward (bc_economy bc))"
  using accepted_block_books[OF assms] assms(2) by (simp add: books_balanced_def)

theorem accepted_block_conserves_money_witness:
  "money demo_after (bc_economy demo_blockchain) = money demo_state demo_economy + 10000000"
  using accepted_block_conserves_money[OF demo_accepted[of 0]] demo_books by simp

text \<open>C4. Producer and receiver agree: the block a node produces is accepted by every node that holds the same chain, state and validator set, whose clock allows the timestamp and whose disk works, and leaves it with the chain, economy and account state of the producer.\<close>

theorem produced_block_is_accepted:
  assumes "crypto_spec (pf_crypto pf)" and "wallet_wf (pf_crypto pf) w" and "node_wf (pf_crypto pf) nd"
    and "produce_block pf ef fs nd t w = (fs', nd', Inr b)"
    and peer: "pf_crypto pf2 = pf_crypto pf" "nd_consensus peer = nd_consensus nd"
      "nd_blockchain peer = nd_blockchain nd" "nd_state peer = nd_state nd"
    and clock: "validate_future_timestamp (ef_clock ef2 0) (blk_timestamp b) = Inr ()"
    and save: "node_save pf2 ef2 fs2 peer (bc_chain (nd_blockchain nd')) = (fs3, Inr ())"
  shows "\<exists>peer'. receive_block pf2 ef2 fs2 peer b = (fs3, peer', Inr True) \<and>
    nd_blockchain peer' = nd_blockchain nd' \<and> nd_state peer' = nd_state nd'"
  using validate_other_clock[OF produce_block_accepted(1)[OF assms(1-4)] clock] peer save
  by (simp add: receive_block_def)

theorem produced_block_is_accepted_witness:
  "\<exists>peer'. receive_block demo_pf demo_effects fmempty demo_node demo_block = (demo_disk, peer', Inr True) \<and>
     nd_blockchain peer' = demo_blockchain \<and> nd_state peer' = demo_after"
  using produced_block_is_accepted[OF _ _ _ demo_produced, of demo_pf demo_node demo_effects fmempty demo_disk]
    toy_crypto_ok demo_waiting_wf demo_times(2) demo_disk by (simp add: demo_chain demo_block_sel)

text \<open>C5. A selected validator can always extend the chain: with a consistent node, an applicable pending transaction, valid fees, unused identifiers, a good timestamp, supply left for the reward and a working disk, production succeeds; none of the overflow checks on the way can fail.\<close>

theorem selected_validator_produces:
  assumes "crypto_spec (pf_crypto pf)" and "wallet_wf (pf_crypto pf) w"
    and "node_wf (pf_crypto pf) nd" and "is_valid (pf_crypto pf) (nd_blockchain nd)"
    and "is_validator_allowed (nd_consensus nd) (w_address w)"
    and "node_select_validator pf nd (blk_hash (last (bc_chain (nd_blockchain nd)))) = Inr (Some (w_address w))"
    and "blk_timestamp (last (bc_chain (nd_blockchain nd))) < t"
    and "validate_future_timestamp (ef_clock ef 0) t = Inr ()"
    and "pool_ready (nd_mempool nd) (nd_state nd) (bc_economy (nd_blockchain nd))"
    and "ids_unused (pf_crypto pf) (nd_blockchain nd) w (nd_mempool nd)"
    and "unat (ec_total_supply (bc_economy (nd_blockchain nd))) +
      unat (ec_block_reward (bc_economy (nd_blockchain nd))) \<le>
      unat (ec_max_supply (bc_economy (nd_blockchain nd)))"
    and "\<And>chain. chain \<noteq> [] \<Longrightarrow> \<exists>fs'. node_save pf ef fs nd chain = (fs', Inr ())"
  shows "\<exists>fs' nd' b. produce_block pf ef fs nd t w = (fs', nd', Inr b) \<and>
    bc_chain (nd_blockchain nd') = bc_chain (nd_blockchain nd) @ [b] \<and> blk_validator b = w_address w"
  by (rule produce_block_ok[OF assms])

theorem selected_validator_produces_witness:
  "\<exists>fs' nd' b. produce_block free_platform demo_effects fmempty demo_waiting demo_time alice = (fs', nd', Inr b) \<and>
     bc_chain (nd_blockchain nd') = [demo_genesis, b] \<and> blk_validator b = w_address alice"
  using selected_validator_produces[of free_platform alice demo_waiting demo_time demo_effects fmempty]
    toy_crypto_ok demo_waiting_wf demo_node_valid demo_allowed demo_selected demo_times demo_pool_ready
    demo_ids_unused free_platform_saves[of _ demo_waiting]
  by (simp add: node_select_validator_def)

text \<open>C6. No double spend: in the chain of a consistent node, two ordinary transactions of one sender (fewer than 2^64 - 1 transactions apart, the range of the nonce) never carry the same nonce.\<close>

theorem no_double_spend:
  assumes wf: "node_wf cr nd"
    and split: "concat (map blk_transactions (tl (bc_chain (nd_blockchain nd)))) = xs @ t # ys @ u # zs"
    and "\<not> tx_coinbase t" and "\<not> tx_coinbase u" and "tx_from t = tx_from u"
    and "length ys < 2 ^ 64 - 1"
  shows "tx_nonce t \<noteq> tx_nonce u"
proof -
  let ?chain = "bc_chain (nd_blockchain nd)"
  obtain bc0 st0 where start: "genesis_start nd (hd ?chain) = (bc0, st0)"
    by fastforce
  then have books: "books_balanced st0 (bc_economy bc0)"
    using wf by (auto simp: genesis_start_def node_wf_def)
  have "replay_blocks cr (willing_clock (tl ?chain)) (nd_consensus nd) (bc0, st0) 0 (tl ?chain) =
      Inr (nd_blockchain nd, nd_state nd)"
    using wf willing_clock_allows by (simp add: node_wf_def rebuilds_def replay_chain_eq flip: start)
  from replay_no_double_spend[OF this books split assms(3-6)] show ?thesis .
qed

theorem no_double_spend_witness: "tx_nonce demo_tx \<noteq> tx_nonce demo_next_tx"
proof -
  have "concat (map blk_transactions (tl (bc_chain (nd_blockchain demo_done)))) =
      [] @ demo_tx # [] @ demo_next_tx # [new_coinbase toy_crypto (w_address alice) 10000000 1]"
    by (simp add: demo_chain demo_block_transactions)
  from no_double_spend[OF demo_done_wf this] show ?thesis
    by simp
qed

text \<open>C7. The chain of a node never gets shorter and its genesis records never change, whatever it does; and the length tells whether anything happened: as long as it is the same, chain, economy and account state are the same. (The synchronization task compares only lengths before it adopts a candidate.)\<close>

theorem chain_never_shrinks:
  assumes "reachable pf (fs0, nd0) (fs, nd)"
  defines "n0 \<equiv> length (bc_chain (nd_blockchain nd0))" and "n \<equiv> length (bc_chain (nd_blockchain nd))"
  shows "n0 \<le> n \<and>
    (n = n0 \<longrightarrow> nd_blockchain nd = nd_blockchain nd0 \<and> nd_state nd = nd_state nd0) \<and>
    nd_genesis_state nd = nd_genesis_state nd0 \<and> nd_genesis_economy nd = nd_genesis_economy nd0 \<and>
    nd_consensus nd = nd_consensus nd0"
  using reachable_frame[OF assms(1)] reachable_grows[OF assms(1)]
  by (auto simp: node_frame_def grows_def n0_def n_def)

theorem chain_never_shrinks_witness:
  "length (bc_chain (nd_blockchain demo_node)) \<le> length (bc_chain (nd_blockchain demo_done))"
  using chain_never_shrinks[OF demo_reachable] by simp



section \<open>A running node\<close>

text \<open>C9. The tasks of a running node keep it consistent, whatever they interleave with: if every other task only changes the shared runtime by steps of the node between two locked regions, then serving a connection, a tick of the production and a round of synchronization only change it by such steps too, and after each the runtime is consistent (balanced books, replayable chain, canonical genesis, usable identity).\<close>

theorem tasks_keep_runtime_consistent:
  assumes "runtime_wf pf s" and "rely pf others" and "\<And>sy. sy \<in> set peers \<Longrightarrow> rely pf (sy_others sy)"
    and "s' \<in> {fst (serve_connection wr pf clock sa identity regions answers others s cn),
      fst (production_tick pf re others s), fst (sync_round wr pf identity a peers others s)}"
  shows "reachable pf (fst s, rt_node (snd s)) (fst s', rt_node (snd s')) \<and> runtime_wf pf s' \<and>
    rt_validator_identity (snd s') = rt_validator_identity (snd s)"
proof -
  have "evolves pf s (fst (serve_connection wr pf clock sa identity regions answers others s cn))"
    using serve_connection_evolves[OF assms(2,1)] by (metis prod.collapse)
  moreover have "evolves pf s (fst (production_tick pf re others s))"
    using production_tick_evolves[OF assms(2,1)] by (metis prod.collapse)
  moreover have "evolves pf s (fst (sync_round wr pf identity a peers others s))"
    using sync_round_evolves[OF assms(3,2,1)] by (metis prod.collapse)
  ultimately have "evolves pf s s'"
    using assms(4) by auto
  with evolves_wf[OF assms(1) this] show ?thesis
    by (simp add: evolves_def node_at_def)
qed

theorem tasks_keep_runtime_consistent_witness:
  "runtime_wf free_platform (fst (production_tick free_platform demo_region (\<lambda>n s. s) (fmempty, demo_runtime canonical_node)))"
    using tasks_keep_runtime_consistent[of free_platform "(fmempty, demo_runtime canonical_node)" "\<lambda>n s. s" "[]"
        "fst (production_tick free_platform demo_region (\<lambda>n s. s) (fmempty, demo_runtime canonical_node))", where re = demo_region]
      canonical_runtime_wf[of free_platform fmempty] alone_rely[of free_platform] by simp

text \<open>C10. At most 64 connections: whatever happens to a started node in whatever order (ticks, arrivals, accepted handshakes, messages and ends of its sessions, rounds of synchronization, the shutdown), free permits and sessions together are the 64 of the semaphore, an arriving connection is dropped exactly when all are taken, and the shared runtime is consistent and only evolves by steps of the node.\<close>

theorem connections_bounded:
  assumes "main_reachable pf (main_start s) m" and "runtime_wf pf s"
  shows "ml_permits m + length (ml_sessions m) = 64 \<and>
    (accept_arrival m = m \<longleftrightarrow> length (ml_sessions m) = 64) \<and>
    runtime_wf pf (ml_shared m) \<and>
    reachable pf (fst s, rt_node (snd s)) (fst (ml_shared m), rt_node (snd (ml_shared m)))"
proof -
  have start: "ml_shared (main_start s) = s"
    by (simp add: main_start_def)
  note good = main_reachable_good[OF assms(1) _ main_start_permits, unfolded start, OF assms(2)]
  then show ?thesis
    using accept_arrival_full[of m]
    by (simp add: permits_kept_def MAX_CONCURRENT_NETWORK_CONNECTIONS_def evolves_def node_at_def)
qed

theorem connections_bounded_witness:
  "ml_permits (accept_arrival (main_start (fmempty, demo_runtime canonical_node))) + 1 = 64"
proof -
  let ?m = "main_start (fmempty, demo_runtime canonical_node)"
  have "main_step free_platform ?m (accept_arrival ?m)"
    by (rule main_step.arrival) (simp add: main_start_def)
  then have run: "main_reachable free_platform ?m (accept_arrival ?m)"
    by (rule main_reachable_step[OF main_reachable_start])
  have "length (ml_sessions (accept_arrival ?m)) = 1"
    by (simp add: accept_arrival_def main_start_def try_acquire_def MAX_CONCURRENT_NETWORK_CONNECTIONS_def)
  then show ?thesis
    using connections_bounded[OF run canonical_runtime_wf] by simp
qed

text \<open>C11. Synchronization with an honest peer: a peer whose consistent and valid chain extends the local one answers every request with its chunk of at most 256 blocks; when the connection, the clock and the disk work and no other task changes the chain in between, the synchronization succeeds and the node has exactly the blockchain, economy and account state of the peer.\<close>

theorem synchronization_reaches_peer:
  assumes "wire_spec wr" and "node_wf (pf_crypto pf) (rt_node rt)"
    and "node_wf (pf_crypto pf) peer" and "is_valid (pf_crypto pf) (nd_blockchain peer)"
    and "nd_consensus peer = nd_consensus (rt_node rt)"
      "nd_genesis_state peer = nd_genesis_state (rt_node rt)"
      "nd_genesis_economy peer = nd_genesis_economy (rt_node rt)"
    and "bc_chain (nd_blockchain peer) = bc_chain (nd_blockchain (rt_node rt)) @ later" "later \<noteq> []"
    and "servable wr (bc_chain (nd_blockchain peer))"
    and "clock_allows (\<lambda>i. ef_clock (sy_ticks sy i) 0) 0 later"
    and "\<And>k. sy_answers sy k = all_written" and "\<And>n s. sy_others sy n s = s"
    and "connect_authenticated wr (pf_crypto pf) (sy_clock sy) (sy_random sy)
      (sy_handshake_answers sy) w a (sy_dialled sy) = Inr cn"
    and "cn_incoming cn = answers_for wr (bc_chain (nd_blockchain peer))
      (sync_requests (length (bc_chain (nd_blockchain peer))) (length (bc_chain (nd_blockchain (rt_node rt)))))"
    and "node_save pf (sy_effects sy) fs (rt_node rt) (bc_chain (nd_blockchain peer)) = (fs', Inr ())"
  shows "sync_from_peer wr pf sy w a (fs, rt) =
    ((fs', rt\<lparr>rt_node := (rt_node rt)\<lparr>nd_blockchain := nd_blockchain peer, nd_state := nd_state peer,
        nd_mempool := mempool_new\<rparr>\<rparr>), Inr ())"
  by (rule sync_with_honest_peer[OF assms])

theorem synchronization_reaches_peer_witness:
  "sync_from_peer sync_wire demo_pf demo_sync alice ''10.0.0.1:9000'' (fmempty, demo_runtime demo_node) =
    ((demo_disk, demo_runtime (demo_node\<lparr>nd_blockchain := demo_blockchain, nd_state := demo_after,
        nd_mempool := mempool_new\<rparr>)), Inr ())"
proof -
  have "clock_allows (\<lambda>i. ef_clock (sy_ticks demo_sync i) 0) 0 [demo_block]"
    using demo_times(2)[of 0] demo_block_sel(1) by (simp add: clock_allows_def)
  moreover have "nd_genesis_state demo_done = nd_genesis_state demo_node"
    "nd_genesis_economy demo_done = nd_genesis_economy demo_node"
    by (simp_all add: demo_done_def demo_waiting_def)
  ultimately show ?thesis
    using synchronization_reaches_peer[OF sync_wire(1), of demo_pf "demo_runtime demo_node" demo_done "[demo_block]"
        demo_sync alice "''10.0.0.1:9000''" "demo_dialled\<lparr>cn_incoming := answers_for sync_wire demo_later [0],
        cn_outgoing := frame_of sync_wire demo_handshake\<rparr>" fmempty demo_disk]
      demo_node_wf demo_done_wf demo_blockchain_valid demo_servable[unfolded demo_later_def] demo_connected demo_disk
      demo_sync_requests[unfolded numeral_2_eq_2 One_nat_def]
    by (simp add: demo_chain demo_later_def demo_runtime_def)
qed

text \<open>C12. An answer with too many bytes is never sent: when the text of the requested blocks (up to 256, whatever their size) is longer than a message may be, the session that asked ends with an error and without any byte of an answer, so a peer that asks for this chunk cannot synchronize from the node.\<close>

theorem oversized_chunk_is_never_answered:
  assumes "read_message_or_eof wr cn = (cn', Inr (Some (Chain_chunk_request (word_of_nat i))))"
    and "others n s = (fs, rt)"
    and "i \<le> length (bc_chain (nd_blockchain (rt_node rt)))" "i < 2 ^ 64"
    and "wr_to_vec wr (honest_answer (bc_chain (nd_blockchain (rt_node rt))) i) = Some bytes"
      "MAX_NETWORK_MESSAGE_BYTES < length bytes"
  shows "session_loop wr pf regions answers others one_shot n s cn =
    ((fs, rt), cn', [], Inl (Transport_error Message_limit_exceeded)) \<and> cn_outgoing cn' = cn_outgoing cn"
proof -
  have "cn' = cn\<lparr>cn_incoming := cn_incoming cn'\<rparr>"
    using assms(1) unfolding read_message_or_eof_Some by blast
  from arg_cong[OF this, of cn_outgoing] show ?thesis
    using oversized_answer_ends_session[where others = others and n = n and s = s, OF assms] by simp
qed

theorem oversized_chunk_is_never_answered_witness:
  "session_loop long_wire free_platform (\<lambda>i. demo_region) (\<lambda>i. all_written) (\<lambda>n s. s) False 1 (fmempty, demo_runtime demo_node) asking =
    ((fmempty, demo_runtime demo_node), incoming [], [], Inl (Transport_error Message_limit_exceeded))"
  using oversized_chunk_is_never_answered[where others = "\<lambda>n s. s" and n = 1 and s = "(fmempty, demo_runtime demo_node)",
      OF long_wire_request refl _ _ long_wire_answer] by simp

text \<open>C13. Answers have their type: whatever a consistent running node with a valid chain is asked, every reply it makes passes the checks a receiver makes on every message (addresses and hashes of the right length, a rejection with its reason, chunks within their bounds), at any time of the receiver, unless its text is too long.\<close>

theorem replies_well_formed:
  assumes "runtime_wf pf (fs, rt)" and "is_valid (pf_crypto pf) (nd_blockchain (rt_node rt))"
    and "process_message pf re fs rt m one_shot = (fs', rt', Inr actions)" and "Reply answer \<in> set actions"
    and "msize answer = Some n" "n \<le> MAX_NETWORK_MESSAGE_BYTES"
  shows "message_within_limits cr msize clock answer"
proof -
  have "node_wf (pf_crypto pf) (rt_node rt)"
    using assms(1) by (simp add: runtime_wf_def)
  from replies_within_limits[OF this assms(2-4), where msize = msize] assms(5,6) show ?thesis
    by blast
qed

theorem replies_well_formed_witness:
  "message_within_limits toy_crypto (\<lambda>_. Some 1000) None alice_is_told"
  using replies_well_formed[OF canonical_runtime_wf _ alice_is_told, of alice_is_told "\<lambda>_. Some 1000" 1000]
    canonical_node_valid by (simp add: MAX_NETWORK_MESSAGE_BYTES_def)



section \<open>Submitted transactions\<close>

text \<open>C15. A prepared transaction is acknowledged: what a client prepares from the balance and the nonce of its account is admitted by a node in that state that holds nothing else of the sender, and answered with a positive acknowledgement, before it is broadcast.\<close>

theorem prepared_transaction_acknowledged:
  assumes "crypto_spec (pf_crypto pf)" and "wallet_wf (pf_crypto pf) signer"
    and "prepare_signed_transaction (pf_crypto pf) signer recipient amount
      (nd_state (rt_node rt)) (bc_economy (nd_blockchain (rt_node rt))) = Inr tx"
    and "\<And>t. t \<in> set (mp_transactions (nd_mempool (rt_node rt))) \<Longrightarrow>
      tx_from t \<noteq> w_address signer \<and> tx_id t \<noteq> tx_id tx"
    and "length (mp_transactions (nd_mempool (rt_node rt))) < MAX_MEMPOOL_TRANSACTIONS"
    and "node_wf (pf_crypto pf) (rt_node rt)"
  shows "\<exists>more. snd (snd (process_message pf re fs rt (Transaction_message tx) True)) =
    Inr (Reply (Transaction_ack (tx_id tx) True None) # Broadcast (Transaction_message tx) # more)"
  by (rule prepared_is_acknowledged[OF assms])

theorem prepared_transaction_acknowledged_witness:
  "\<exists>more. snd (snd (process_message free_platform demo_region fmempty (demo_runtime demo_node)
       (Transaction_message demo_tx) True)) =
     Inr (Reply (Transaction_ack (tx_id demo_tx) True None) # Broadcast (Transaction_message demo_tx) # more)"
  using prepared_transaction_acknowledged[of free_platform alice "w_address bob" 1000 "demo_runtime demo_node"]
    demo_prepared toy_crypto_ok demo_node_wf
  by (simp add: mempool_new_def MAX_MEMPOOL_TRANSACTIONS_def)

text \<open>C16. One transaction at a time: to a request for an account a node reports the nonce of the account state, not the next one of the mempool. So while the sender's transaction with that nonce waits for a block, whatever transaction is prepared from the balance and nonce the node reports, with whatever economy the client computes the fee, is turned down with the rejection, and nothing changes.\<close>

theorem second_submission_turned_down:
  assumes "crypto_spec (pf_crypto pf)" and "wallet_wf (pf_crypto pf) signer"
    and reported: "process_message pf re0 fs0 rt (Account_state_request (w_address signer)) True =
      (fs0, rt, Inr [Reply (Account_state_response address balance nonce tip_index tip_hash)])"
    and prepared: "prepare_signed_transaction_from_values (pf_crypto pf) signer recipient amount balance nonce e = Inr tx"
    and waiting: "t \<in> set (mp_transactions (nd_mempool (rt_node rt)))" "tx_from t = w_address signer"
      "tx_nonce t = nonce_of (nd_state (rt_node rt)) (w_address signer)"
  shows "process_message pf re fs rt (Transaction_message tx) True =
    (fs, rt, Inr [Reply (Transaction_ack (tx_id tx) False (Some REJECTION_REASON))])"
  by (rule second_prepared_is_turned_down[OF assms])

theorem second_submission_turned_down_witness:
  "process_message free_platform demo_region fmempty (demo_runtime demo_first) (Transaction_message demo_second) True =
    (fmempty, demo_runtime demo_first, Inr [Reply (Transaction_ack (tx_id demo_second) False (Some REJECTION_REASON))])"
  by (rule second_submission_turned_down[where pf = free_platform and signer = alice and t = demo_tx,
        OF _ _ demo_first_reported demo_second_prepared[folded platform_sel(3)]])
    (simp_all add: toy_crypto_ok)

text \<open>C17. What a validator replays from its stored chain before it submits a transaction is what the node computed: the account state and the economy of a consistent node whose chain is on the disk.\<close>

theorem replayed_state_is_node_state:
  assumes "crypto_spec (pf_crypto pf)" and "canonical_bootstrap (pf_crypto pf) = Inr cb"
    and "node_wf (pf_crypto pf) nd"
    and "nd_consensus nd = cb_consensus cb" "nd_genesis_state nd = cb_state cb"
      "nd_genesis_economy nd = bc_economy (cb_blockchain cb)"
    and "bc_chain (nd_blockchain nd) = bc_chain (cb_blockchain cb) @ later"
    and "clock_allows (\<lambda>i. ef_clock (ticks i) 0) 0 later"
    and "load_blockchain_from (pf_json pf) rio fs dir = Inr (Some (bc_chain (nd_blockchain nd)))"
  shows "load_replayed_state pf rio ticks fs dir = Inr (nd_state nd, bc_economy (nd_blockchain nd))"
  by (rule load_replayed_state_node[OF assms])

theorem replayed_state_is_node_state_witness:
  "load_replayed_state (demo_platform [bc_chain (cb_blockchain toy_bootstrap)]) \<lparr>io_open = True, io_read_to_end = True\<rparr>
     (\<lambda>i. demo_effects) (fmupd (blockchain_path_in ''data'') [1] fmempty) ''data'' =
   Inr (cb_state toy_bootstrap, bc_economy (cb_blockchain toy_bootstrap))"
  using replayed_state_is_node_state[of "demo_platform [bc_chain (cb_blockchain toy_bootstrap)]" toy_bootstrap
      canonical_node "[]" "\<lambda>i. demo_effects" "\<lparr>io_open = True, io_read_to_end = True\<rparr>"
      "fmupd (blockchain_path_in ''data'') [1] fmempty" "''data''"]
    toy_crypto_ok toy_bootstrap canonical_node_ok canonical_node_chain
  by (simp add: clock_allows_def load_blockchain_from_def table_json_def table_decode_def)

section \<open>The disk and the chain\<close>

text \<open>C18. The disk follows the node: after any run, either nothing of the stored chain, the chain in memory and the account state has changed, or the stored chain is exactly the chain in memory. A chain is committed in memory only after it was saved.\<close>

theorem disk_follows_node:
  assumes "reachable pf (fs0, nd0) (fs, nd)" and "json_spec (pf_json pf)"
  defines "stored \<equiv> stored_chain (nd_storage_directory nd0) (pf_json pf)"
  shows "stored fs = stored fs0 \<and> nd_blockchain nd = nd_blockchain nd0 \<and> nd_state nd = nd_state nd0 \<or>
    stored fs = Inr (Some (bc_chain (nd_blockchain nd)))"
  using reachable_disk[OF assms(1,2)] by (auto simp: disk_follows_def stored_def Let_def)

theorem disk_follows_node_witness:
  "stored_chain ''data'' (table_json demo_known) demo_disk = Inr (Some [demo_genesis, demo_block])"
proof -
  have "nd_blockchain demo_done \<noteq> nd_blockchain demo_node"
    using demo_chain by (metis demo_done_sel(1) demo_node_sel(1) list.inject not_Cons_self2)
  then show ?thesis
    using disk_follows_node[OF demo_reachable] by (simp add: table_json_spec demo_chain)
qed

text \<open>C19. Restart: a consistent node with a valid chain that was saved is found on disk with exactly that chain, and a fresh node started from the same genesis restores from it the same blockchain, economy and account state.\<close>

theorem restart_restores_node:
  assumes "node_wf (pf_crypto pf) nd" and "is_valid (pf_crypto pf) (nd_blockchain nd)"
    and "1 < length (bc_chain (nd_blockchain nd))" and "json_spec (pf_json pf)"
    and saved: "node_save pf ef0 fs0 nd (bc_chain (nd_blockchain nd)) = (fs, Inr ())"
    and "clock_allows (ef_clock ef) 0 (tl (bc_chain (nd_blockchain nd)))"
    and "node_save pf ef fs nd (bc_chain (nd_blockchain nd)) = (fs', Inr ())"
  shows "stored_chain (nd_storage_directory nd) (pf_json pf) fs = Inr (Some (bc_chain (nd_blockchain nd))) \<and>
    restore_chain_from_storage pf ef fs (started nd) (bc_chain (nd_blockchain nd)) =
      (fs', (started nd)\<lparr>nd_blockchain := nd_blockchain nd, nd_state := nd_state nd\<rparr>, Inr ())"
  using store.save_cases[of "(nd_storage_directory nd, pf_json pf)" "ef_io ef0" fs0
      "bc_chain (nd_blockchain nd)"] saved assms(4) restart_restores[OF assms(1-3,6,7)] by simp

theorem restart_restores_node_witness:
  "\<exists>fs. restore_chain_from_storage demo_pf demo_effects demo_disk (started demo_done) [demo_genesis, demo_block] =
     (fs, (started demo_done)\<lparr>nd_blockchain := demo_blockchain, nd_state := demo_after\<rparr>, Inr ())"
proof -
  have save: "node_save demo_pf demo_effects fmempty demo_done (bc_chain (nd_blockchain demo_done)) = (demo_disk, Inr ())"
    using demo_disk by (simp add: demo_chain)
  obtain fs where "node_save demo_pf demo_effects demo_disk demo_done (bc_chain (nd_blockchain demo_done)) = (fs, Inr ())"
    using demo_saves_again by (auto simp: demo_chain)
  moreover have "clock_allows (ef_clock demo_effects) 0 (tl (bc_chain (nd_blockchain demo_done)))"
    using demo_times(2) by (simp add: clock_allows_def demo_chain demo_block_sel)
  ultimately show ?thesis
    using restart_restores_node[OF _ _ _ _ save] demo_done_wf demo_blockchain_valid
    by (auto simp: table_json_spec demo_chain)
qed



text \<open>C21. Chunked synchronization ends and assembles the chain: a sender that answers each request with the next (at most 256) blocks of a well indexed chain is asked at most length / 256 + 1 times, and the receiver ends exactly in the outcome of synchronizing with the whole chain.\<close>

theorem chunked_transfer_assembles:
  assumes "well_indexed chain" and "length chain < 2 ^ 64" and "chain \<noteq> []"
    and "length chain < rounds * MAX_SYNC_BLOCKS_PER_MESSAGE + 1"
  shows "transfer rounds pf ef chain fs nd 0 =
    Some (synchronize_chain pf ef fs (clear_transfer nd) chain)"
  using transfer_assembles[OF assms(1,2), of 0 nd rounds] assms(3,4) by (simp add: receiving_def)

theorem chunked_transfer_assembles_witness:
  "transfer 1 demo_pf demo_effects [demo_genesis, demo_block] fmempty demo_node 0 =
     Some (synchronize_chain demo_pf demo_effects fmempty (clear_transfer demo_node) [demo_genesis, demo_block])"
proof -
  have "well_indexed [demo_genesis, demo_block]"
    by (simp add: well_indexed_def less_Suc_eq demo_block_sel)
  then show ?thesis
    using chunked_transfer_assembles[of "[demo_genesis, demo_block]" 1]
    by (simp add: MAX_SYNC_BLOCKS_PER_MESSAGE_def)
qed

text \<open>C22. The hash of the last block commits to the whole chain: two valid chains with the same tip hash carry the same blocks (up to the validator signatures, which the hash does not cover), or two of their blocks are a SHA-256 collision.\<close>

theorem tip_hash_commits_to_chain:
  assumes "sha256_spec cr" and "is_valid cr bc" and "is_valid cr bd"
    and "list_all block_fits (bc_chain bc)" and "list_all block_fits (bc_chain bd)"
    and "length (bc_chain bc) < 2 ^ 64" and "length (bc_chain bd) < 2 ^ 64"
    and "bc_chain bc \<noteq> []" and "bc_chain bd \<noteq> []"
    and "blk_hash (last (bc_chain bc)) = blk_hash (last (bc_chain bd))"
  shows "map block_payload (bc_chain bc) = map block_payload (bc_chain bd) \<or>
    collision_between cr (bc_chain bc) (bc_chain bd)"
  by (rule tip_determines_chain[OF assms])

theorem tip_hash_commits_to_chain_witness:
  "map block_payload [demo_genesis] = map block_payload [demo_genesis] \<or>
     collision_between toy_crypto [demo_genesis] [demo_genesis]"
  using tip_hash_commits_to_chain[OF toy_sha256_spec demo_node_valid demo_node_valid]
  by (simp add: demo_genesis_fits)

text \<open>C23. The genesis block of a synchronized chain is not compared in full: with an accepted longer chain, the chain that differs from it in an arbitrary validator signature on the genesis block is accepted too, and the blockchain the node then holds fails its own validation.\<close>

theorem signed_genesis_is_adopted:
  assumes "synchronize_chain pf ef fs nd chain = (fs', nd', Inr ())"
    and "length (bc_chain (nd_blockchain nd)) < length chain"
    and "node_save pf ef fs nd (sign_genesis s chain) = (fs2, Inr ())"
  shows "synchronize_chain pf ef fs nd (sign_genesis s chain) =
      (fs2, nd'\<lparr>nd_blockchain := genesis_signed s (nd_blockchain nd')\<rparr>, Inr ()) \<and>
    \<not> is_valid (pf_crypto pf) (genesis_signed s (nd_blockchain nd'))"
  using signed_genesis_accepted[OF assms] by simp

theorem signed_genesis_is_adopted_witness:
  "\<not> is_valid toy_crypto (genesis_signed ''forged'' demo_blockchain)"
proof -
  obtain fs' nd' where sync: "synchronize_chain free_platform demo_effects fmempty demo_node [demo_genesis, demo_block] =
      (fs', nd', Inr ())" and "nd_blockchain nd' = demo_blockchain"
    using demo_synchronized by blast
  then show ?thesis
    using signed_genesis_is_adopted[OF sync, of "''forged''"]
      free_platform_saves[of "sign_genesis ''forged'' [demo_genesis, demo_block]" demo_node]
    by (auto simp: sign_genesis_def)
qed

section \<open>The program\<close>

text \<open>C24. From key to role: a node that is started after \<open>provision-validator\<close> succeeded, on the disk it left and with the same environment, runs as a validator under the address the command printed.\<close>

theorem provisioned_validator_starts:
  assumes "hex_spec (ho_crypto h)" "vault_spec (ho_vault h)" "validator_json_spec (ho_validator_json h)"
      "generated_lengths (ho_key_io h)"
    and "provision_command h fs = (fs', Inr (Keystore_created a p))"
    and "\<And>bs. fmlookup fs' (validator_keystore_path (configured_directory h)) = Some bs \<Longrightarrow>
      bs \<noteq> [] \<and> length bs \<le> MAX_VALIDATOR_KEYSTORE_BYTES"
    and "ho_platform h' = ho_platform h" "ho_vault h' = ho_vault h"
      "ho_validator_json h' = ho_validator_json h" "ho_var h' = ho_var h" "readable (ho_key_io h')"
    and "node_command h' ef fs' arguments = (fs'', Inr (Node_started rt peers))"
  shows "role rt = Validator \<and> runtime_validator_address rt = Some a"
  using provision_then_node[OF assms(1-5) _ assms(7-)] assms(6) by blast

theorem provisioned_validator_starts_witness:
  "\<exists>fs fs' rt p. provision_command (program_host validator_crypto) fmempty =
      (fs, Inr (Keystore_created GENESIS_VALIDATOR_A_ADDRESS p)) \<and>
    node_command (program_host validator_crypto) demo_effects fs [''kybernetes''] = (fs', Inr (Node_started rt [])) \<and>
    role rt = Validator \<and> runtime_validator_address rt = Some GENESIS_VALIDATOR_A_ADDRESS"
proof -
  obtain bs where prov: "provision_command (program_host validator_crypto) fmempty =
      (fmupd (validator_keystore_path ''data'') bs fmempty,
       Inr (Keystore_created GENESIS_VALIDATOR_A_ADDRESS (validator_keystore_path ''data'')))"
    and bs: "bs \<noteq> []" "length bs \<le> 3"
    using program_provisioned by blast
  obtain fs' rt where start: "node_command (program_host validator_crypto) demo_effects
      (fmupd (validator_keystore_path ''data'') bs fmempty) [''kybernetes''] = (fs', Inr (Node_started rt []))"
    using program_started[OF prov refl bs] by blast
  have "role rt = Validator \<and> runtime_validator_address rt = Some GENESIS_VALIDATOR_A_ADDRESS"
    by (rule provisioned_validator_starts[OF _ _ _ _ prov _ _ _ _ _ _ start])
      (use bs validator_crypto_hex demo_vault_spec program_json(1) demo_key_io in
        \<open>simp_all add: MAX_VALIDATOR_KEYSTORE_BYTES_def split: if_splits\<close>)
  with prov start show ?thesis
    by blast
qed

text \<open>C25. A created user wallet is found again: after \<open>wallet create\<close>, \<open>wallet address\<close> in the same environment prints the same address and public key, and leaves the disk alone.\<close>

theorem created_wallet_has_address:
  assumes "hex_spec (ho_crypto h)" "vault_spec (ho_vault h)" "user_wallet_json_spec (ho_wallet_json h)"
      "generated_lengths (ho_key_io h)"
    and "wallet_command h fs arguments = (fs', Inr (Wallet_created a pk p))"
    and "ho_platform h' = ho_platform h" "ho_vault h' = ho_vault h" "ho_wallet_json h' = ho_wallet_json h"
      "ho_var h' = ho_var h" "readable (ho_key_io h')"
    and "length arguments' = 3" "arguments' ! 2 = ''address''"
  shows "wallet_command h' fs' arguments' = (fs', Inr (Wallet_address a pk))"
  by (rule wallet_create_then_address[OF assms])

theorem created_wallet_has_address_witness:
  "\<exists>fs. fst (wallet_command (program_host toy_crypto) fmempty [''kybernetes'', ''wallet'', ''create'']) = fs \<and>
    wallet_command (program_host toy_crypto) fs [''kybernetes'', ''wallet'', ''address''] =
      (fs, Inr (Wallet_address (w_address alice) (public_key_hex toy_crypto alice)))"
proof -
  obtain fs where create: "wallet_command (program_host toy_crypto) fmempty [''kybernetes'', ''wallet'', ''create''] =
      (fs, Inr (Wallet_created (w_address alice) (public_key_hex toy_crypto alice) (user_wallet_path ''data'')))"
    using program_wallet_created by blast
  have "wallet_command (program_host toy_crypto) fs [''kybernetes'', ''wallet'', ''address''] =
      (fs, Inr (Wallet_address (w_address alice) (public_key_hex toy_crypto alice)))"
    by (rule created_wallet_has_address[OF _ _ _ _ create])
      (simp_all add: toy_hex_spec demo_vault_spec demo_wallet_json demo_key_io)
  with create show ?thesis
    by simp
qed

text \<open>C26. A bad handshake is turned away: a handshake of the test senders (too old, another protocol version, another network), correctly signed, read at any later time, is answered with a negative acknowledgement of its own challenge and ends the session; the network registers nothing.\<close>

theorem bad_handshakes_refused:
  assumes "wire_spec wr"
    and "m \<in> {stale_handshake cr (Some t) random w, wrong_version_handshake cr (Some t) random w,
      wrong_network_handshake cr (Some t) random w}"
    and "121 \<le> unat t" "unat t \<le> unat now" "clock 0 = Some now"
    and "cn_incoming cn = frame_of wr m @ rest" "sendable wr m"
    and "ack = create_handshake_ack cr (clock 1) w' False (hex_encode cr random)" "sendable wr ack"
  shows "authenticate_incoming wr cr clock all_written w' cn =
      (cn\<lparr>cn_incoming := rest, cn_outgoing := cn_outgoing cn @ frame_of wr ack\<rparr>,
       Inl (Transport_error Peer_handshake_invalid)) \<and>
    network_receive cr msize (Some now) nw m = nw"
proof -
  note m = assms(2)[folded refused_handshakes_def]
  show ?thesis
    using refused_handshake_answered[OF assms(1) m assms(3-)] refused_handshake(1)[OF m assms(3,4)]
    by (simp add: network_receive_def)
qed

theorem bad_handshakes_refused_witness:
  "snd (authenticate_incoming refusing_wire toy_crypto accepting_clock all_written bob
     (incoming (frame_of refusing_wire late_handshake))) = Inl (Transport_error Peer_handshake_invalid)"
  using bad_handshakes_refused[OF refusing_wire(1), of late_handshake toy_crypto 1000 demo_random alice 1060
      accepting_clock "incoming (frame_of refusing_wire late_handshake)" "[]" refusal bob] refusing_wire
  by (simp add: late_handshake_def refusal_def accepting_clock_def)

text \<open>C27. A test session transfers the whole chain: the sender that serves a consistent node's valid chain in parts of four blocks and the receiver that fetches it, each on the stream the other one wrote, both end; the sender counts as many parts as the chain needs, and the receiver, a fresh node of the same genesis, ends with the sender's blockchain and account state, saved on its disk.\<close>

theorem chunk_sync_session:
  fixes peer :: node
  defines "chain \<equiv> bc_chain (nd_blockchain peer)"
  defines "starts \<equiv> part_starts (length chain) 0"
  assumes "wire_spec wr" and "part_servable wr chain" and "\<And>k. answers k = all_written" "\<And>k. answers' k = all_written"
    and "node_wf (pf_crypto pf) peer" "is_valid (pf_crypto pf) (nd_blockchain peer)" "1 < length chain"
    and "clock_allows (ef_clock (ticks (length starts - 1))) 0 (tl chain)"
    and "node_save pf (ticks (length starts - 1)) fs peer chain = (fs', Inr ())"
    and "cn_incoming cn' = requests_for wr starts" and "cn_incoming cn = part_answers wr chain starts"
  shows "serve_parts wr answers' chain 0 cn' =
      (cn'\<lparr>cn_incoming := [], cn_outgoing := cn_outgoing cn' @ part_answers wr chain starts\<rparr>,
       Inr ((length chain + 3) div 4)) \<and>
    fetch_parts wr pf answers ticks 0 0 None fs (started peer) cn =
      (fs', (started peer)\<lparr>nd_blockchain := nd_blockchain peer, nd_state := nd_state peer\<rparr>,
       cn\<lparr>cn_incoming := [], cn_outgoing := cn_outgoing cn @ requests_for wr starts\<rparr>,
       Inr (Some (word_of_nat (length chain)), (length chain + 3) div 4))"
proof -
  note session = parts_session[where answers = answers and answers' = answers' and rest = "[]" and rest' = "[]"
        and ticks = ticks, OF assms(3,4)[unfolded chain_def] assms(5-8) assms(9-11)[unfolded chain_def starts_def]]
  show ?thesis
    using session[of cn' cn] assms(12,13) by (simp add: chain_def starts_def part_starts_length)
qed

theorem chunk_sync_session_witness:
  "snd (serve_parts parts_wire (\<lambda>_. all_written) demo_later 0 (incoming (requests_for parts_wire [0]))) = Inr 1 \<and>
   fst (snd (fetch_parts parts_wire demo_pf (\<lambda>_. all_written) (\<lambda>_. demo_effects) 0 0 None fmempty (started demo_done)
     (incoming (part_answers parts_wire demo_later [0])))) =
     (started demo_done)\<lparr>nd_blockchain := demo_blockchain, nd_state := demo_after\<rparr>"
proof -
  have chain: "bc_chain demo_blockchain = demo_later" "length demo_later = 2"
    by (simp_all add: demo_chain demo_later_def)
  have save: "node_save demo_pf demo_effects fmempty demo_done demo_later = (demo_disk, Inr ())"
    using demo_disk by (simp add: demo_later_def)
  have clock: "clock_allows (ef_clock demo_effects) 0 (tl demo_later)"
    using demo_times(2) by (simp add: clock_allows_def demo_later_def demo_block_sel)
  show ?thesis
    using chunk_sync_session[of parts_wire demo_done "\<lambda>_. all_written" "\<lambda>_. all_written" demo_pf
        "\<lambda>_. demo_effects" fmempty demo_disk "incoming (requests_for parts_wire [0])"
        "incoming (part_answers parts_wire demo_later [0])"]
      parts_wire(1) demo_part_servable demo_done_wf demo_blockchain_valid save clock
    unfolding demo_done_sel chain(1) demo_part_starts by (simp add: chain(2))
qed

text \<open>C28. The attacks of the demo fail: sent to a consistent node with a valid chain that is not behind Alice's, all of the forged blocks, forged transactions, forks and oversized chunks are turned away; chains, account state and disk stay as they were and the tests print so. But three of the tests do not reach the rule they announce: a block whose transactions were cleared is refused whatever its timestamp, and the block with the long validator is not looked at, since it kept the hash of the tip.\<close>

theorem demo_attacks_refused:
  assumes "attackable (pf_crypto pf) (dm_bob d)"
    and "length (bc_chain (nd_blockchain (dm_alice d))) \<le> length (bc_chain (nd_blockchain (dm_bob d)))"
    and "fake_fork (pf_crypto pf) (bc_chain (nd_blockchain (dm_alice d))) = Inr chain" "chain \<noteq> []"
    and "unat (nonce_of (nd_state (dm_alice d)) (w_address alice_wallet)) + 1000 < 2 ^ 64"
  shows "(\<exists>d' limit. demo_attacks pf ticks alice_wallet bob_wallet d =
        Inr (d', [True, True, True, True, limit] @ replicate 11 True) \<and>
      nd_blockchain (dm_bob d') = nd_blockchain (dm_bob d) \<and> nd_state (dm_bob d') = nd_state (dm_bob d) \<and>
      nd_blockchain (dm_alice d') = nd_blockchain (dm_alice d) \<and> dm_disk d' = dm_disk d) \<and>
    (\<forall>b. blk_transactions b = [] \<longrightarrow>
      receive_message pf ef (dm_disk d) (dm_bob d) (Block_message b) = (dm_disk d, dm_bob d, Inr ())) \<and>
    (\<forall>tip b. tip_of (dm_bob d) = Inr tip \<and> large_block_field tip = Inr b \<longrightarrow>
      list_ex (\<lambda>known. blk_hash known = blk_hash b) (bc_chain (nd_blockchain (dm_bob d))))"
  using demo_attacks_fail[OF assms, of ticks bob_wallet] empty_block_refused[OF assms(1)]
    large_block_field_known(2)[OF assms(1)] by blast

theorem demo_attacks_refused_witness:
  "\<exists>d' limit. demo_attacks demo_pf (\<lambda>_. demo_effects) alice bob demo_pair =
      Inr (d', [True, True, True, True, limit] @ replicate 11 True) \<and>
    nd_blockchain (dm_bob d') = demo_blockchain"
proof -
  obtain b where "fake_fork (pf_crypto demo_pf) (bc_chain (nd_blockchain (dm_alice demo_pair))) = Inr [b]"
    using demo_fork by auto
  then show ?thesis
    using demo_attacks_refused[of demo_pf demo_pair "[b]" alice "\<lambda>_. demo_effects" bob] demo_attackable
    by (simp add: demo_chain) blast
qed

text \<open>C29. The demo needs the keys of the canonical validators: with wallets of any other keys, such as the ones it creates itself when it finds none, a demo without a stored chain ends at its first block, which no selected wallet may produce.\<close>

theorem demo_needs_validator_keys:
  assumes "demo_nodes (pf_crypto pf) kybernetes_dir aion_dir fs = Inr d" and "sha256_spec (pf_crypto pf)"
    and "load_blockchain_from (pf_json pf) rio fs dir = Inr None"
    and "w_address alice_wallet \<notin> {GENESIS_VALIDATOR_A_ADDRESS, GENESIS_VALIDATOR_B_ADDRESS}"
    and "w_address bob_wallet \<notin> {GENESIS_VALIDATOR_A_ADDRESS, GENESIS_VALIDATOR_B_ADDRESS}"
  shows "demo_run pf ticks rio dir alice_wallet bob_wallet d =
    Inl (No_first_block (Block_check Validator_not_registered))"
  by (rule demo_run_ends[OF assms])

theorem demo_needs_validator_keys_witness:
  "\<exists>d. demo_nodes toy_crypto None None fmempty = Inr d \<and>
    demo_run demo_pf (\<lambda>_. demo_effects) \<lparr>io_open = True, io_read_to_end = True\<rparr> ''data'' alice bob d =
      Inl (No_first_block (Block_check Validator_not_registered))"
proof -
  obtain d where d: "demo_nodes toy_crypto None None fmempty = Inr d"
    using toy_bootstrap by (auto simp: demo_nodes_def expect_def)
  then show ?thesis
    using demo_needs_validator_keys[of demo_pf None None fmempty d "\<lparr>io_open = True, io_read_to_end = True\<rparr>"
        "''data''" alice bob "\<lambda>_. demo_effects"] demo_fresh_wallets toy_sha256_spec
    by (simp add: load_blockchain_from_def)
qed

section \<open>Accounts, fees and the mempool\<close>

text \<open>C30. Applying one transaction: while all balances together are below 2^64, it succeeds exactly when it is acceptable (a coinbase that fits; or a known sender with the exact nonce and enough for amount and fee), then moves amount and fee, advances only the nonce of the sender and leaves treasury and burned amount alone; otherwise it leaves the state as it was.\<close>

theorem transaction_application:
  assumes "total_balance st < 2 ^ 64"
  shows "if accepts st tx
    then \<exists>st'. apply_transaction st tx = (st', Inr ()) \<and> transaction_effect st tx st' \<and>
      total_balance st' + tx_paid tx = total_balance st + tx_minted tx
    else \<exists>e. apply_transaction st tx = (st, Inl e)"
proof (cases "accepts st tx")
  case True
  then obtain st' where ok: "apply_transaction st tx = (st', Inr ())"
    using accepts_applies by blast
  then show ?thesis
    using True apply_transaction_accepted[OF ok] by (auto simp: tx_paid_def tx_minted_def)
next
  case False
  then obtain st' e where fails: "apply_transaction st tx = (st', Inl e)"
    using apply_transaction_iff by (metis old.sum.exhaust old.unit.exhaust prod.exhaust)
  then show ?thesis
    using False apply_transaction_rejected_same[OF assms fails] by simp
qed

theorem transaction_application_witness:
  "\<exists>st'. apply_transaction demo_state demo_tx = (st', Inr ()) \<and> transaction_effect demo_state demo_tx st' \<and>
     total_balance st' + 10 = total_balance demo_state"
  using transaction_application[OF books_balanced_bound[OF demo_books], of demo_tx] demo_tx_accepted
  by (simp add: tx_paid_def tx_minted_def)

text \<open>C31. A fee is split without loss: liquidity reserve and treasury get their percentages rounded down, the validator gets exactly the rest, nothing is burned, and no expect can panic while the shares add up to at most 100 percent.\<close>

theorem fee_split_exact:
  assumes "shares_ok e"
  shows "\<exists>v l t. distribute_fee e fee = Inr (v, l, t, 0) \<and>
    unat l = unat fee * unat (ec_liquidity_fee_percent e) div 100 \<and>
    unat t = unat fee * unat (ec_treasury_fee_percent e) div 100 \<and>
    unat v + unat l + unat t = unat fee"
  by (rule distribute_fee_exact[OF assms])

theorem fee_split_exact_witness:
  "\<exists>v l t. distribute_fee demo_economy 99 = Inr (v, l, t, 0) \<and> unat l = 79 \<and> unat t = 4 \<and>
     unat v + unat l + unat t = 99"
  using fee_split_exact[of demo_economy 99] by simp

text \<open>C32. The mempool admits a transaction exactly when there is room, it is authentic (format, identifier, address, signature) and neither its identifier nor its sender and nonce are pending; it then goes last. Otherwise nothing changes, and in both cases the pool keeps its invariant (at most 10000 authentic transactions, identifiers and sender-nonce pairs unique).\<close>

theorem mempool_admission:
  assumes "mempool_wf cr mp"
  shows "mempool_wf cr (fst (mempool_add cr mp tx)) \<and>
    fst (mempool_add cr mp tx) =
      (if snd (mempool_add cr mp tx) then mp\<lparr>mp_transactions := mp_transactions mp @ [tx]\<rparr> else mp) \<and>
    (snd (mempool_add cr mp tx) \<longleftrightarrow>
      length (mp_transactions mp) < MAX_MEMPOOL_TRANSACTIONS \<and> tx_authentic cr tx \<and>
      tx_id tx \<notin> tx_id ` set (mp_transactions mp) \<and>
      (tx_from tx, tx_nonce tx) \<notin> (\<lambda>tx. (tx_from tx, tx_nonce tx)) ` set (mp_transactions mp))"
proof (cases "mempool_add cr mp tx")
  case (Pair mp' ok)
  then show ?thesis
    using mempool_add_wf[OF assms Pair] mempool_add_rejected[of cr mp tx mp']
      mempool_add_iff[of cr mp tx mp'] mempool_add_iff[of cr mp tx "mp\<lparr>mp_transactions := mp_transactions mp @ [tx]\<rparr>"]
    by (cases ok) auto
qed

theorem mempool_admission_witness:
  "fst (mempool_add toy_crypto demo_first_pool demo_next_tx) = demo_pool"
  using mempool_admission[OF demo_first_pool_wf, of demo_next_tx] demo_mempool_add(2) by simp

text \<open>C33. Transactions for a block: those taken execute in order from the given state, taken and remaining ones together are the pool, at most 1000 are taken, and if fewer, no remaining one can be applied afterwards.\<close>

theorem taken_transactions_maximal:
  assumes "take_valid_transactions mp st = (mp', txs)" and "total_balance st < 2 ^ 64"
    and "mempool_wf cr mp"
  shows "mset txs + mset (mp_transactions mp') = mset (mp_transactions mp) \<and>
    length txs \<le> MAX_NORMAL_TRANSACTIONS_PER_BLOCK \<and>
    (\<exists>st'. replay apply_transaction st txs = Inr st' \<and>
      (length txs = MAX_NORMAL_TRANSACTIONS_PER_BLOCK \<or>
       filter (accepts st') (mp_transactions mp') = []))"
  using take_valid_transactions_contract[OF assms(1,2) mempool_wf_ordinary[OF assms(3)]]
  by (auto simp: filter_empty_conv)

theorem taken_transactions_maximal_witness:
  "\<exists>mp' txs. take_valid_transactions demo_pool demo_state = (mp', txs) \<and>
     mset txs + mset (mp_transactions mp') = {#demo_tx, demo_next_tx#}"
  using taken_transactions_maximal[OF surjective_pairing books_balanced_bound[OF demo_books] demo_pool_wf]
  by (metis add_mset_commute demo_pool_sel mset.simps prod.collapse)

section \<open>Keys\<close>

text \<open>C34. The identifier of a transaction commits to all its content but the signature: equal identifiers mean equal content, or the two messages are a SHA-256 collision.\<close>

theorem identifier_commits_to_transaction:
  assumes "sha256_spec cr" and "fits (tx_message t)" and "fits (tx_message u)"
    and "calculate_id cr t = calculate_id cr u"
  shows "tx_payload t = tx_payload u \<or> sha256_collision cr (tx_message t) (tx_message u)"
  by (rule calculate_id_unique[OF assms])

theorem identifier_commits_to_transaction_witness:
  "tx_payload demo_tx = tx_payload (demo_tx\<lparr>tx_signature := None\<rparr>) \<or>
     sha256_collision toy_crypto (tx_message demo_tx) (tx_message demo_tx)"
  using identifier_commits_to_transaction[OF toy_sha256_spec demo_tx_fits, of "demo_tx\<lparr>tx_signature := None\<rparr>"]
    demo_tx_fits by simp

text \<open>C35. A generated candidate key becomes the validator: once its address is in the validator set, activating it with its password stores exactly that key for that genesis, under the address the candidate was announced with.\<close>

theorem activated_candidate_is_validator:
  assumes "hex_spec cr" "vault_spec va" "validator_json_spec vj" "generated_lengths io"
      "generated_lengths io1"
    and "candidate_generate cr va vj io fs dir password = (fs1, Inr a)"
    and "candidate_activate cr va vj io1 fs1 dir password co g = (fs2, Inr activation)"
    and "\<And>bs. fmlookup fs2 (validator_keystore_path dir) = Some bs \<Longrightarrow>
      bs \<noteq> [] \<and> length bs \<le> MAX_VALIDATOR_KEYSTORE_BYTES"
    and "readable io'"
  shows "ac_validator_address activation = a \<and>
    load_authorized cr va vj io' fs2 dir password co g =
      Inr (Some \<lparr>vi_wallet = wallet_new cr (ki_signing_key io)\<rparr>)"
  using activated_candidate_loaded[OF assms] by blast

theorem activated_candidate_is_validator_witness:
  "\<exists>fs2. load_authorized toy_crypto demo_vault demo_validator_json demo_key_io fs2 ''data'' demo_password
      demo_consensus demo_fingerprint = Inr (Some \<lparr>vi_wallet = alice\<rparr>)"
proof -
  obtain fs1 fs2 activation bs where gen:
    "candidate_generate toy_crypto demo_vault demo_validator_json demo_key_io fmempty ''data'' demo_password =
       (fs1, Inr (w_address alice))"
    and act: "candidate_activate toy_crypto demo_vault demo_validator_json demo_key_io fs1 ''data'' demo_password
       demo_consensus demo_fingerprint = (fs2, Inr activation)"
    and bs: "fmlookup fs2 (validator_keystore_path ''data'') = Some bs" "bs \<noteq> []" "length bs \<le> 3"
    using demo_activation by blast
  show ?thesis
    using activated_candidate_is_validator[OF toy_hex_spec demo_vault_spec demo_validator_json(1) demo_key_io(1)
        demo_key_io(1) gen act _ demo_key_io(2)] bs demo_key_io(5)
    by (auto simp: MAX_VALIDATOR_KEYSTORE_BYTES_def)
qed



section \<open>Consensus, peers and sessions\<close>

text \<open>C37. Stake-weighted selection: as long as the stakes add up below 2^64, exactly as many of the numbers below the total stake select a validator as it has staked, a number is taken modulo the total, and nobody is selected exactly when nothing is staked.\<close>

theorem selection_by_stake:
  assumes "stakes_fit co" and "consensus_wf co" and "v \<in> set (co_validators co)"
  shows "card {n. n < stake_sum (co_validators co) \<and> select_validator co (word_of_nat n) = Inr (Some v)} =
      unat (val_stake v) \<and>
    select_validator co number =
      select_validator co (word_of_nat (unat number mod stake_sum (co_validators co))) \<and>
    (select_validator co number = Inr None \<longleftrightarrow> stake_sum (co_validators co) = 0)"
  using stakes.share[OF assms(1) consensus_wf_distinct[OF assms(2)] assms(3)]
    select_validator_mod[of co number] unat_total_stake[OF assms(1)] select_validator_defined(1)[OF assms(1)]
  by (simp add: stake_sum_def)

theorem selection_by_stake_witness:
  "card {n. n < 700 \<and> select_validator demo_consensus (word_of_nat n) =
     Inr (Some \<lparr>val_address = w_address alice, val_stake = 700\<rparr>)} = 700"
  using selection_by_stake[OF demo_stakes_fit, of "\<lparr>val_address = w_address alice, val_stake = 700\<rparr>"]
  by (simp add: consensus_wf_def demo_consensus_def stake_sum_def)

text \<open>C38. A peer identity is registered exactly when it is well formed, both its node id and its address are new, and there is room; it is then the last of the registry and its address a known peer. Any other outcome changes nothing, and the registry keeps its invariant (no node id, address or peer twice, bounded sizes).\<close>

theorem peer_registration:
  assumes "network_wf nw"
  shows "network_wf (fst (register_peer_identity nw nid a)) \<and>
    (if is_fixed_hex nid ADDRESS_HEX_LENGTH \<and> peer_address_ok a \<and>
        nid \<notin> pi_node_id ` set (nw_peer_identities nw) \<and>
        a \<notin> pi_listen_address ` set (nw_peer_identities nw) \<and>
        length (nw_peer_identities nw) < MAX_NETWORK_PEERS \<and>
        (a \<in> set (nw_peers nw) \<or> length (nw_peers nw) < MAX_NETWORK_PEERS)
     then snd (register_peer_identity nw nid a) = Registered \<and>
       nw_peer_identities (fst (register_peer_identity nw nid a)) =
         nw_peer_identities nw @ [\<lparr>pi_node_id = nid, pi_listen_address = a\<rparr>] \<and>
       set (nw_peers (fst (register_peer_identity nw nid a))) = insert a (set (nw_peers nw))
     else snd (register_peer_identity nw nid a) \<noteq> Registered \<and> fst (register_peer_identity nw nid a) = nw)"
proof (cases "register_peer_identity nw nid a")
  case (Pair nw' r)
  then show ?thesis
    using register_peer_identity_iff[of nw nid a] register_peer_identity_other[of nw nid a nw' r]
      register_peer_identity_effect[of nw nid a nw'] register_peer_identity_wf[OF assms, of nid a]
    by (cases "r = Registered") simp_all
qed

theorem peer_registration_witness:
  "snd (register_peer_identity network_new (w_address alice) ''10.0.0.1:9000'') = Registered"
  using peer_registration[OF network_new_wf, of "w_address alice" "''10.0.0.1:9000''"]
    wallet_texts_fixed_hex(1)[OF toy_crypto_ok alice_wf]
  by (simp add: network_new_def peer_address_ok_def MAX_NETWORK_PEERS_def MAX_PEER_ADDRESS_LENGTH_def
      ONE_SHOT_CLIENT_LISTEN_ADDRESS_def)

text \<open>C39. An authenticated session delivers: a node that dials with a fresh handshake and a node that answers it (clocks within 120 seconds) authenticate each other, and the listener forwards the handshake and every message sent after it, unchanged and in order, until the peer closes.\<close>

theorem authenticated_session_delivers:
  assumes wire: "wire_spec wr" and cr: "crypto_spec cr" and wallets: "wallet_wf cr w" "wallet_wf cr w'"
    and random: "length random = 32" and address: "a \<noteq> []" "length a \<le> MAX_PEER_ADDRESS_LENGTH"
    and m: "m = create_handshake cr (Some t) random w a" "sendable wr m"
    and ack: "m' = create_handshake_ack cr (Some t') w' True (hex_encode cr random)" "sendable wr m'"
    and clocks: "clock 0 = Some now" "clock 1 = Some t'" "unat t \<le> unat now + 120" "unat now \<le> unat t + 120"
    and clocks': "clock' 0 = Some t" "clock' 1 = Some now'" "unat t' \<le> unat now' + 120" "unat now' \<le> unat t' + 120"
    and sent: "list_all (sendable wr) ms" "cn_incoming cn = concat (map (frame_of wr) (m # ms))" "cn_end cn = Closed"
    and channel: "\<And>j. channel j" and answered: "cn_incoming cn' = frame_of wr m' @ rest"
  shows "listener_session wr cr clock all_written w' channel cn =
      (cn\<lparr>cn_incoming := [], cn_outgoing := cn_outgoing cn @ frame_of wr m'\<rparr>, m # ms) \<and>
    connect_authenticated wr cr clock' random all_written w a (Inr cn') =
      Inr (cn'\<lparr>cn_incoming := rest, cn_outgoing := cn_outgoing cn' @ frame_of wr m\<rparr>)"
proof -
  let ?cn = "cn\<lparr>cn_incoming := concat (map (frame_of wr) ms), cn_outgoing := cn_outgoing cn @ frame_of wr m'\<rparr>"
  have "authenticate_incoming wr cr clock all_written w' cn = (?cn, Inr m)"
    by (rule authenticate_fresh_handshake[OF wire cr wallets(1) random address clocks _ m ack]) (simp add: sent(2))
  moreover have "forward_messages wr channel 1 ?cn = (?cn\<lparr>cn_incoming := []\<rparr>, ms)"
    by (rule forward_sent[OF wire sent(1) _ _ channel]) (simp_all add: sent(3))
  ultimately show ?thesis
    using connect_fresh[OF wire cr wallets(2) clocks' answered m ack] channel
    by (simp add: listener_session_eq)
qed

theorem authenticated_session_delivers_witness:
  "snd (listener_session demo_wire toy_crypto accepting_clock all_written bob (\<lambda>_. True)
     (incoming (frame_of demo_wire demo_handshake @ frame_of demo_wire Sync_request))) = [demo_handshake, Sync_request]"
  using authenticated_session_delivers[OF demo_wire(1) toy_crypto_ok alice_wf bob_wf demo_random_length _ _
      demo_handshake_def demo_wire(2) demo_ack_def demo_wire(3), of accepting_clock 1060 dialling_clock 1070 "[Sync_request]"
      "incoming (frame_of demo_wire demo_handshake @ frame_of demo_wire Sync_request)" "\<lambda>_. True"
      "incoming (frame_of demo_wire demo_ack)" "[]"] demo_wire(4)
  by (simp add: accepting_clock_def dialling_clock_def MAX_PEER_ADDRESS_LENGTH_def)

section \<open>Genesis\<close>

text \<open>C40. The compiled-in genesis configuration builds: the node started from it is consistent (books balanced, chain valid), its 1000 coins of supply are allocated, and its two validators hold 700 and 300 of the stake.\<close>

theorem canonical_network_starts:
  assumes "sha256_spec cr"
  shows "\<exists>cb. canonical_bootstrap cr = Inr cb \<and>
    node_wf cr (node_new_with_data_directory (cb_blockchain cb) (cb_state cb) (cb_consensus cb) dir) \<and>
    is_valid cr (cb_blockchain cb) \<and> unat (ec_total_supply (bc_economy (cb_blockchain cb))) = 1000 * 1000000 \<and>
    map val_stake (co_validators (cb_consensus cb)) = [700, 300] \<and> consensus_wf (cb_consensus cb)"
proof -
  obtain cb where cb: "canonical_bootstrap cr = Inr cb"
    "co_validators (cb_consensus cb) =
       [\<lparr>val_address = GENESIS_VALIDATOR_A_ADDRESS, val_stake = 700\<rparr>,
        \<lparr>val_address = GENESIS_VALIDATOR_B_ADDRESS, val_stake = 300\<rparr>]"
    "ec_total_supply (bc_economy (cb_blockchain cb)) = 1000000000"
    using canonical_bootstrap_succeeds[of cr] by blast
  note started = canonical_node_wf[OF assms cb(1)]
  have "is_valid cr (cb_blockchain cb)"
    using started(2) by (simp add: node_new_with_data_directory_def)
  then show ?thesis
    using started(1,4) by (intro exI[of _ cb] conjI) (simp_all add: cb)
qed

theorem canonical_network_starts_witness:
  "\<exists>cb. canonical_bootstrap toy_crypto = Inr cb \<and> is_valid toy_crypto (cb_blockchain cb)"
  using canonical_network_starts[OF toy_sha256_spec] by blast

section \<open>Further facts\<close>

text \<open>The validation loop of a chain computes the reference definition: transaction identifiers are used once, every block is well formed, at its index, with its hash and sealed transactions, and follows its predecessor (link, later timestamp, signature by the named validator).\<close>

theorem chain_validity:
  "is_valid cr bc \<longleftrightarrow>
     distinct (map tx_id (concat (map blk_transactions (bc_chain bc)))) \<and>
     (\<nexists>us b vs. bc_chain bc = us @ b # vs \<and> \<not> (block_ok cr (length us) b \<and> follows cr us b))"
  by (auto simp: is_valid_iff chain_tx_ids_def)

text \<open>A list of transactions is applied as a whole or not at all, and when it is applied, ordinary transactions destroy exactly their fees.\<close>

theorem transactions_all_or_nothing:
  assumes "list_all (\<lambda>tx. \<not> tx_coinbase tx) txs"
  shows "(\<exists>st'. apply_transactions_atomically st txs = (st', Inr ()) \<and>
      replay apply_transaction st txs = Inr st' \<and> total_balance st' + fee_sum txs = total_balance st) \<or>
    (\<exists>e. apply_transactions_atomically st txs = (st, Inl e) \<and> replay apply_transaction st txs = Inl e)"
  using replay_ordinary_funds[OF _ assms, of st]
  by (cases "replay apply_transaction st txs") (auto simp: apply_transactions_atomically_def fee_sum_def)

text \<open>The next nonce for a sender is the least number from its account nonce on that no pending transaction of that sender carries.\<close>

theorem next_nonce_is_least_gap:
  "next_nonce mp a n = Inr m \<longleftrightarrow> m = (LEAST k. n \<le> k \<and> k \<notin> pending_nonces mp a) \<and>
     \<not> {n..} \<subseteq> pending_nonces mp a"
proof
  assume "next_nonce mp a n = Inr m"
  then have m: "n \<le> m" "m \<notin> pending_nonces mp a" "\<forall>k. n \<le> k \<and> k < m \<longrightarrow> k \<in> pending_nonces mp a"
    by (simp_all add: next_nonce_Inr_iff)
  then have "(LEAST k. n \<le> k \<and> k \<notin> pending_nonces mp a) = m"
    by (intro Least_equality) (auto simp: not_less[symmetric])
  with m show "m = (LEAST k. n \<le> k \<and> k \<notin> pending_nonces mp a) \<and> \<not> {n..} \<subseteq> pending_nonces mp a"
    by auto
next
  assume r: "m = (LEAST k. n \<le> k \<and> k \<notin> pending_nonces mp a) \<and> \<not> {n..} \<subseteq> pending_nonces mp a"
  then obtain k where "n \<le> k \<and> k \<notin> pending_nonces mp a"
    by auto
  from LeastI[of "\<lambda>k. n \<le> k \<and> k \<notin> pending_nonces mp a", OF this] r show "next_nonce mp a n = Inr m"
    by (auto simp: next_nonce_Inr_iff dest: not_less_Least)
qed

text \<open>The hash of a block commits to everything in it, identifiers and signatures of its transactions included, but the signature of the validator: equal hashes mean equal content, or a SHA-256 collision.\<close>

theorem hash_commits_to_block:
  assumes "sha256_spec cr" and "block_fits b" and "block_fits c"
    and "calculate_hash cr b = calculate_hash cr c"
  shows "block_payload b = block_payload c \<or> sha256_collision cr (block_data b) (block_data c)"
  by (rule calculate_hash_unique[OF assms])

text \<open>A provisioned validator key is loaded again with its password: exactly for the genesis it was provisioned for, and while its address is in the validator set; otherwise the load is refused, with the reason.\<close>

theorem provisioned_key_loads:
  assumes "hex_spec cr" "vault_spec va" "validator_json_spec vj" "generated_lengths io"
    and "provision cr va vj io fs dir password private_key co g = (fs', Inr a)"
    and "\<And>bs. fmlookup fs' (validator_keystore_path dir) = Some bs \<Longrightarrow>
      bs \<noteq> [] \<and> length bs \<le> MAX_VALIDATOR_KEYSTORE_BYTES"
    and "readable io'"
  shows "load_authorized cr va vj io' fs' dir password co' g' =
    (if g' \<noteq> g then Inl (Keystore_error Validator_keystore Identity_mismatch)
     else if \<not> is_validator_allowed co' a
     then Inl (Keystore_error Validator_keystore Key_not_in_validator_set)
     else and_then (from_private_key_hex cr private_key) (\<lambda>w. Inr (Some \<lparr>vi_wallet = w\<rparr>)))"
  by (rule provision_load[OF assms])

text \<open>A created user wallet is loaded with its password, is one the program can sign with, and was only created where no wallet was.\<close>

theorem created_user_wallet_loads:
  assumes "hex_spec cr" "vault_spec va" "user_wallet_json_spec uj" "generated_lengths io"
    and "user_wallet_create cr va uj io fs dir password = (fs', Inr w)"
    and "readable io'"
  shows "user_wallet_load cr va uj io' fs' dir password = Inr (Some w) \<and> wallet_wf cr w \<and>
    fmlookup fs (user_wallet_path dir) = None"
  using user_wallet_create_load[OF assms] by blast

text \<open>What is signed in a handshake determines its fields: two handshake texts with fields of equal lengths (node id, key and challenge have fixed lengths) are equal only if all fields are, and no handshake text is an acknowledgement text, so neither signature can be replayed as the other.\<close>

theorem handshake_texts_unique:
  assumes "length i = length i'" and "length p = length p'" and "length ch = length ch'"
  shows "(node_handshake_message i p l net ver t ch = node_handshake_message i' p' l' net ver t' ch' \<longleftrightarrow>
      i = i' \<and> p = p' \<and> l = l' \<and> t = t' \<and> ch = ch') \<and>
    node_handshake_message i p l net ver t ch \<noteq> node_handshake_ack_message i' p' net' ver' t' ch' acc"
  using node_handshake_message_unique[OF _ assms] handshake_texts_disjoint by metis

text \<open>Saving a chain either succeeds, and then exactly that chain is loaded, or fails at any point, and then loading gives what it gave before; in both cases no file but the temporary one and the chain file is touched.\<close>

theorem save_then_load:
  assumes "json_spec js" and "save_blockchain_to js io fs dir chain = (fs', r)"
  shows "stored_chain dir js fs' = (if is_ok r then Inr (Some chain) else stored_chain dir js fs) \<and>
    (p = unique_blockchain_temp_path io dir \<or> p = blockchain_path_in dir \<or> fmlookup fs' p = fmlookup fs p)"
proof -
  have "fmlookup fs' p = fmlookup fs p"
    if "p \<noteq> unique_blockchain_temp_path io dir" "p \<noteq> blockchain_path_in dir"
  proof (cases r)
    case (Inl e)
    then show ?thesis
      using save_blockchain_to_error assms(2) that(1) by blast
  next
    case (Inr u)
    then show ?thesis
      using assms(2) that(2) by (auto elim!: save_blockchain_to_ok)
  qed
  then show ?thesis
    using store.save_cases[of "(dir, js)" io fs chain] assms by auto
qed

text \<open>The genesis fingerprint commits to the configuration: network, versions, time, validators in order, allocations up to order, and all numbers; otherwise the two configurations are a SHA-256 collision.\<close>

theorem fingerprint_commits_to_configuration:
  assumes "sha256_spec cr" and "configuration_fits gc" and "configuration_fits gc'"
    and "genesis_configuration_fingerprint cr gc = genesis_configuration_fingerprint cr gc'"
  shows "(gc_network_id gc = gc_network_id gc' \<and>
      gc_network_protocol_version gc = gc_network_protocol_version gc' \<and>
      gc_timestamp gc = gc_timestamp gc' \<and> gc_validators gc = gc_validators gc' \<and>
      mset (gc_allocations gc) = mset (gc_allocations gc') \<and>
      configuration_numbers gc = configuration_numbers gc') \<or>
    sha256_collision cr (genesis_canonical_bytes gc) (genesis_canonical_bytes gc')"
  by (rule genesis_fingerprint_unique[OF assms])

end
